(* ===== verification/Prelude.thy ===== *)
theory Prelude
  imports Complex_Main "HOL-Library.Word"
begin

section \<open>Shared vocabulary of the model\<close>

text \<open>
  What every component uses: the result type that stands for Rust's \<open>Result\<close> (\<open>Inl\<close> is
  \<open>Err\<close>, \<open>Inr\<close> is \<open>Ok\<close>) with the sequencing that the \<open>?\<close> operator does, machine integers as
  ranges of \<open>int\<close>, strings as lists of UTF-8 bytes (so \<open>length\<close> is Rust's \<open>str::len\<close>), the part of
  the standard library the sources call (\<open>str::trim\<close>, \<open>str::parse\<close> for unsigned integers,
  \<open>to_ascii_lowercase\<close>, integer formatting, \<open>std::time::Duration\<close>), and generic list lemmas.
\<close>

subsection \<open>Collections of facts\<close>

named_theorems res_simps \<open>unfolding of result sequencing\<close>
named_theorems std_simps \<open>facts about the modelled standard library\<close>

subsection \<open>Results\<close>

type_synonym uuid = "128 word"

text \<open>PostgreSQL \<open>timestamptz\<close>: microseconds since the epoch.\<close>

type_synonym timestamp = int

fun bind_res :: "'e + 'a \<Rightarrow> ('a \<Rightarrow> 'e + 'b) \<Rightarrow> 'e + 'b" where
  "bind_res (Inl e) f = Inl e"
| "bind_res (Inr x) f = f x"

fun map_err :: "('e \<Rightarrow> 'f) \<Rightarrow> 'e + 'a \<Rightarrow> 'f + 'a" where
  "map_err g (Inl e) = Inl (g e)"
| "map_err g (Inr x) = Inr x"

fun ok_or :: "'e \<Rightarrow> 'a option \<Rightarrow> 'e + 'a" where
  "ok_or e None = Inl e"
| "ok_or e (Some x) = Inr x"

definition ensure :: "bool \<Rightarrow> 'e \<Rightarrow> 'e + unit" where
  "ensure c e = (if c then Inr () else Inl e)"

lemma bind_res_Inr_iff [res_simps]:
  "bind_res r f = Inr y \<longleftrightarrow> (\<exists>x. r = Inr x \<and> f x = Inr y)"
  by (cases r) auto

lemma bind_res_Inl_iff [res_simps]:
  "bind_res r f = Inl e \<longleftrightarrow> r = Inl e \<or> (\<exists>x. r = Inr x \<and> f x = Inl e)"
  by (cases r) auto

lemma map_err_Inr_iff [res_simps]: "map_err g r = Inr y \<longleftrightarrow> r = Inr y"
  by (cases r) auto

lemma map_err_Inl_iff [res_simps]: "map_err g r = Inl f \<longleftrightarrow> (\<exists>e. r = Inl e \<and> f = g e)"
  by (cases r) auto

lemma ok_or_Inr_iff [res_simps]: "ok_or e v = Inr x \<longleftrightarrow> v = Some x"
  by (cases v) auto

lemma ok_or_Inl_iff [res_simps]: "ok_or e v = Inl f \<longleftrightarrow> v = None \<and> f = e"
  by (cases v) auto

lemma ensure_Inr_iff [res_simps]: "ensure c e = Inr u \<longleftrightarrow> c"
  by (simp add: ensure_def)

lemma ensure_Inl_iff [res_simps]: "ensure c e = Inl f \<longleftrightarrow> \<not> c \<and> f = e"
  by (auto simp: ensure_def)

lemma ensure_simps [simp]: "ensure True e = Inr ()" "ensure False e = Inl e"
  by (simp_all add: ensure_def)

lemma bind_res_cong [fundef_cong]:
  "r = r' \<Longrightarrow> (\<And>x. r' = Inr x \<Longrightarrow> f x = g x) \<Longrightarrow> bind_res r f = bind_res r' g"
  by (cases r') auto

text \<open>Evaluating a sequence step by step: what comes later is left alone until its turn.\<close>

lemma bind_res_weak_cong: "r = r' \<Longrightarrow> bind_res r f = bind_res r' f"
  by simp

subsection \<open>Machine integers as ranges\<close>

definition i32 :: "int \<Rightarrow> bool" where
  "i32 x \<longleftrightarrow> - (2 ^ 31) \<le> x \<and> x \<le> 2 ^ 31 - 1"

text \<open>\<open>i32\<close> addition of a release build: two's complement wrap-around.\<close>

definition wrap_i32 :: "int \<Rightarrow> int" where
  "wrap_i32 x = (x + 2 ^ 31) mod 2 ^ 32 - 2 ^ 31"

lemma wrap_i32_id: "i32 x \<Longrightarrow> wrap_i32 x = x"
  by (simp add: i32_def wrap_i32_def)

lemma wrap_i32_range: "i32 (wrap_i32 x)"
proof -
  have "0 \<le> (x + 2 ^ 31) mod 2 ^ 32" "(x + 2 ^ 31) mod 2 ^ 32 < (2::int) ^ 32"
    by simp_all
  then show ?thesis by (simp add: i32_def wrap_i32_def)
qed

definition u32_max :: nat where
  "u32_max = 2 ^ 32 - 1"

definition u64_max :: nat where
  "u64_max = 2 ^ 64 - 1"

definition i64_max :: int where
  "i64_max = 2 ^ 63 - 1"

definition saturating_mul_u32 :: "nat \<Rightarrow> nat \<Rightarrow> nat" where
  "saturating_mul_u32 a b = min (a * b) u32_max"

subsection \<open>Durations\<close>

text \<open>
  \<open>std::time::Duration\<close> is a pair of seconds (\<open>u64\<close>) and nanoseconds below \<open>10 ^ 9\<close>; the model keeps
  the total number of nanoseconds, which determines the pair. \<open>Duration::MAX\<close> bounds it.
\<close>

type_synonym duration = nat

definition duration_max :: duration where
  "duration_max = 2 ^ 64 * 10 ^ 9 - 1"

definition from_secs :: "nat \<Rightarrow> duration" where
  "from_secs s = s * 10 ^ 9"

definition from_millis :: "nat \<Rightarrow> duration" where
  "from_millis ms = ms * 10 ^ 6"

definition as_millis :: "duration \<Rightarrow> nat" where
  "as_millis d = d div 10 ^ 6"

definition is_zero :: "duration \<Rightarrow> bool" where
  "is_zero d \<longleftrightarrow> d = 0"

definition duration_saturating_mul :: "duration \<Rightarrow> nat \<Rightarrow> duration" where
  "duration_saturating_mul d k = min (d * k) duration_max"

text \<open>
  \<open>as_secs_f64\<close>, read as the exact quotient. Every duration the services convert is a whole number
  of milliseconds below \<open>2 ^ 53\<close> microseconds, where the nearest \<open>f64\<close> gives back the same number
  of microseconds.
\<close>

definition as_secs_f64 :: "duration \<Rightarrow> rat" where
  "as_secs_f64 d = of_nat d / 10 ^ 9"

lemma as_millis_from_millis [std_simps]: "as_millis (from_millis m) = m"
  by (simp add: as_millis_def from_millis_def)

lemma from_millis_as_millis_le: "from_millis (as_millis d) \<le> d"
  by (simp add: as_millis_def from_millis_def)

lemma from_millis_mono: "a \<le> b \<Longrightarrow> from_millis a \<le> from_millis b"
  by (simp add: from_millis_def)

subsection \<open>Strings\<close>

text \<open>
  \<open>char::is_whitespace\<close> (Unicode \<open>White_Space\<close>) as the UTF-8 encodings of its 25 code points. On
  well-formed UTF-8 a code point begins (ends) a string exactly when its encoding is a prefix
  (suffix) of the bytes.
\<close>

definition white_space :: "string list" where
  "white_space =
     map (\<lambda>n. [char_of n]) [9 :: nat, 10, 11, 12, 13, 32]
     @ map (map char_of)
       ([[0xC2, 0x85], [0xC2, 0xA0], [0xE1, 0x9A, 0x80]]
        @ map (\<lambda>n. [0xE2, 0x80, n]) [0x80 ..< 0x8B]
        @ [[0xE2, 0x80, 0xA8], [0xE2, 0x80, 0xA9], [0xE2, 0x80, 0xAF], [0xE2, 0x81, 0x9F],
           [0xE3, 0x80, 0x80 :: nat]])"

definition strip_one :: "string list \<Rightarrow> string \<Rightarrow> string option" where
  "strip_one ws s =
     (case filter (\<lambda>w. w \<noteq> [] \<and> take (length w) s = w) ws of
        [] \<Rightarrow> None
      | w # _ \<Rightarrow> Some (drop (length w) s))"

lemma strip_one_shorter: "strip_one ws s = Some t \<Longrightarrow> length t < length s"
proof -
  assume "strip_one ws s = Some t"
  then obtain w vs where f: "filter (\<lambda>w. w \<noteq> [] \<and> take (length w) s = w) ws = w # vs"
    and t: "t = drop (length w) s"
    by (auto simp: strip_one_def split: list.splits)
  then have "w \<in> set (filter (\<lambda>w. w \<noteq> [] \<and> take (length w) s = w) ws)" by simp
  then have "w \<noteq> []" "take (length w) s = w" by simp_all
  then have "s \<noteq> []" by auto
  with \<open>w \<noteq> []\<close> show ?thesis by (simp add: t)
qed

function strip_all :: "string list \<Rightarrow> string \<Rightarrow> string" where
  "strip_all ws s = (case strip_one ws s of None \<Rightarrow> s | Some t \<Rightarrow> strip_all ws t)"
  by pat_completeness auto
termination
  by (relation "measure (\<lambda>(ws, s). length s)") (auto dest: strip_one_shorter)

declare strip_all.simps [simp del]

definition trim :: "string \<Rightarrow> string" where
  "trim s = rev (strip_all (map rev white_space) (rev (strip_all white_space s)))"

lemma strip_all_length: "length (strip_all ws s) \<le> length s"
proof (induction ws s rule: strip_all.induct)
  case (1 ws s)
  show ?case
  proof (cases "strip_one ws s")
    case None
    then show ?thesis by (simp add: strip_all.simps [of ws s])
  next
    case (Some t)
    then have "length (strip_all ws t) \<le> length t" by (rule 1)
    with strip_one_shorter [OF Some] Some show ?thesis by (simp add: strip_all.simps [of ws s])
  qed
qed

lemma trim_length: "length (trim s) \<le> length s"
proof -
  have "length (trim s) \<le> length (strip_all white_space s)"
    using strip_all_length [of "map rev white_space" "rev (strip_all white_space s)"]
    by (simp add: trim_def)
  also have "\<dots> \<le> length s" by (rule strip_all_length)
  finally show ?thesis .
qed

lemma strip_one_None: "(\<And>w. w \<in> set ws \<Longrightarrow> w \<noteq> [] \<Longrightarrow> s \<noteq> [] \<Longrightarrow> hd w \<noteq> hd s) \<Longrightarrow> strip_one ws s = None"
proof -
  assume h: "\<And>w. w \<in> set ws \<Longrightarrow> w \<noteq> [] \<Longrightarrow> s \<noteq> [] \<Longrightarrow> hd w \<noteq> hd s"
  have "\<not> (w \<noteq> [] \<and> take (length w) s = w)" if "w \<in> set ws" for w
    using h [OF that] by (cases w; cases s) auto
  then have "filter (\<lambda>w. w \<noteq> [] \<and> take (length w) s = w) ws = []" by (simp add: filter_empty_conv)
  then show ?thesis by (simp add: strip_one_def)
qed

definition graphic :: "char \<Rightarrow> bool" where
  "graphic c \<longleftrightarrow> 33 \<le> (of_char c :: nat) \<and> (of_char c :: nat) \<le> 126"

lemma white_space_ends: "\<forall>w \<in> set white_space. w \<noteq> [] \<longrightarrow> \<not> graphic (hd w) \<and> \<not> graphic (last w)"
  by (simp add: white_space_def graphic_def)

lemma trim_graphic:
  assumes "s \<noteq> []" "graphic (hd s)" "graphic (last s)"
  shows "trim s = s"
proof -
  have "strip_one white_space s = None" using white_space_ends assms(2) by (intro strip_one_None) metis
  then have 1: "strip_all white_space s = s" by (simp add: strip_all.simps [of white_space s])
  have "strip_one (map rev white_space) (rev s) = None"
  proof (rule strip_one_None)
    fix w assume "w \<in> set (map rev white_space)" "w \<noteq> []"
    then obtain v where "v \<in> set white_space" "w = rev v" "v \<noteq> []" by auto
    then show "hd w \<noteq> hd (rev s)" using white_space_ends assms(1,3) by (auto simp: hd_rev)
  qed
  then have "strip_all (map rev white_space) (rev s) = rev s"
    by (simp add: strip_all.simps [of "map rev white_space" "rev s"])
  then show ?thesis by (simp add: trim_def 1)
qed

definition starts_with :: "string \<Rightarrow> string \<Rightarrow> bool" where
  "starts_with s p \<longleftrightarrow> take (length p) s = p"

definition is_ascii_uppercase :: "char \<Rightarrow> bool" where
  "is_ascii_uppercase c \<longleftrightarrow> of_char c \<ge> (65 :: nat) \<and> of_char c \<le> (90 :: nat)"

definition to_ascii_lowercase :: "string \<Rightarrow> string" where
  "to_ascii_lowercase s =
     map (\<lambda>c. if is_ascii_uppercase c then char_of (of_char c + (32 :: nat)) else c) s"

text \<open>
  A formatted message. Where the source quotes a value with \<open>Debug\<close> formatting, the message keeps the
  text before it, the raw value and the text after it, so that nothing is lost to escaping.
\<close>

datatype message = Text string | Quoting string string string

text \<open>Decimal formatting of integers (\<open>Display\<close>) and parsing (\<open>FromStr\<close> for unsigned types).\<close>

fun show_nat :: "nat \<Rightarrow> string" where
  "show_nat n =
     (if n < 10 then [char_of (48 + n)] else show_nat (n div 10) @ [char_of (48 + n mod 10)])"

declare show_nat.simps [simp del]

definition show_int :: "int \<Rightarrow> string" where
  "show_int i = (if i < 0 then CHR ''-'' # show_nat (nat (- i)) else show_nat (nat i))"

definition digit_of :: "char \<Rightarrow> nat option" where
  "digit_of c =
     (let n = of_char c :: nat in if 48 \<le> n \<and> n \<le> 57 then Some (n - 48) else None)"

fun parse_digits :: "nat \<Rightarrow> nat \<Rightarrow> string \<Rightarrow> nat option" where
  "parse_digits mx acc [] = Some acc"
| "parse_digits mx acc (c # cs) =
     (case digit_of c of
        None \<Rightarrow> None
      | Some d \<Rightarrow> if 10 * acc + d \<le> mx then parse_digits mx (10 * acc + d) cs else None)"

text \<open>One leading plus sign is accepted; an empty string, a lone sign or a minus sign is not.\<close>

definition parse_uint :: "nat \<Rightarrow> string \<Rightarrow> nat option" where
  "parse_uint mx s =
     (let ds = (case s of [] \<Rightarrow> [] | c # cs \<Rightarrow> if c = CHR ''+'' then cs else s)
      in if ds = [] then None else parse_digits mx 0 ds)"

lemma parse_digits_le: "acc \<le> mx \<Longrightarrow> parse_digits mx acc s = Some n \<Longrightarrow> n \<le> mx"
  by (induction s arbitrary: acc) (auto split: option.splits if_splits)

lemma parse_uint_le: "parse_uint mx s = Some n \<Longrightarrow> n \<le> mx"
  by (auto simp: parse_uint_def Let_def dest: parse_digits_le [rotated] split: if_splits)

lemma digit_of_char_of: "d < 10 \<Longrightarrow> digit_of (char_of (48 + d)) = Some d"
  by (simp add: digit_of_def)

lemma parse_digits_append:
  "parse_digits mx acc (xs @ ys) =
     (case parse_digits mx acc xs of None \<Rightarrow> None | Some a \<Rightarrow> parse_digits mx a ys)"
  by (induction xs arbitrary: acc) (auto split: option.splits)

lemma parse_digits_show_nat: "n \<le> mx \<Longrightarrow> parse_digits mx 0 (show_nat n) = Some n"
proof (induction n rule: show_nat.induct)
  case (1 n)
  show ?case
  proof (cases "n < 10")
    case True
    with 1 show ?thesis by (simp add: show_nat.simps [of n] digit_of_char_of)
  next
    case False
    have "n div 10 \<le> mx" using 1(2) by simp
    with False 1 have "parse_digits mx 0 (show_nat (n div 10)) = Some (n div 10)" by simp
    with False 1(2) show ?thesis
      by (simp add: show_nat.simps [of n] parse_digits_append digit_of_char_of del: char_of_nat)
  qed
qed

lemma show_nat_nonempty: "show_nat n \<noteq> []"
  by (subst show_nat.simps) simp

lemma digit_chars: "d < (10 :: nat) \<Longrightarrow> char_of (48 + d) \<in> set ''0123456789''"
proof -
  have "\<forall>d \<in> {0 ..< 10 :: nat}. char_of (48 + d) \<in> set ''0123456789''" by code_simp
  then show "d < 10 \<Longrightarrow> char_of (48 + d) \<in> set ''0123456789''" by simp
qed

lemma show_nat_chars: "set (show_nat n) \<subseteq> set ''0123456789''"
proof (induction n rule: show_nat.induct)
  case (1 n)
  show ?case
  proof (cases "n < 10")
    case True
    then show ?thesis using digit_chars [of n] by (simp add: show_nat.simps [of n])
  next
    case False
    then show ?thesis using 1 digit_chars [of "n mod 10"] by (simp add: show_nat.simps [of n])
  qed
qed

lemma show_nat_inj: "show_nat m = show_nat n \<Longrightarrow> m = n"
  by (metis max.cobounded1 max.cobounded2 option.inject parse_digits_show_nat)

lemma show_nat_head: "\<exists>d cs. d < (10 :: nat) \<and> show_nat n = char_of (48 + d) # cs"
proof (induction n rule: show_nat.induct)
  case (1 n)
  then show ?case by (cases "n < 10") (auto simp: show_nat.simps [of n])
qed

lemma parse_uint_show_nat [std_simps]: "n \<le> mx \<Longrightarrow> parse_uint mx (show_nat n) = Some n"
proof -
  assume n: "n \<le> mx"
  obtain d cs where d: "d < (10 :: nat)" "show_nat n = char_of (48 + d) # cs" using show_nat_head by blast
  have "char_of (48 + d) \<noteq> CHR ''+''"
  proof
    assume "char_of (48 + d) = CHR ''+''"
    then have "of_char (char_of (48 + d)) = (of_char CHR ''+'' :: nat)" by simp
    with d(1) show False by simp
  qed
  with d n show ?thesis using parse_digits_show_nat [OF n] by (simp add: parse_uint_def)
qed

subsection \<open>Lists as tables\<close>

lemma filter_eq_single:
  assumes "distinct (map key xs)" "x \<in> set xs"
  shows "filter (\<lambda>y. key y = key x) xs = [x]"
  using assms
proof (induction xs)
  case (Cons y ys)
  show ?case
  proof (cases "x = y")
    case True
    with Cons.prems have "\<forall>z \<in> set ys. key z \<noteq> key x" by (metis distinct.simps(2) image_eqI list.simps(9) set_map)
    then have "filter (\<lambda>z. key z = key x) ys = []" by (simp add: filter_empty_conv)
    with True show ?thesis by simp
  next
    case False
    with Cons.prems have "x \<in> set ys" "key y \<noteq> key x" by force+
    with Cons show ?thesis by simp
  qed
qed simp

lemma distinct_key_eq:
  "distinct (map key xs) \<Longrightarrow> x \<in> set xs \<Longrightarrow> y \<in> set xs \<Longrightarrow> key x = key y \<Longrightarrow> x = y"
  by (auto simp: distinct_map inj_on_def)

lemma map_if_id: "(\<And>x. x \<in> set xs \<Longrightarrow> \<not> P x) \<Longrightarrow> map (\<lambda>x. if P x then f x else x) xs = xs"
  by (induction xs) auto

lemma sorted_take_le:
  assumes "sorted (map key xs)" "x \<in> set (take n xs)" "y \<in> set xs" "y \<notin> set (take n xs)"
  shows "key x \<le> key y"
proof -
  have "y \<in> set (drop n xs)" using assms(3,4) by (metis Un_iff append_take_drop_id set_append)
  moreover have "sorted (map key (take n xs) @ map key (drop n xs))"
    using assms(1) by (metis append_take_drop_id map_append)
  ultimately show ?thesis using assms(2) by (auto simp: sorted_append)
qed

end
