(* ===== verification/Codec.thy ===== *)
theory Codec
  imports Prelude
begin

section \<open>Interface: encodings that can be read back\<close>

text \<open>
  The contract of a printer and its parser, used for the text columns of the database schema
  and for the status filter of the listing endpoint. \<open>codec\<close> promises that what was printed parses back;
  \<open>strict_codec\<close> adds that nothing else parses. The interpretations are in \<open>Domain\<close>.
\<close>

locale codec =
  fixes enc :: "'a \<Rightarrow> 'b" and dec :: "'b \<Rightarrow> 'a option"
  assumes dec_enc: "dec (enc x) = Some x"
begin

lemma enc_eq_iff: "enc x = enc y \<longleftrightarrow> x = y"
  by (metis dec_enc option.inject)

lemma enc_inj: "inj enc"
  by (simp add: inj_def enc_eq_iff)

lemma dec_total_on_range: "b \<in> range enc \<Longrightarrow> \<exists>x. dec b = Some x \<and> enc x = b"
  by (auto simp: dec_enc)

end

locale strict_codec = codec +
  assumes enc_dec: "dec b = Some x \<Longrightarrow> enc x = b"
begin

lemma dec_Some_iff: "dec b = Some x \<longleftrightarrow> b = enc x"
  by (auto simp: dec_enc dest: enc_dec)

lemma dec_None_iff: "dec b = None \<longleftrightarrow> b \<notin> range enc"
  by (metis dec_Some_iff not_None_eq rangeE rangeI)

lemma dec_inj_on: "inj_on dec (range enc)"
  by (auto simp: inj_on_def dec_enc)

end

end
