(* ===== verification/Domain.thy ===== *)
theory Domain
  imports Codec
begin

section \<open>Core vocabulary: reliableq-core domain, failure, idempotency, redact\<close>

text \<open>
  \<open>src/crates/reliableq-core/src/domain.rs\<close>, \<open>failure.rs\<close>, \<open>idempotency.rs\<close> and \<open>redact.rs\<close>: job statuses
  and attempt outcomes with their database spelling, classification of downstream failures, the
  derivation of the idempotency key, and the fingerprint of a lease token. The functions of other
  packages they call (UUID formatting, SHA-256) are parameters.
\<close>

subsection \<open>Job statuses and attempt outcomes\<close>

datatype job_status = Pending | Running | Succeeded | Dead

fun as_db_str :: "job_status \<Rightarrow> string" where
  "as_db_str Pending = ''PENDING''"
| "as_db_str Running = ''RUNNING''"
| "as_db_str Succeeded = ''SUCCEEDED''"
| "as_db_str Dead = ''DEAD''"

definition parse_db_str :: "string \<Rightarrow> job_status option" where
  "parse_db_str s =
     (if s = ''PENDING'' then Some Pending
      else if s = ''RUNNING'' then Some Running
      else if s = ''SUCCEEDED'' then Some Succeeded
      else if s = ''DEAD'' then Some Dead
      else None)"

fun is_terminal :: "job_status \<Rightarrow> bool" where
  "is_terminal Succeeded = True"
| "is_terminal Dead = True"
| "is_terminal _ = False"

definition display_status :: "job_status \<Rightarrow> string" where
  "display_status s = as_db_str s"

datatype attempt_outcome = AttemptSucceeded | RetryScheduled | AttemptDead | LeaseLost

fun outcome_db_str :: "attempt_outcome \<Rightarrow> string" where
  "outcome_db_str AttemptSucceeded = ''SUCCEEDED''"
| "outcome_db_str RetryScheduled = ''RETRY_SCHEDULED''"
| "outcome_db_str AttemptDead = ''DEAD''"
| "outcome_db_str LeaseLost = ''LEASE_LOST''"

instantiation job_status :: enum
begin

definition "enum_class.enum = [Pending, Running, Succeeded, Dead]"
definition "enum_class.enum_all P \<longleftrightarrow> P Pending \<and> P Running \<and> P Succeeded \<and> P Dead"
definition "enum_class.enum_ex P \<longleftrightarrow> P Pending \<or> P Running \<or> P Succeeded \<or> P Dead"

instance
proof
  show "UNIV = set (enum_class.enum :: job_status list)"
    by (auto simp: enum_job_status_def intro: job_status.exhaust)
qed (auto simp: enum_job_status_def enum_all_job_status_def enum_ex_job_status_def
       split: job_status.split, (metis job_status.exhaust)+)

end

interpretation status_text: strict_codec as_db_str parse_db_str
proof
  fix s b
  show "parse_db_str (as_db_str s) = Some s"
    by (cases s) (simp_all add: parse_db_str_def)
  show "parse_db_str b = Some s \<Longrightarrow> as_db_str s = b"
    by (auto simp: parse_db_str_def split: if_splits)
qed

lemma as_db_str_eq_iff [simp]: "as_db_str x = as_db_str y \<longleftrightarrow> x = y"
  by (rule status_text.enc_eq_iff)

lemma parse_as_db_str [simp]: "parse_db_str (as_db_str s) = Some s"
  by (rule status_text.dec_enc)

lemma outcome_db_str_eq_iff [simp]: "outcome_db_str x = outcome_db_str y \<longleftrightarrow> x = y"
  by (cases x; cases y) simp_all

text \<open>
  From here on a status or outcome column is compared through its encoding only, so the literals
  stay folded.
\<close>

declare as_db_str.simps [simp del] outcome_db_str.simps [simp del]

subsection \<open>Failure classification\<close>

datatype failure_class = Transient | Permanent | Ambiguous

fun is_retryable :: "failure_class \<Rightarrow> bool" where
  "is_retryable Transient = True"
| "is_retryable Ambiguous = True"
| "is_retryable Permanent = False"

type_synonym http_status = nat

definition classify_http_status :: "http_status \<Rightarrow> failure_class" where
  "classify_http_status status =
     (if status = 408 \<or> status = 429 then Transient
      else if 500 \<le> status \<and> status \<le> 599 then Transient
      else Permanent)"

definition classify_network_error :: failure_class where
  "classify_network_error = Ambiguous"

lemma classify_http_status_retryable_iff:
  "is_retryable (classify_http_status status) \<longleftrightarrow> status \<in> {408, 429} \<union> {500..599}"
  by (simp add: classify_http_status_def)

lemma classify_http_status_never_ambiguous: "classify_http_status status \<noteq> Ambiguous"
  by (simp add: classify_http_status_def)

subsection \<open>Idempotency keys\<close>

definition charge_idempotency_key :: "(uuid \<Rightarrow> string) \<Rightarrow> uuid \<Rightarrow> string" where
  "charge_idempotency_key show_uuid job_id = ''reliableq:charge:'' @ show_uuid job_id"

lemma charge_idempotency_key_inj:
  "inj show_uuid \<Longrightarrow> charge_idempotency_key show_uuid a = charge_idempotency_key show_uuid b \<longleftrightarrow> a = b"
  by (auto simp: charge_idempotency_key_def dest: injD)

subsection \<open>Lease token fingerprints\<close>

definition hex_digit :: "nat \<Rightarrow> char" where
  "hex_digit n = char_of (if n < 10 then 48 + n else 87 + n)"

text \<open>\<open>format!("{b:02x}")\<close> for a byte.\<close>

definition hex_byte :: "8 word \<Rightarrow> string" where
  "hex_byte b = [hex_digit (unat b div 16), hex_digit (unat b mod 16)]"

definition hex_encode :: "8 word list \<Rightarrow> string" where
  "hex_encode bs = concat (map hex_byte bs)"

definition lease_token_hash :: "(uuid \<Rightarrow> 8 word list) \<Rightarrow> uuid \<Rightarrow> string" where
  "lease_token_hash sha256 token = hex_encode (take 6 (sha256 token))"

lemma hex_digit_inj: "a < 16 \<Longrightarrow> b < 16 \<Longrightarrow> hex_digit a = hex_digit b \<longleftrightarrow> a = b"
proof -
  assume ab: "a < 16" "b < 16"
  have "of_char (hex_digit n) = (if n < 10 then 48 + n else 87 + n)" if "n < 16" for n
    using that by (simp add: hex_digit_def)
  with ab have "hex_digit a = hex_digit b \<Longrightarrow>
      (if a < 10 then 48 + a else 87 + a) = (if b < 10 then 48 + b else 87 + b)"
    by metis
  with ab show ?thesis by (auto split: if_splits)
qed

lemma hex_byte_inj: "hex_byte x = hex_byte y \<longleftrightarrow> x = y"
proof
  assume "hex_byte x = hex_byte y"
  moreover have "unat x < 256" "unat y < 256"
    using unsigned_less [of x] unsigned_less [of y] by simp_all
  ultimately have "unat x div 16 = unat y div 16" "unat x mod 16 = unat y mod 16"
    by (auto simp: hex_byte_def hex_digit_inj less_mult_imp_div_less)
  then have "unat x = unat y" by (metis div_mult_mod_eq)
  then show "x = y" by (rule unsigned_word_eqI)
qed simp

lemma hex_encode_length: "length (hex_encode bs) = 2 * length bs"
  by (induction bs) (simp_all add: hex_encode_def hex_byte_def)

lemma hex_encode_inj: "hex_encode xs = hex_encode ys \<Longrightarrow> xs = ys"
proof (induction xs arbitrary: ys)
  case Nil
  then show ?case by (cases ys) (simp_all add: hex_encode_def hex_byte_def)
next
  case (Cons x xs)
  then obtain y ys' where ys: "ys = y # ys'"
    by (cases ys) (simp_all add: hex_encode_def hex_byte_def)
  with Cons.prems have "hex_byte x @ hex_encode xs = hex_byte y @ hex_encode ys'"
    by (simp add: hex_encode_def)
  moreover have "length (hex_byte x) = length (hex_byte y)" by (simp add: hex_byte_def)
  ultimately have "hex_byte x = hex_byte y" "hex_encode xs = hex_encode ys'"
    by (simp_all add: append_eq_append_conv)
  with Cons.IH ys show ?case by (simp add: hex_byte_inj)
qed

end
