(* ===== verification/Store.thy ===== *)
theory Store
  imports Domain "HOL-Library.Product_Lexorder"
begin

section \<open>The database schema\<close>

text \<open>
  \<open>src/migrations/0001_init_schema.sql\<close> and the row structs of \<open>src/crates/reliableq-db/src\<close>: the tables
  \<open>jobs\<close>, \<open>job_attempts\<close> and \<open>charges\<close> as lists of records (in insertion order), the check constraints
  of \<open>jobs\<close> as a predicate that every insert and update must satisfy, and the statements the
  repository is written with (\<open>UPDATE .. WHERE\<close>, \<open>INSERT\<close> with its unique and foreign keys). A statement
  that violates a constraint is an error and leaves the database as it was, and so does every statement
  while the database cannot be reached (\<open>db_up\<close>). JSON payloads are of an arbitrary type \<open>'v\<close>. The surrogate
  key of \<open>job_attempts\<close>, which no query reads, is left out.
\<close>

record 'v job_row =
  jid :: uuid
  kind :: string
  payload :: 'v
  status :: string
  attempts :: int
  max_attempts :: int
  next_attempt_at :: timestamp
  lease_token :: "uuid option"
  lease_expires_at :: "timestamp option"
  last_error_code :: "string option"
  last_error_message :: "string option"
  created_at :: timestamp
  updated_at :: timestamp
  started_at :: "timestamp option"
  finished_at :: "timestamp option"
  version :: int

record attempt_row =
  at_job_id :: uuid
  at_number :: int
  at_worker_id :: string
  at_lease_token :: "uuid option"
  at_started_at :: timestamp
  at_finished_at :: "timestamp option"
  at_outcome :: "string option"
  at_error_code :: "string option"
  at_error_message :: "string option"
  at_scheduled_delay_ms :: "int option"
  at_duration_ms :: "int option"

record charge_row =
  ch_id :: uuid
  ch_idempotency_key :: string
  ch_customer_id :: string
  ch_amount_cents :: int
  ch_currency :: string
  ch_created_at :: timestamp

record 'v db =
  jobs :: "'v job_row list"
  job_attempts :: "attempt_row list"
  charges :: "charge_row list"
  db_up :: bool

definition empty_db :: "'v db" where
  "empty_db = \<lparr>jobs = [], job_attempts = [], charges = [], db_up = True\<rparr>"

datatype db_error =
    Unreachable
  | UniqueViolation
  | CheckViolation
  | ForeignKeyViolation
  | NegativeLimit
  | InvalidText

datatype repo_error =
    Database db_error
  | Inconsistent message

type_synonym ('a, 'v) repo_result = "repo_error + ('a \<times> 'v db)"

subsection \<open>What a text can hold\<close>

text \<open>
  PostgreSQL has no character \<open>U+0000\<close>: a value of type \<open>text\<close> that has one is refused before the statement runs. A Rust string and a
  JSON text may have it. Which JSON values a \<open>jsonb\<close> column takes is a predicate on \<open>'v\<close> that comes with the insert. The texts a
  claim binds are the program's own (a worker id is \<open>worker-\<close> and a UUID, or a literal) and are not looked at.
\<close>

definition text_ok :: "string \<Rightarrow> bool" where
  "text_ok s \<longleftrightarrow> CHR 0x00 \<notin> set s"

subsection \<open>Check constraints of the jobs table\<close>

definition job_checks :: "'v job_row \<Rightarrow> bool" where
  "job_checks r \<longleftrightarrow>
     parse_db_str (status r) \<noteq> None
     \<and> 0 \<le> attempts r
     \<and> 1 \<le> max_attempts r
     \<and> attempts r \<le> max_attempts r
     \<and> (lease_token r = None \<longleftrightarrow> lease_expires_at r = None)
     \<and> (status r = as_db_str Pending \<longrightarrow> lease_token r = None \<and> finished_at r = None)
     \<and> (status r = as_db_str Running \<longrightarrow> lease_token r \<noteq> None \<and> lease_expires_at r \<noteq> None)
     \<and> (status r = as_db_str Succeeded \<or> status r = as_db_str Dead \<longrightarrow>
          finished_at r \<noteq> None \<and> lease_token r = None)"

definition charge_checks :: "charge_row \<Rightarrow> bool" where
  "charge_checks c \<longleftrightarrow> 0 < ch_amount_cents c"

subsection \<open>Statements\<close>

definition query :: "'v db \<Rightarrow> repo_error + 'a \<Rightarrow> repo_error + 'a" where
  "query db r = (if db_up db then r else Inl (Database Unreachable))"

lemma query_Inl [simp]: "query db (Inl e) \<noteq> Inr x"
  by (simp add: query_def)

text \<open>\<open>UPDATE jobs SET f WHERE P\<close>: the number of rows affected and the new database.\<close>

definition update_jobs ::
    "('v job_row \<Rightarrow> bool) \<Rightarrow> ('v job_row \<Rightarrow> 'v job_row) \<Rightarrow> 'v db \<Rightarrow> (nat, 'v) repo_result" where
  "update_jobs P f db =
     (if list_all (\<lambda>r. P r \<longrightarrow> job_checks (f r)) (jobs db)
      then Inr (length (filter P (jobs db)),
                db\<lparr>jobs := map (\<lambda>r. if P r then f r else r) (jobs db)\<rparr>)
      else Inl (Database CheckViolation))"

text \<open>\<open>UPDATE job_attempts SET f WHERE P\<close>.\<close>

definition update_attempts ::
    "(attempt_row \<Rightarrow> bool) \<Rightarrow> (attempt_row \<Rightarrow> attempt_row) \<Rightarrow> 'v db \<Rightarrow> 'v db" where
  "update_attempts P f db =
     db\<lparr>job_attempts := map (\<lambda>a. if P a then f a else a) (job_attempts db)\<rparr>"

definition insert_job_row :: "('v \<Rightarrow> bool) \<Rightarrow> 'v job_row \<Rightarrow> 'v db \<Rightarrow> (unit, 'v) repo_result" where
  "insert_job_row jsonb r db =
     (if \<not> (text_ok (kind r) \<and> jsonb (payload r)) then Inl (Database InvalidText)
      else if \<not> job_checks r then Inl (Database CheckViolation)
      else if jid r \<in> set (map jid (jobs db)) then Inl (Database UniqueViolation)
      else Inr ((), db\<lparr>jobs := jobs db @ [r]\<rparr>))"

definition insert_attempt_row :: "attempt_row \<Rightarrow> 'v db \<Rightarrow> (unit, 'v) repo_result" where
  "insert_attempt_row a db =
     (if (at_job_id a, at_number a) \<in> set (map (\<lambda>b. (at_job_id b, at_number b)) (job_attempts db))
        then Inl (Database UniqueViolation)
      else if at_job_id a \<notin> set (map jid (jobs db)) then Inl (Database ForeignKeyViolation)
      else Inr ((), db\<lparr>job_attempts := job_attempts db @ [a]\<rparr>))"

definition find_job :: "uuid \<Rightarrow> 'v db \<Rightarrow> 'v job_row option" where
  "find_job i db = find (\<lambda>r. jid r = i) (jobs db)"

definition attempts_of :: "uuid \<Rightarrow> 'v db \<Rightarrow> attempt_row list" where
  "attempts_of i db = filter (\<lambda>a. at_job_id a = i) (job_attempts db)"

definition issued_tokens :: "'v db \<Rightarrow> uuid set" where
  "issued_tokens db = {t. Some t \<in> at_lease_token ` set (job_attempts db)}"

text \<open>
  The argument of \<open>make_interval (secs => ..)\<close> as microseconds: PostgreSQL rounds to its resolution.
\<close>

definition interval_us :: "rat \<Rightarrow> int" where
  "interval_us secs = round (secs * 10 ^ 6)"

subsection \<open>Facts about the statements\<close>

lemma text_ok_simps [simp]:
  "text_ok []" "text_ok (c # s) \<longleftrightarrow> c \<noteq> CHR 0x00 \<and> text_ok s" "text_ok (s @ t) \<longleftrightarrow> text_ok s \<and> text_ok t"
  by (auto simp: text_ok_def)

lemma text_ok_show_nat [simp]: "text_ok (show_nat n)"
  using show_nat_chars [of n] by (auto simp: text_ok_def)

lemma interval_us_millis [std_simps]:
  "interval_us (as_secs_f64 (from_millis ms)) = 1000 * int ms"
proof -
  have "as_secs_f64 (from_millis ms) * 10 ^ 6 = of_int (1000 * int ms)"
    by (simp add: as_secs_f64_def from_millis_def)
  then show ?thesis by (simp only: interval_us_def round_of_int)
qed

lemma interval_us_secs [std_simps]:
  "interval_us (as_secs_f64 (from_secs s)) = 1000000 * int s"
proof -
  have "as_secs_f64 (from_secs s) * 10 ^ 6 = of_int (1000000 * int s)"
    by (simp add: as_secs_f64_def from_secs_def)
  then show ?thesis by (simp only: interval_us_def round_of_int)
qed

lemma interval_us_nonneg: "0 \<le> s \<Longrightarrow> 0 \<le> interval_us s"
  unfolding interval_us_def by (metis mult_nonneg_nonneg round_0 round_mono zero_le_numeral zero_le_power)

lemma find_job_Some:
  "find_job i db = Some r \<Longrightarrow> r \<in> set (jobs db) \<and> jid r = i"
  by (auto simp: find_job_def find_Some_iff)

lemma find_job_None: "find_job i db = None \<longleftrightarrow> i \<notin> jid ` set (jobs db)"
  by (auto simp: find_job_def find_None_iff)

lemma find_distinct:
  "distinct (map key xs) \<Longrightarrow> x \<in> set xs \<Longrightarrow> find (\<lambda>y. key y = key x) xs = Some x"
  by (induction xs) (auto simp: rev_image_eqI)

lemma find_job_distinct:
  "distinct (map jid (jobs db)) \<Longrightarrow> r \<in> set (jobs db) \<Longrightarrow> find_job (jid r) db = Some r"
  unfolding find_job_def by (rule find_distinct)

lemma attempts_of_update_attempts:
  assumes "\<And>a. at_job_id (f a) = at_job_id a"
  shows "attempts_of i (update_attempts P f db) = map (\<lambda>a. if P a then f a else a) (attempts_of i db)"
proof -
  have "filter (\<lambda>a. at_job_id a = i) (map (\<lambda>a. if P a then f a else a) xs)
      = map (\<lambda>a. if P a then f a else a) (filter (\<lambda>a. at_job_id a = i) xs)" for xs
    using assms by (induction xs) auto
  then show ?thesis by (simp add: attempts_of_def update_attempts_def)
qed

lemma update_attempts_frame [simp]:
  "jobs (update_attempts P f db) = jobs db"
  "charges (update_attempts P f db) = charges db"
  "db_up (update_attempts P f db) = db_up db"
  by (simp_all add: update_attempts_def)

lemma update_jobs_Inr:
  "update_jobs P f db = Inr (n, db') \<longleftrightarrow>
     list_all (\<lambda>r. P r \<longrightarrow> job_checks (f r)) (jobs db)
     \<and> n = length (filter P (jobs db))
     \<and> db' = db\<lparr>jobs := map (\<lambda>r. if P r then f r else r) (jobs db)\<rparr>"
  by (auto simp: update_jobs_def)

lemma attempts_of_jobs_update [simp]: "attempts_of i (db\<lparr>jobs := js\<rparr>) = attempts_of i db"
  by (simp add: attempts_of_def)

lemma issued_tokens_jobs_update [simp]: "issued_tokens (db\<lparr>jobs := js\<rparr>) = issued_tokens db"
  by (simp add: issued_tokens_def)

lemma issued_tokens_update_attempts:
  assumes "\<And>a. at_lease_token (f a) = at_lease_token a"
  shows "issued_tokens (update_attempts P f db) = issued_tokens db"
proof -
  have "at_lease_token ` set (map (\<lambda>a. if P a then f a else a) xs) = at_lease_token ` set xs" for xs
    using assms by (induction xs) auto
  then show ?thesis by (simp add: issued_tokens_def update_attempts_def)
qed

end
