(* ===== verification/JobsRepo.thy ===== *)
theory JobsRepo
  imports Store
begin

section \<open>The job repository: reliableq-db jobs and attempts\<close>

text \<open>
  \<open>src/crates/reliableq-db/src/jobs.rs\<close> and \<open>attempts.rs\<close>: one definition per repository function, with each
  SQL statement written out over the tables of \<open>Store\<close>. A function takes the value of \<open>now()\<close> of its
  transaction, and returns an error or its result with the new database; on an error the transaction
  is rolled back, so the caller keeps the old one. \<open>gen_random_uuid()\<close> is a parameter that gives the token
  drawn for a row. \<open>FOR UPDATE SKIP LOCKED\<close> is a predicate on the ids whose rows other transactions hold.
\<close>

record 'v claimed_job =
  cj_job :: "'v job_row"
  cj_attempt_number :: int
  cj_was_reclaimed :: bool

definition row_status :: "'v job_row \<Rightarrow> repo_error + job_status" where
  "row_status r = ok_or (Inconsistent (Quoting ''unexpected job status '' (status r) '''')) (parse_db_str (status r))"

subsection \<open>Insertion and reading\<close>

definition new_job_row :: "timestamp \<Rightarrow> uuid \<Rightarrow> string \<Rightarrow> 'v \<Rightarrow> int \<Rightarrow> 'v job_row" where
  "new_job_row now i k pl mx =
     \<lparr>jid = i, kind = k, payload = pl, status = as_db_str Pending, attempts = 0, max_attempts = mx,
      next_attempt_at = now, lease_token = None, lease_expires_at = None, last_error_code = None,
      last_error_message = None, created_at = now, updated_at = now, started_at = None,
      finished_at = None, version = 0\<rparr>"

definition insert_job ::
    "('v \<Rightarrow> bool) \<Rightarrow> timestamp \<Rightarrow> uuid \<Rightarrow> string \<Rightarrow> 'v \<Rightarrow> int \<Rightarrow> 'v db \<Rightarrow> ('v job_row, 'v) repo_result" where
  "insert_job jsonb now i k pl mx db =
     query db (let r = new_job_row now i k pl mx
               in bind_res (insert_job_row jsonb r db) (\<lambda>(_, db'). Inr (r, db')))"

definition get_job_by_id :: "uuid \<Rightarrow> 'v db \<Rightarrow> repo_error + 'v job_row option" where
  "get_job_by_id i db = query db (Inr (find_job i db))"

definition list_for_job :: "uuid \<Rightarrow> 'v db \<Rightarrow> repo_error + attempt_row list" where
  "list_for_job i db = query db (Inr (sort_key at_number (attempts_of i db)))"

definition cursor_key :: "'v job_row \<Rightarrow> timestamp \<times> uuid" where
  "cursor_key r = (created_at r, jid r)"

definition list_jobs ::
    "job_status option \<Rightarrow> int \<Rightarrow> (timestamp \<times> uuid) option \<Rightarrow> 'v db \<Rightarrow> repo_error + 'v job_row list" where
  "list_jobs st limit after db =
     query db
       (if limit < 0 then Inl (Database NegativeLimit)
        else Inr (take (nat limit)
          (sort_key cursor_key
            (filter (\<lambda>r. (case st of None \<Rightarrow> True | Some s \<Rightarrow> status r = as_db_str s)
                       \<and> (case after of None \<Rightarrow> True | Some c \<Rightarrow> cursor_key r > c)) (jobs db)))))"

subsection \<open>Claiming\<close>

definition due_pending :: "timestamp \<Rightarrow> 'v job_row \<Rightarrow> bool" where
  "due_pending now r \<longleftrightarrow> status r = as_db_str Pending \<and> next_attempt_at r \<le> now"

definition expired_running :: "timestamp \<Rightarrow> 'v job_row \<Rightarrow> bool" where
  "expired_running now r \<longleftrightarrow>
     status r = as_db_str Running
     \<and> (case lease_expires_at r of None \<Rightarrow> False | Some e \<Rightarrow> e \<le> now)"

definition claimable :: "timestamp \<Rightarrow> 'v job_row \<Rightarrow> bool" where
  "claimable now r \<longleftrightarrow> (due_pending now r \<or> expired_running now r) \<and> attempts r < max_attempts r"

definition exhausted :: "timestamp \<Rightarrow> 'v job_row \<Rightarrow> bool" where
  "exhausted now r \<longleftrightarrow> expired_running now r \<and> attempts r \<ge> max_attempts r"

text \<open>Step 1: every open attempt of a job with an expired lease is closed as lost.\<close>

definition lose_attempt :: "timestamp \<Rightarrow> attempt_row \<Rightarrow> attempt_row" where
  "lose_attempt now a = a\<lparr>at_outcome := Some (outcome_db_str LeaseLost), at_finished_at := Some now\<rparr>"

definition close_expired_attempts :: "timestamp \<Rightarrow> 'v db \<Rightarrow> 'v db" where
  "close_expired_attempts now db =
     update_attempts
       (\<lambda>a. at_outcome a = None \<and> at_job_id a \<in> jid ` set (filter (expired_running now) (jobs db)))
       (lose_attempt now) db"

text \<open>Step 2: expired jobs without budget become dead.\<close>

definition exhaust_row :: "timestamp \<Rightarrow> 'v job_row \<Rightarrow> 'v job_row" where
  "exhaust_row now r =
     r\<lparr>status := as_db_str Dead, lease_token := None, lease_expires_at := None,
       last_error_code := Some ''LEASE_EXPIRED_BUDGET_EXHAUSTED'',
       last_error_message :=
         Some ''lease expired after exhausting max_attempts with no successful finalize'',
       finished_at := Some now, updated_at := now\<rparr>"

definition bury_exhausted :: "timestamp \<Rightarrow> (uuid \<Rightarrow> bool) \<Rightarrow> 'v db \<Rightarrow> (nat, 'v) repo_result" where
  "bury_exhausted now locked db =
     update_jobs (\<lambda>r. exhausted now r \<and> \<not> locked (jid r)) (exhaust_row now) db"

text \<open>Step 3: due jobs and expired jobs with budget, oldest schedule first, up to the limit.\<close>

definition due_rows :: "timestamp \<Rightarrow> (uuid \<Rightarrow> bool) \<Rightarrow> nat \<Rightarrow> 'v db \<Rightarrow> 'v job_row list" where
  "due_rows now locked limit db =
     take limit
       (filter (\<lambda>r. \<not> locked (jid r))
         (sort_key (\<lambda>r. (next_attempt_at r, created_at r)) (filter (claimable now) (jobs db))))"

definition claim_row :: "timestamp \<Rightarrow> duration \<Rightarrow> uuid \<Rightarrow> 'v job_row \<Rightarrow> 'v job_row" where
  "claim_row now lease tok r =
     r\<lparr>status := as_db_str Running, attempts := attempts r + 1, lease_token := Some tok,
       lease_expires_at := Some (now + interval_us (as_secs_f64 lease)),
       started_at := (case started_at r of None \<Rightarrow> Some now | Some s \<Rightarrow> Some s),
       updated_at := now\<rparr>"

text \<open>The attempt row of one claimed job, and the loop that inserts them.\<close>

definition new_attempt :: "timestamp \<Rightarrow> string \<Rightarrow> 'v job_row \<Rightarrow> attempt_row" where
  "new_attempt now worker r =
     \<lparr>at_job_id = jid r, at_number = attempts r, at_worker_id = worker, at_lease_token = lease_token r,
      at_started_at = now, at_finished_at = None, at_outcome = None, at_error_code = None,
      at_error_message = None, at_scheduled_delay_ms = None, at_duration_ms = None\<rparr>"

fun insert_attempts ::
    "timestamp \<Rightarrow> string \<Rightarrow> ('v job_row \<times> bool) list \<Rightarrow> 'v db \<Rightarrow> ('v claimed_job list, 'v) repo_result" where
  "insert_attempts now worker [] db = Inr ([], db)"
| "insert_attempts now worker ((r, reclaimed) # rest) db =
     bind_res (insert_attempt_row (new_attempt now worker r) db) (\<lambda>(_, db').
     bind_res (insert_attempts now worker rest db') (\<lambda>(cs, db'').
     Inr (\<lparr>cj_job = r, cj_attempt_number = attempts r, cj_was_reclaimed = reclaimed\<rparr> # cs, db'')))"

definition claim_pending_jobs ::
    "timestamp \<Rightarrow> (uuid \<Rightarrow> bool) \<Rightarrow> (uuid \<Rightarrow> uuid) \<Rightarrow> string \<Rightarrow> int \<Rightarrow> duration
     \<Rightarrow> 'v db \<Rightarrow> ('v claimed_job list, 'v) repo_result" where
  "claim_pending_jobs now locked tok worker limit lease db =
     query db
       (let db1 = close_expired_attempts now db in
        bind_res (bury_exhausted now locked db1) (\<lambda>(_, db2).
        if limit < 0 then Inl (Database NegativeLimit)
        else let ids = jid ` set (due_rows now locked (nat limit) db2);
                 due = (\<lambda>r. jid r \<in> ids);
                 claim = (\<lambda>r. claim_row now lease (tok (jid r)) r)
             in bind_res (update_jobs due claim db2) (\<lambda>(_, db3).
                insert_attempts now worker
                  (map (\<lambda>r. (claim r, status r = as_db_str Running)) (filter due (jobs db2))) db3)))"

subsection \<open>Finalising\<close>

text \<open>The fencing predicate shared by every statement that touches a lease.\<close>

definition holds_lease :: "uuid \<Rightarrow> uuid \<Rightarrow> 'v job_row \<Rightarrow> bool" where
  "holds_lease i t r \<longleftrightarrow> jid r = i \<and> status r = as_db_str Running \<and> lease_token r = Some t"

definition attempt_of_lease :: "uuid \<Rightarrow> uuid \<Rightarrow> attempt_row \<Rightarrow> bool" where
  "attempt_of_lease i t a \<longleftrightarrow> at_job_id a = i \<and> at_lease_token a = Some t"

definition succeed_row :: "timestamp \<Rightarrow> 'v job_row \<Rightarrow> 'v job_row" where
  "succeed_row now r =
     r\<lparr>status := as_db_str Succeeded, lease_token := None, lease_expires_at := None,
       last_error_code := None, last_error_message := None,
       finished_at := Some now, updated_at := now\<rparr>"

definition succeed_attempt :: "timestamp \<Rightarrow> int \<Rightarrow> attempt_row \<Rightarrow> attempt_row" where
  "succeed_attempt now ms a =
     a\<lparr>at_outcome := Some (outcome_db_str AttemptSucceeded), at_finished_at := Some now,
       at_duration_ms := Some ms\<rparr>"

definition finalize_success ::
    "timestamp \<Rightarrow> uuid \<Rightarrow> uuid \<Rightarrow> int \<Rightarrow> 'v db \<Rightarrow> (bool, 'v) repo_result" where
  "finalize_success now i t ms db =
     query db
       (bind_res (update_jobs (holds_lease i t) (succeed_row now) db) (\<lambda>(n, db1).
        if n = 0 then Inr (False, db)
        else Inr (True, update_attempts (attempt_of_lease i t) (succeed_attempt now ms) db1)))"

definition retry_row :: "timestamp \<Rightarrow> rat \<Rightarrow> string \<Rightarrow> string \<Rightarrow> 'v job_row \<Rightarrow> 'v job_row" where
  "retry_row now delay_seconds code msg r =
     r\<lparr>status := as_db_str Pending, lease_token := None, lease_expires_at := None,
       next_attempt_at := now + interval_us delay_seconds,
       last_error_code := Some code, last_error_message := Some msg, updated_at := now\<rparr>"

definition retry_attempt ::
    "timestamp \<Rightarrow> string \<Rightarrow> string \<Rightarrow> int \<Rightarrow> int \<Rightarrow> attempt_row \<Rightarrow> attempt_row" where
  "retry_attempt now code msg delay_ms ms a =
     a\<lparr>at_outcome := Some (outcome_db_str RetryScheduled), at_finished_at := Some now,
       at_error_code := Some code, at_error_message := Some msg,
       at_scheduled_delay_ms := Some delay_ms, at_duration_ms := Some ms\<rparr>"

text \<open>\<open>(delay_seconds * 1000.0).round() as i64\<close>: half away from zero, saturating at the type's bounds.\<close>

definition round_f64_to_i64 :: "rat \<Rightarrow> int" where
  "round_f64_to_i64 x =
     (let y = (if x < 0 then - round (- x) else round x)
      in max (- i64_max - 1) (min i64_max y))"

definition finalize_retry_scheduled ::
    "timestamp \<Rightarrow> uuid \<Rightarrow> uuid \<Rightarrow> rat \<Rightarrow> string \<Rightarrow> string \<Rightarrow> int \<Rightarrow> 'v db \<Rightarrow> (bool, 'v) repo_result" where
  "finalize_retry_scheduled now i t delay_seconds code msg ms db =
     query db
       (let scheduled_delay_ms = round_f64_to_i64 (delay_seconds * 1000) in
        if \<not> (text_ok code \<and> text_ok msg) then Inl (Database InvalidText)
        else bind_res (update_jobs (holds_lease i t) (retry_row now delay_seconds code msg) db) (\<lambda>(n, db1).
        if n = 0 then Inr (False, db)
        else Inr (True, update_attempts (attempt_of_lease i t)
                          (retry_attempt now code msg scheduled_delay_ms ms) db1)))"

definition dead_row :: "timestamp \<Rightarrow> string \<Rightarrow> string \<Rightarrow> 'v job_row \<Rightarrow> 'v job_row" where
  "dead_row now code msg r =
     r\<lparr>status := as_db_str Dead, lease_token := None, lease_expires_at := None,
       last_error_code := Some code, last_error_message := Some msg,
       finished_at := Some now, updated_at := now\<rparr>"

definition dead_attempt :: "timestamp \<Rightarrow> string \<Rightarrow> string \<Rightarrow> int \<Rightarrow> attempt_row \<Rightarrow> attempt_row" where
  "dead_attempt now code msg ms a =
     a\<lparr>at_outcome := Some (outcome_db_str AttemptDead), at_finished_at := Some now,
       at_error_code := Some code, at_error_message := Some msg, at_duration_ms := Some ms\<rparr>"

definition finalize_dead ::
    "timestamp \<Rightarrow> uuid \<Rightarrow> uuid \<Rightarrow> string \<Rightarrow> string \<Rightarrow> int \<Rightarrow> 'v db \<Rightarrow> (bool, 'v) repo_result" where
  "finalize_dead now i t code msg ms db =
     query db
       (if \<not> (text_ok code \<and> text_ok msg) then Inl (Database InvalidText)
        else bind_res (update_jobs (holds_lease i t) (dead_row now code msg) db) (\<lambda>(n, db1).
        if n = 0 then Inr (False, db)
        else Inr (True, update_attempts (attempt_of_lease i t) (dead_attempt now code msg ms) db1)))"

subsection \<open>Operator replay and lease renewal\<close>

definition revive_row :: "timestamp \<Rightarrow> int \<Rightarrow> 'v job_row \<Rightarrow> 'v job_row" where
  "revive_row now mx r =
     r\<lparr>status := as_db_str Pending, next_attempt_at := now, lease_token := None,
       lease_expires_at := None, last_error_code := None, last_error_message := None,
       finished_at := None, max_attempts := mx, updated_at := now\<rparr>"

definition retry_dead_job ::
    "timestamp \<Rightarrow> uuid \<Rightarrow> int \<Rightarrow> 'v db \<Rightarrow> ('v job_row option, 'v) repo_result" where
  "retry_dead_job now i mx db =
     query db
       (bind_res (update_jobs (\<lambda>r. jid r = i \<and> status r = as_db_str Dead) (revive_row now mx) db) (\<lambda>(n, db1).
        Inr (if n = 0 then None else find_job i db1, db1)))"

definition renew_row :: "timestamp \<Rightarrow> duration \<Rightarrow> 'v job_row \<Rightarrow> 'v job_row" where
  "renew_row now lease r =
     r\<lparr>lease_expires_at := Some (now + interval_us (as_secs_f64 lease)), updated_at := now\<rparr>"

definition renew_lease ::
    "timestamp \<Rightarrow> uuid \<Rightarrow> uuid \<Rightarrow> duration \<Rightarrow> 'v db \<Rightarrow> (bool, 'v) repo_result" where
  "renew_lease now i t lease db =
     query db
       (bind_res (update_jobs (holds_lease i t) (renew_row now lease) db) (\<lambda>(n, db1).
        Inr (n > 0, db1)))"

end
