(* ===== verification/JobsInv.thy ===== *)
theory JobsInv
  imports JobsRepo
begin

section \<open>The invariant of the job tables\<close>

text \<open>
  What every repository function keeps of \<open>jobs\<close> and \<open>job_attempts\<close>. \<open>job_ok\<close> relates one job to its audit
  trail: the attempts are numbered \<open>1 .. attempts\<close> in order, every attempt but the last is closed
  without success, the last one carries the lease of a running job, and it records a success exactly
  when the job has succeeded. \<open>db_inv\<close> adds that ids and lease tokens are unique.
\<close>

definition closed_unsuccessful :: "attempt_row \<Rightarrow> bool" where
  "closed_unsuccessful a \<longleftrightarrow>
     at_outcome a \<noteq> None \<and> at_outcome a \<noteq> Some (outcome_db_str AttemptSucceeded)"

definition open_or_lost :: "attempt_row \<Rightarrow> bool" where
  "open_or_lost a \<longleftrightarrow>
     at_outcome a = None \<or> at_outcome a = Some (outcome_db_str LeaseLost)"

definition trail_ok :: "'v job_row \<Rightarrow> attempt_row list \<Rightarrow> bool" where
  "trail_ok r as \<longleftrightarrow>
     map at_number as = [1..attempts r]
     \<and> (\<forall>a \<in> set (butlast as). closed_unsuccessful a)
     \<and> (status r = as_db_str Running \<longrightarrow>
          as \<noteq> [] \<and> at_lease_token (last as) = lease_token r \<and> open_or_lost (last as))
     \<and> (status r = as_db_str Succeeded \<longrightarrow>
          as \<noteq> [] \<and> at_outcome (last as) = Some (outcome_db_str AttemptSucceeded))
     \<and> (status r = as_db_str Pending \<or> status r = as_db_str Dead \<longrightarrow>
          as = [] \<or> closed_unsuccessful (last as))"

definition job_ok :: "'v job_row \<Rightarrow> attempt_row list \<Rightarrow> bool" where
  "job_ok r as \<longleftrightarrow>
     job_checks r \<and> i32 (max_attempts r) \<and> version r = 0
     \<and> (status r = as_db_str Running \<longrightarrow> finished_at r = None)
     \<and> trail_ok r as"

definition db_inv :: "'v db \<Rightarrow> bool" where
  "db_inv db \<longleftrightarrow>
     distinct (map jid (jobs db))
     \<and> (\<forall>r \<in> set (jobs db). job_ok r (attempts_of (jid r) db))
     \<and> at_job_id ` set (job_attempts db) \<subseteq> jid ` set (jobs db)
     \<and> None \<notin> at_lease_token ` set (job_attempts db)
     \<and> distinct (map at_lease_token (job_attempts db))"

subsection \<open>Reading the invariant\<close>

lemma db_inv_job: "db_inv db \<Longrightarrow> r \<in> set (jobs db) \<Longrightarrow> job_ok r (attempts_of (jid r) db)"
  by (simp add: db_inv_def)

lemma db_inv_distinct: "db_inv db \<Longrightarrow> distinct (map jid (jobs db))"
  by (simp add: db_inv_def)

lemma db_inv_same_id:
  "db_inv db \<Longrightarrow> r \<in> set (jobs db) \<Longrightarrow> r' \<in> set (jobs db) \<Longrightarrow> jid r = jid r' \<Longrightarrow> r = r'"
  using distinct_key_eq [OF db_inv_distinct] by blast

lemma job_ok_status_cases:
  assumes "job_ok r as"
  obtains (pending) "status r = as_db_str Pending" | (running) "status r = as_db_str Running"
    | (succeeded) "status r = as_db_str Succeeded" | (dead) "status r = as_db_str Dead"
proof -
  from assms obtain s where "parse_db_str (status r) = Some s"
    by (auto simp: job_ok_def job_checks_def)
  then have "status r = as_db_str s" by (simp add: status_text.dec_Some_iff)
  then show thesis using that by (cases s) auto
qed

lemma trail_length: "trail_ok r as \<Longrightarrow> 0 \<le> attempts r \<Longrightarrow> int (length as) = attempts r"
proof -
  assume t: "trail_ok r as" "0 \<le> attempts r"
  then have "length (map at_number as) = length [1..attempts r]" by (simp add: trail_ok_def)
  with t(2) show ?thesis by simp
qed

lemma job_ok_length: "job_ok r as \<Longrightarrow> int (length as) = attempts r"
  by (rule trail_length) (auto simp: job_ok_def job_checks_def)

lemma job_ok_success_last:
  assumes "job_ok r as" "a \<in> set as" "at_outcome a = Some (outcome_db_str AttemptSucceeded)"
  shows "a = last as \<and> status r = as_db_str Succeeded"
proof -
  have t: "trail_ok r as" and "parse_db_str (status r) \<noteq> None" using assms(1) by (simp_all add: job_ok_def job_checks_def)
  have "a \<notin> set (butlast as)" using t assms(3) by (auto simp: trail_ok_def closed_unsuccessful_def)
  then have a: "a = last as" using assms(2) by (cases as rule: rev_cases) auto
  have "\<not> open_or_lost a" "\<not> closed_unsuccessful a" using assms(3) by (simp_all add: open_or_lost_def closed_unsuccessful_def)
  with t a assms(2) have "status r \<noteq> as_db_str Running" "status r \<noteq> as_db_str Pending" "status r \<noteq> as_db_str Dead"
    by (auto simp: trail_ok_def)
  with job_ok_status_cases [OF assms(1)] a show ?thesis by auto
qed

lemma empty_db_inv: "db_inv empty_db"
  by (simp add: db_inv_def empty_db_def)

lemma running_last_attempt:
  assumes "db_inv db" "r \<in> set (jobs db)" "holds_lease i t r"
  shows "attempts_of i db \<noteq> []" "at_lease_token (last (attempts_of i db)) = Some t"
  using db_inv_job [OF assms(1,2)] assms(3)
  by (auto simp: holds_lease_def job_ok_def trail_ok_def)

subsection \<open>Updating the last attempt\<close>

lemma distinct_attempt_tokens:
  "db_inv db \<Longrightarrow> distinct (map at_lease_token (attempts_of i db))"
  unfolding db_inv_def attempts_of_def by (simp add: distinct_map_filter)

lemma map_at_last:
  assumes "distinct (map key xs)" "xs \<noteq> []" "key (last xs) = k"
  shows "map (\<lambda>x. if key x = k then f x else x) xs = butlast xs @ [f (last xs)]"
proof -
  obtain ys y where xs: "xs = ys @ [y]" using assms(2) by (metis rev_exhaust)
  with assms have "\<forall>z \<in> set ys. key z \<noteq> k" by (auto simp: image_iff)
  then have "map (\<lambda>x. if key x = k then f x else x) ys = ys" by (intro map_if_id) auto
  with xs assms(3) show ?thesis by simp
qed

lemma finalized_trail:
  assumes "db_inv db" "r \<in> set (jobs db)" "holds_lease i t r"
  shows "map (\<lambda>a. if attempt_of_lease i t a then f a else a) (attempts_of i db)
       = butlast (attempts_of i db) @ [f (last (attempts_of i db))]"
proof -
  have "map (\<lambda>a. if attempt_of_lease i t a then f a else a) (attempts_of i db)
      = map (\<lambda>a. if at_lease_token a = Some t then f a else a) (attempts_of i db)"
    by (auto simp: attempts_of_def attempt_of_lease_def)
  also have "\<dots> = butlast (attempts_of i db) @ [f (last (attempts_of i db))]"
    by (rule map_at_last [OF distinct_attempt_tokens running_last_attempt]) (use assms in auto)
  finally show ?thesis .
qed

lemma other_trail_unchanged:
  assumes "j \<noteq> i"
  shows "map (\<lambda>a. if attempt_of_lease i t a then f a else a) (attempts_of j db) = attempts_of j db"
  using assms by (intro map_if_id) (auto simp: attempts_of_def attempt_of_lease_def)

subsection \<open>The three finalisers are one\<close>

text \<open>
  The finalisers differ in what they write only; the guard, the rollback and the update of the attempt
  are the same. Each is an instance of \<open>finalize_with\<close>, and the facts are proved for that.
\<close>

definition finalize_with ::
    "('v job_row \<Rightarrow> 'v job_row) \<Rightarrow> (attempt_row \<Rightarrow> attempt_row) \<Rightarrow> uuid \<Rightarrow> uuid \<Rightarrow> 'v db
     \<Rightarrow> (bool, 'v) repo_result" where
  "finalize_with g f i t db =
     query db
       (bind_res (update_jobs (holds_lease i t) g db) (\<lambda>(n, db1).
        if n = 0 then Inr (False, db)
        else Inr (True, update_attempts (attempt_of_lease i t) f db1)))"

lemma finalize_success_eq:
  "finalize_success now i t ms db = finalize_with (succeed_row now) (succeed_attempt now ms) i t db"
  by (simp add: finalize_success_def finalize_with_def)

lemma finalize_retry_scheduled_eq:
  "finalize_retry_scheduled now i t d code msg ms db =
     (if text_ok code \<and> text_ok msg
      then finalize_with (retry_row now d code msg) (retry_attempt now code msg (round_f64_to_i64 (d * 1000)) ms) i t db
      else query db (Inl (Database InvalidText)))"
  by (simp add: finalize_retry_scheduled_def finalize_with_def)

lemma finalize_dead_eq:
  "finalize_dead now i t code msg ms db =
     (if text_ok code \<and> text_ok msg
      then finalize_with (dead_row now code msg) (dead_attempt now code msg ms) i t db
      else query db (Inl (Database InvalidText)))"
  by (simp add: finalize_dead_def finalize_with_def)

lemmas finalize_eqs = finalize_success_eq finalize_retry_scheduled_eq finalize_dead_eq

text \<open>What a finaliser may write to the job and to its last attempt.\<close>

definition closing :: "('v job_row \<Rightarrow> 'v job_row) \<Rightarrow> (attempt_row \<Rightarrow> attempt_row) \<Rightarrow> bool" where
  "closing g f \<longleftrightarrow>
     (\<forall>r. jid (g r) = jid r \<and> status (g r) \<noteq> as_db_str Running \<and> attempts (g r) = attempts r
          \<and> payload (g r) = payload r \<and> created_at (g r) = created_at r)
     \<and> (\<forall>a. at_job_id (f a) = at_job_id a \<and> at_number (f a) = at_number a
          \<and> at_lease_token (f a) = at_lease_token a \<and> at_outcome (f a) \<noteq> None)
     \<and> (\<forall>r as. job_ok r as \<longrightarrow> status r = as_db_str Running \<longrightarrow>
          job_ok (g r) (butlast as @ [f (last as)]))"

lemma closing_simps:
  assumes "closing g f"
  shows "jid (g r) = jid r" "status (g r) \<noteq> as_db_str Running" "attempts (g r) = attempts r"
    "payload (g r) = payload r" "created_at (g r) = created_at r"
    "at_job_id (f a) = at_job_id a" "at_number (f a) = at_number a"
    "at_lease_token (f a) = at_lease_token a" "at_outcome (f a) \<noteq> None"
  using assms by (simp_all add: closing_def)

lemma closing_job_ok:
  "closing g f \<Longrightarrow> job_ok r as \<Longrightarrow> status r = as_db_str Running \<Longrightarrow> job_ok (g r) (butlast as @ [f (last as)])"
  by (simp add: closing_def)

lemma map_at_number_last: "as \<noteq> [] \<Longrightarrow> map h (butlast as) @ [h (last as)] = map h as"
  by (induction as) auto

lemma closing_success: "closing (succeed_row now) (succeed_attempt now ms)"
  unfolding closing_def
  by (auto simp: succeed_row_def succeed_attempt_def job_ok_def job_checks_def trail_ok_def
      map_at_number_last)

lemma closing_retry: "closing (retry_row now d code msg) (retry_attempt now code msg dm ms)"
  unfolding closing_def
  by (auto simp: retry_row_def retry_attempt_def job_ok_def job_checks_def trail_ok_def
      closed_unsuccessful_def map_at_number_last)

lemma closing_dead: "closing (dead_row now code msg) (dead_attempt now code msg ms)"
  unfolding closing_def
  by (auto simp: dead_row_def dead_attempt_def job_ok_def job_checks_def trail_ok_def
      closed_unsuccessful_def map_at_number_last)

subsection \<open>What a finaliser does\<close>

text \<open>\<open>owns i t db\<close>: the job \<open>i\<close> is running under the lease token \<open>t\<close>.\<close>

definition owns :: "uuid \<Rightarrow> uuid \<Rightarrow> 'v db \<Rightarrow> bool" where
  "owns i t db \<longleftrightarrow> (\<exists>r \<in> set (jobs db). holds_lease i t r)"

lemma owns_filter: "owns i t db \<longleftrightarrow> filter (holds_lease i t) (jobs db) \<noteq> []"
  by (auto simp: owns_def filter_empty_conv)

lemma owns_same_token:
  assumes "db_inv db" "owns i t db" "owns i u db"
  shows "t = u"
proof -
  obtain r s where rs: "r \<in> set (jobs db)" "holds_lease i t r" "s \<in> set (jobs db)" "holds_lease i u s"
    using assms(2,3) by (auto simp: owns_def)
  with db_inv_same_id [OF assms(1) rs(1,3)] show ?thesis by (simp add: holds_lease_def)
qed

lemma finalize_with_owned:
  assumes "db_inv db" "closing g f" "owns i t db" "db_up db"
  shows "finalize_with g f i t db =
    Inr (True, update_attempts (attempt_of_lease i t) f
                 (db\<lparr>jobs := map (\<lambda>r. if holds_lease i t r then g r else r) (jobs db)\<rparr>))"
proof -
  have "list_all (\<lambda>r. holds_lease i t r \<longrightarrow> job_checks (g r)) (jobs db)"
    using closing_job_ok [OF assms(2) db_inv_job [OF assms(1)]]
    by (auto simp: list_all_iff job_ok_def holds_lease_def)
  moreover have "filter (holds_lease i t) (jobs db) \<noteq> []" using assms(3) by (simp add: owns_filter)
  ultimately show ?thesis using assms(4)
    by (simp add: finalize_with_def query_def update_jobs_def)
qed

lemma finalize_with_stale:
  assumes "\<not> owns i t db" "db_up db"
  shows "finalize_with g f i t db = Inr (False, db)"
proof -
  have "filter (holds_lease i t) (jobs db) = []" using assms(1) by (simp add: owns_filter)
  moreover have "list_all (\<lambda>r. holds_lease i t r \<longrightarrow> job_checks (g r)) (jobs db)"
    using assms(1) by (auto simp: owns_def list_all_iff)
  ultimately show ?thesis using assms(2) by (simp add: finalize_with_def query_def update_jobs_def)
qed

lemma finalize_with_down: "\<not> db_up db \<Longrightarrow> finalize_with g f i t db = Inl (Database Unreachable)"
  by (simp add: finalize_with_def query_def)

lemmas finalize_with_cases = finalize_with_owned finalize_with_stale finalize_with_down

lemma distinct_map_if:
  assumes "\<And>r. key (g r) = key r"
  shows "map key (map (\<lambda>r. if P r then g r else r) xs) = map key xs"
  using assms by (induction xs) auto

lemma db_inv_same_keysI:
  assumes "db_inv db"
    and "map jid (jobs db') = map jid (jobs db)"
    and "map at_lease_token (job_attempts db') = map at_lease_token (job_attempts db)"
    and "map at_job_id (job_attempts db') = map at_job_id (job_attempts db)"
    and "\<And>r. r \<in> set (jobs db') \<Longrightarrow> job_ok r (attempts_of (jid r) db')"
  shows "db_inv db'"
proof -
  have "jid ` set (jobs db') = jid ` set (jobs db)" using arg_cong [OF assms(2), of set] by simp
  moreover have "at_lease_token ` set (job_attempts db') = at_lease_token ` set (job_attempts db)"
    using arg_cong [OF assms(3), of set] by simp
  moreover have "at_job_id ` set (job_attempts db') = at_job_id ` set (job_attempts db)"
    using arg_cong [OF assms(4), of set] by simp
  ultimately show ?thesis using assms(1,5) unfolding db_inv_def assms(2,3) by auto
qed

lemma finalize_with_preserves:
  assumes inv: "db_inv db" and cl: "closing g f" and ok: "finalize_with g f i t db = Inr (b, db')"
  shows "db_inv db'"
proof (cases "owns i t db")
  case True
  have up: "db_up db" using ok by (cases "db_up db") (simp_all add: finalize_with_down)
  let ?js = "map (\<lambda>r. if holds_lease i t r then g r else r) (jobs db)"
  have db': "db' = update_attempts (attempt_of_lease i t) f (db\<lparr>jobs := ?js\<rparr>)"
    using finalize_with_owned [OF inv cl True up] ok by simp
  note cs = closing_simps [OF cl]
  show ?thesis
  proof (rule db_inv_same_keysI [OF inv])
    show "map jid (jobs db') = map jid (jobs db)"
      unfolding db' by (simp add: cs)
    show "map at_lease_token (job_attempts db') = map at_lease_token (job_attempts db)"
      "map at_job_id (job_attempts db') = map at_job_id (job_attempts db)"
      unfolding db' by (simp_all add: update_attempts_def cs)
    fix r' assume "r' \<in> set (jobs db')"
    then obtain r where r: "r \<in> set (jobs db)" "r' = (if holds_lease i t r then g r else r)"
      unfolding db' by auto
    have trail: "attempts_of (jid r) db' =
        map (\<lambda>a. if attempt_of_lease i t a then f a else a) (attempts_of (jid r) db)"
      unfolding db' by (simp add: attempts_of_update_attempts cs)
    show "job_ok r' (attempts_of (jid r') db')"
    proof (cases "holds_lease i t r")
      case True
      then have "jid r = i" "status r = as_db_str Running" by (auto simp: holds_lease_def)
      with r True trail finalized_trail [OF inv r(1) True] closing_job_ok [OF cl db_inv_job [OF inv r(1)]]
      show ?thesis by (simp add: cs)
    next
      case False
      have "attempts_of (jid r) db' = attempts_of (jid r) db"
      proof (cases "jid r = i")
        case True
        obtain s where s: "s \<in> set (jobs db)" "holds_lease i t s" using \<open>owns i t db\<close> by (auto simp: owns_def)
        then have "s = r" using db_inv_same_id [OF inv s(1) r(1)] True by (simp add: holds_lease_def)
        with s False show ?thesis by simp
      qed (simp add: trail other_trail_unchanged)
      with r False db_inv_job [OF inv r(1)] show ?thesis by simp
    qed
  qed
next
  case False
  show ?thesis
    using ok inv finalize_with_stale [OF False, of g f]
    by (cases "db_up db") (simp_all add: finalize_with_down)
qed

end
