(* ===== verification/JobsClaim.thy ===== *)
theory JobsClaim
  imports JobsInv
begin

section \<open>Claiming, renewing, replaying and submitting keep the invariant\<close>

text \<open>
  The remaining writers of \<open>jobs.rs\<close>. A claim is taken in two halves: the clean-up of expired leases
  (steps 1 and 2 of the transaction), which keeps \<open>db_inv\<close> by itself and leaves every claimable job with
  a closed trail, and the claim proper (step 3 and the inserted attempts). \<open>claim_result\<close> gives the
  database a claim returns, and that it returns one.
\<close>

subsection \<open>Steps 1 and 2\<close>

definition cleaned_row :: "timestamp \<Rightarrow> (uuid \<Rightarrow> bool) \<Rightarrow> 'v job_row \<Rightarrow> 'v job_row" where
  "cleaned_row now locked r =
     (if exhausted now r \<and> \<not> locked (jid r) then exhaust_row now r else r)"

definition cleaned_trail :: "timestamp \<Rightarrow> 'v job_row \<Rightarrow> attempt_row list \<Rightarrow> attempt_row list" where
  "cleaned_trail now r as =
     (if expired_running now r
      then map (\<lambda>a. if at_outcome a = None then lose_attempt now a else a) as else as)"

definition cleaned_db :: "timestamp \<Rightarrow> (uuid \<Rightarrow> bool) \<Rightarrow> 'v db \<Rightarrow> 'v db" where
  "cleaned_db now locked db =
     (close_expired_attempts now db)\<lparr>jobs := map (cleaned_row now locked) (jobs db)\<rparr>"

lemma lose_attempt_simps [simp]:
  "at_job_id (lose_attempt now a) = at_job_id a" "at_number (lose_attempt now a) = at_number a"
  "at_lease_token (lose_attempt now a) = at_lease_token a"
  "at_outcome (lose_attempt now a) = Some (outcome_db_str LeaseLost)"
  by (simp_all add: lose_attempt_def)

lemma exhaust_row_jid [simp]: "jid (exhaust_row now r) = jid r"
  by (simp add: exhaust_row_def)

lemma cleaned_row_jid [simp]: "jid (cleaned_row now locked r) = jid r"
  by (simp add: cleaned_row_def)

lemma attempts_of_cleaned:
  assumes "db_inv db" "r \<in> set (jobs db)"
  shows "attempts_of (jid r) (cleaned_db now locked db) = cleaned_trail now r (attempts_of (jid r) db)"
proof -
  have mem: "jid r \<in> jid ` set (filter (expired_running now) (jobs db)) \<longleftrightarrow> expired_running now r"
    using assms(2) db_inv_same_id [OF assms(1)] by force
  have "attempts_of (jid r) (cleaned_db now locked db) =
      map (\<lambda>a. if at_outcome a = None \<and> at_job_id a \<in> jid ` set (filter (expired_running now) (jobs db))
               then lose_attempt now a else a) (attempts_of (jid r) db)"
    unfolding cleaned_db_def close_expired_attempts_def
    by (simp add: attempts_of_update_attempts)
  also have "\<dots> = map (\<lambda>a. if at_outcome a = None \<and> expired_running now r
               then lose_attempt now a else a) (attempts_of (jid r) db)"
    using mem by (intro map_cong refl) (simp add: attempts_of_def)
  also have "\<dots> = cleaned_trail now r (attempts_of (jid r) db)"
    by (simp add: cleaned_trail_def)
  finally show ?thesis .
qed

lemma cleaned_trail_map:
  "map at_number (cleaned_trail now r as) = map at_number as"
  by (simp add: cleaned_trail_def)

lemma expired_trail_closed:
  assumes "job_ok r as" "expired_running now r"
  shows "\<forall>a \<in> set (cleaned_trail now r as). closed_unsuccessful a"
proof
  fix a assume "a \<in> set (cleaned_trail now r as)"
  then obtain b where b: "b \<in> set as" "a = (if at_outcome b = None then lose_attempt now b else b)"
    using assms(2) by (auto simp: cleaned_trail_def)
  from assms have t: "as \<noteq> []" "open_or_lost (last as)" "\<forall>a \<in> set (butlast as). closed_unsuccessful a"
    by (auto simp: job_ok_def trail_ok_def expired_running_def)
  then have "b = last as \<or> b \<in> set (butlast as)"
    using b(1) by (metis append_butlast_last_id in_set_conv_decomp rotate1.simps(2) set_ConsD set_rotate1)
  with b(2) t show "closed_unsuccessful a"
    by (auto simp: closed_unsuccessful_def open_or_lost_def)
qed

lemma last_cleaned_trail:
  assumes "as \<noteq> []" "expired_running now r"
  shows "last (cleaned_trail now r as) =
    (if at_outcome (last as) = None then lose_attempt now (last as) else last as)"
  using assms by (simp add: cleaned_trail_def last_map)

lemma cleaned_job_ok:
  assumes ok: "job_ok r as"
  shows "job_ok (cleaned_row now locked r) (cleaned_trail now r as)"
proof (cases "expired_running now r")
  case False
  then show ?thesis using ok by (simp add: cleaned_row_def cleaned_trail_def exhausted_def)
next
  case True
  note closed = expired_trail_closed [OF ok True]
  have run: "status r = as_db_str Running" using True by (simp add: expired_running_def)
  have ne: "as \<noteq> []" and tok: "at_lease_token (last as) = lease_token r" "open_or_lost (last as)"
    using ok run by (auto simp: job_ok_def trail_ok_def)
  have cne: "cleaned_trail now r as \<noteq> []" using ne by (simp add: cleaned_trail_def)
  have "open_or_lost (last (cleaned_trail now r as))"
    "at_lease_token (last (cleaned_trail now r as)) = lease_token r"
    using tok by (auto simp: last_cleaned_trail [OF ne True] open_or_lost_def)
  moreover have "closed_unsuccessful (last (cleaned_trail now r as))" using closed cne by simp
  moreover have "\<forall>a \<in> set (butlast (cleaned_trail now r as)). closed_unsuccessful a"
    using closed by (meson in_set_butlastD)
  ultimately show ?thesis using ok run cne
    by (auto simp: job_ok_def trail_ok_def job_checks_def cleaned_row_def exhaust_row_def cleaned_trail_map)
qed

lemma cleaned_db_keys:
  "map jid (jobs (cleaned_db now locked db)) = map jid (jobs db)"
  "map at_lease_token (job_attempts (cleaned_db now locked db)) = map at_lease_token (job_attempts db)"
  "map at_job_id (job_attempts (cleaned_db now locked db)) = map at_job_id (job_attempts db)"
  by (simp_all add: cleaned_db_def close_expired_attempts_def update_attempts_def)

lemma cleaned_db_frame [simp]:
  "jobs (cleaned_db now locked db) = map (cleaned_row now locked) (jobs db)"
  "charges (cleaned_db now locked db) = charges db" "db_up (cleaned_db now locked db) = db_up db"
  by (simp_all add: cleaned_db_def close_expired_attempts_def)

lemma issued_tokens_cleaned [simp]: "issued_tokens (cleaned_db now locked db) = issued_tokens db"
  unfolding cleaned_db_def close_expired_attempts_def
  by (simp add: issued_tokens_update_attempts)

lemma cleaned_db_inv:
  assumes "db_inv db"
  shows "db_inv (cleaned_db now locked db)"
proof (rule db_inv_same_keysI [OF assms cleaned_db_keys])
  fix r assume "r \<in> set (jobs (cleaned_db now locked db))"
  then obtain s where s: "s \<in> set (jobs db)" "r = cleaned_row now locked s" by auto
  with attempts_of_cleaned [OF assms s(1)] cleaned_job_ok [OF db_inv_job [OF assms s(1)]]
  show "job_ok r (attempts_of (jid r) (cleaned_db now locked db))" by simp
qed

lemma bury_exhausted_result:
  assumes "db_inv db"
  shows "\<exists>n. bury_exhausted now locked (close_expired_attempts now db) = Inr (n, cleaned_db now locked db)"
proof -
  have "job_checks (exhaust_row now r)" if "r \<in> set (jobs db)" "exhausted now r" for r
    using db_inv_job [OF assms that(1)] by (simp add: exhaust_row_def job_ok_def job_checks_def)
  then have "list_all (\<lambda>r. exhausted now r \<and> \<not> locked (jid r) \<longrightarrow> job_checks (exhaust_row now r)) (jobs db)"
    by (simp add: list_all_iff)
  then show ?thesis
    by (simp add: bury_exhausted_def update_jobs_def cleaned_db_def close_expired_attempts_def
        cleaned_row_def [abs_def])
qed

subsection \<open>Step 3\<close>

text \<open>A claimable job of the cleaned database has only closed attempts.\<close>

lemma claimable_trail_closed:
  assumes "db_inv db" "r \<in> set (jobs (cleaned_db now locked db))" "claimable now r"
  shows "\<forall>a \<in> set (attempts_of (jid r) (cleaned_db now locked db)). closed_unsuccessful a"
proof -
  obtain s where s: "s \<in> set (jobs db)" "r = cleaned_row now locked s" using assms(2) by auto
  note ok = db_inv_job [OF assms(1) s(1)]
  have trail: "attempts_of (jid r) (cleaned_db now locked db) = cleaned_trail now s (attempts_of (jid s) db)"
    using attempts_of_cleaned [OF assms(1) s(1)] s(2) by simp
  show ?thesis
  proof (cases "expired_running now s")
    case True
    then show ?thesis unfolding trail by (rule expired_trail_closed [OF ok])
  next
    case False
    then have r: "r = s" using s(2) by (simp add: cleaned_row_def exhausted_def)
    with False assms(3) have "status s = as_db_str Pending" by (simp add: claimable_def due_pending_def)
    with ok have t: "\<forall>a \<in> set (butlast (attempts_of (jid s) db)). closed_unsuccessful a"
      "attempts_of (jid s) db = [] \<or> closed_unsuccessful (last (attempts_of (jid s) db))"
      by (auto simp: job_ok_def trail_ok_def)
    then have "\<forall>a \<in> set (attempts_of (jid s) db). closed_unsuccessful a"
      by (cases "attempts_of (jid s) db" rule: rev_cases) auto
    then show ?thesis unfolding trail using False by (simp add: cleaned_trail_def)
  qed
qed

lemma claim_row_simps [simp]:
  "jid (claim_row now lease tok r) = jid r" "status (claim_row now lease tok r) = as_db_str Running"
  "attempts (claim_row now lease tok r) = attempts r + 1"
  "lease_token (claim_row now lease tok r) = Some tok" "payload (claim_row now lease tok r) = payload r"
  by (simp_all add: claim_row_def)

lemma claimed_job_ok:
  assumes ok: "job_ok r as" and closed: "\<forall>a \<in> set as. closed_unsuccessful a" and c: "claimable now r"
  shows "job_ok (claim_row now lease tok r) (as @ [new_attempt now worker (claim_row now lease tok r)])"
proof -
  have n: "map at_number as = [1..attempts r]" "0 \<le> attempts r" "attempts r < max_attempts r"
    using ok c by (auto simp: job_ok_def trail_ok_def job_checks_def claimable_def)
  have "[1..attempts r] @ [attempts r + 1] = [1..attempts r + 1]"
    using upto_rec2 [of 1 "attempts r + 1"] n(2) by simp
  moreover have "status r = as_db_str Pending \<or> status r = as_db_str Running"
    using c by (auto simp: claimable_def due_pending_def expired_running_def)
  ultimately show ?thesis using ok closed n
    by (auto simp: job_ok_def trail_ok_def job_checks_def claim_row_def new_attempt_def open_or_lost_def)
qed

lemma insert_attempts_result:
  assumes "distinct (map (\<lambda>p. jid (fst p)) rs)"
    and "\<And>r b. (r, b) \<in> set rs \<Longrightarrow> jid r \<in> jid ` set (jobs db)"
    and "\<And>r b. (r, b) \<in> set rs \<Longrightarrow> (jid r, attempts r) \<notin> (\<lambda>a. (at_job_id a, at_number a)) ` set (job_attempts db)"
  shows "insert_attempts now worker rs db =
    Inr (map (\<lambda>(r, b). \<lparr>cj_job = r, cj_attempt_number = attempts r, cj_was_reclaimed = b\<rparr>) rs,
         db\<lparr>job_attempts := job_attempts db @ map (new_attempt now worker \<circ> fst) rs\<rparr>)"
  using assms
proof (induction rs arbitrary: db)
  case (Cons p rs)
  obtain r b where p: "p = (r, b)" by force
  let ?db = "db\<lparr>job_attempts := job_attempts db @ [new_attempt now worker r]\<rparr>"
  have ins: "insert_attempt_row (new_attempt now worker r) db = Inr ((), ?db)"
    using Cons.prems(2,3) [of r b] p by (auto simp: insert_attempt_row_def new_attempt_def)
  have "insert_attempts now worker rs ?db =
    Inr (map (\<lambda>(r, b). \<lparr>cj_job = r, cj_attempt_number = attempts r, cj_was_reclaimed = b\<rparr>) rs,
         ?db\<lparr>job_attempts := job_attempts ?db @ map (new_attempt now worker \<circ> fst) rs\<rparr>)"
  proof (rule Cons.IH)
    show "distinct (map (\<lambda>p. jid (fst p)) rs)" using Cons.prems(1) by simp
    fix r' b' assume m: "(r', b') \<in> set rs"
    show "jid r' \<in> jid ` set (jobs ?db)" using Cons.prems(2) [of r' b'] m by simp
    have "jid r' \<noteq> jid r" using Cons.prems(1) m p by (force simp: image_iff)
    then show "(jid r', attempts r') \<notin> (\<lambda>a. (at_job_id a, at_number a)) ` set (job_attempts ?db)"
      using Cons.prems(3) [of r' b'] m by (auto simp: new_attempt_def)
  qed
  then show ?case by (simp add: p ins)
qed simp

text \<open>The ids a claim takes, and the database and jobs it returns.\<close>

definition claimed_ids :: "timestamp \<Rightarrow> (uuid \<Rightarrow> bool) \<Rightarrow> nat \<Rightarrow> 'v db \<Rightarrow> uuid set" where
  "claimed_ids now locked limit db = jid ` set (due_rows now locked limit (cleaned_db now locked db))"

definition claimed_db ::
    "timestamp \<Rightarrow> (uuid \<Rightarrow> bool) \<Rightarrow> (uuid \<Rightarrow> uuid) \<Rightarrow> string \<Rightarrow> nat \<Rightarrow> duration \<Rightarrow> 'v db \<Rightarrow> 'v db" where
  "claimed_db now locked tok worker limit lease db =
     (let db2 = cleaned_db now locked db;
          due = (\<lambda>r. jid r \<in> claimed_ids now locked limit db);
          claim = (\<lambda>r. claim_row now lease (tok (jid r)) r)
      in db2\<lparr>jobs := map (\<lambda>r. if due r then claim r else r) (jobs db2),
             job_attempts := job_attempts db2 @ map (\<lambda>r. new_attempt now worker (claim r)) (filter due (jobs db2))\<rparr>)"

definition claimed_jobs ::
    "timestamp \<Rightarrow> (uuid \<Rightarrow> bool) \<Rightarrow> (uuid \<Rightarrow> uuid) \<Rightarrow> nat \<Rightarrow> duration \<Rightarrow> 'v db \<Rightarrow> 'v claimed_job list" where
  "claimed_jobs now locked tok limit lease db =
     map (\<lambda>r. \<lparr>cj_job = claim_row now lease (tok (jid r)) r, cj_attempt_number = attempts r + 1,
               cj_was_reclaimed = (status r = as_db_str Running)\<rparr>)
       (filter (\<lambda>r. jid r \<in> claimed_ids now locked limit db) (jobs (cleaned_db now locked db)))"

lemma due_rows_mem:
  "r \<in> set (due_rows now locked limit db) \<Longrightarrow> r \<in> set (jobs db) \<and> claimable now r \<and> \<not> locked (jid r)"
  unfolding due_rows_def by (auto dest!: in_set_takeD)

lemma claimed_ids_mem:
  assumes "db_inv db" "r \<in> set (jobs (cleaned_db now locked db))"
    "jid r \<in> claimed_ids now locked limit db"
  shows "claimable now r" "\<not> locked (jid r)"
proof -
  obtain s where s: "s \<in> set (due_rows now locked limit (cleaned_db now locked db))" "jid s = jid r"
    using assms(3) by (auto simp: claimed_ids_def)
  then have "s = r"
    using due_rows_mem [OF s(1)] db_inv_same_id [OF cleaned_db_inv [OF assms(1)]] assms(2) by blast
  with due_rows_mem [OF s(1)] show "claimable now r" "\<not> locked (jid r)" by simp_all
qed

lemma trail_number_mem:
  assumes "db_inv db" "r \<in> set (jobs db)" "a \<in> set (job_attempts db)" "at_job_id a = jid r"
  shows "1 \<le> at_number a" "at_number a \<le> attempts r"
proof -
  have "a \<in> set (attempts_of (jid r) db)" using assms(3,4) by (simp add: attempts_of_def)
  then have "at_number a \<in> set (map at_number (attempts_of (jid r) db))" by simp
  also have "map at_number (attempts_of (jid r) db) = [1..attempts r]"
    using db_inv_job [OF assms(1,2)] by (simp add: job_ok_def trail_ok_def)
  finally show "1 \<le> at_number a" "at_number a \<le> attempts r" by simp_all
qed

definition due_here :: "timestamp \<Rightarrow> (uuid \<Rightarrow> bool) \<Rightarrow> nat \<Rightarrow> 'v db \<Rightarrow> 'v job_row \<Rightarrow> bool" where
  "due_here now locked limit db r \<longleftrightarrow> jid r \<in> claimed_ids now locked limit db"

lemma claim_updates:
  assumes "db_inv db"
  shows "update_jobs (due_here now locked limit db) (\<lambda>r. claim_row now lease (tok (jid r)) r) (cleaned_db now locked db) =
    Inr (length (filter (due_here now locked limit db) (jobs (cleaned_db now locked db))),
         (cleaned_db now locked db)\<lparr>jobs := map (\<lambda>r. if due_here now locked limit db r then claim_row now lease (tok (jid r)) r else r)
           (jobs (cleaned_db now locked db))\<rparr>)"
proof -
  have "job_checks (claim_row now lease (tok (jid r)) r)"
    if "r \<in> set (jobs (cleaned_db now locked db))" "due_here now locked limit db r" for r
    using claimed_job_ok [OF db_inv_job [OF cleaned_db_inv [OF assms] that(1)] claimable_trail_closed [OF assms that(1)],
        where lease = lease and tok = "tok (jid r)"] claimed_ids_mem [OF assms that(1)] that(2)
    by (simp add: job_ok_def due_here_def)
  then show ?thesis by (simp only: update_jobs_Inr list_all_iff) blast
qed

lemma claim_inserts:
  fixes now locked limit lease tok worker and db :: "'v db"
  assumes inv: "db_inv db"
  defines "due \<equiv> due_here now locked limit db" and "claim \<equiv> \<lambda>r. claim_row now lease (tok (jid r)) r"
    and "db2 \<equiv> cleaned_db now locked db"
  defines "rs \<equiv> map (\<lambda>r. (claim r, status r = as_db_str Running)) (filter due (jobs db2))"
    and "db3 \<equiv> db2\<lparr>jobs := map (\<lambda>r. if due r then claim r else r) (jobs db2)\<rparr>"
  shows "insert_attempts now worker rs db3 =
    Inr (map (\<lambda>(r, b). \<lparr>cj_job = r, cj_attempt_number = attempts r, cj_was_reclaimed = b\<rparr>) rs,
         db3\<lparr>job_attempts := job_attempts db3 @ map (new_attempt now worker \<circ> fst) rs\<rparr>)"
proof (rule insert_attempts_result)
  have inv2: "db_inv db2" unfolding db2_def by (rule cleaned_db_inv [OF inv])
  have "distinct (map jid (filter due (jobs db2)))" using db_inv_distinct [OF inv2] by (rule distinct_map_filter)
  then show "distinct (map (\<lambda>p. jid (fst p)) rs)" by (simp add: rs_def claim_def comp_def)
  fix r b assume "(r, b) \<in> set rs"
  then obtain s where s: "s \<in> set (jobs db2)" "due s" "r = claim s" by (auto simp: rs_def)
  have "map jid (jobs db3) = map jid (jobs db2)" by (simp add: db3_def claim_def)
  then have keys: "jid ` set (jobs db3) = jid ` set (jobs db2)" by (metis set_map)
  have "jid r = jid s" unfolding s(3) claim_def by simp
  with s(1) show "jid r \<in> jid ` set (jobs db3)" unfolding keys by simp
  show "(jid r, attempts r) \<notin> (\<lambda>a. (at_job_id a, at_number a)) ` set (job_attempts db3)"
  proof
    assume "(jid r, attempts r) \<in> (\<lambda>a. (at_job_id a, at_number a)) ` set (job_attempts db3)"
    then obtain a where "a \<in> set (job_attempts db2)" "at_job_id a = jid s" "at_number a = attempts s + 1"
      using s(3) by (auto simp: db3_def claim_def)
    with trail_number_mem(2) [OF inv2 s(1)] show False by fastforce
  qed
qed

lemma claim_result:
  assumes inv: "db_inv db" and up: "db_up db" and lim: "0 \<le> limit"
  shows "claim_pending_jobs now locked tok worker limit lease db =
    Inr (claimed_jobs now locked tok (nat limit) lease db,
         claimed_db now locked tok worker (nat limit) lease db)"
proof -
  let ?db2 = "cleaned_db now locked db" and ?due = "due_here now locked (nat limit) db"
  let ?claim = "\<lambda>r. claim_row now lease (tok (jid r)) r"
  let ?db3 = "?db2\<lparr>jobs := map (\<lambda>r. if ?due r then ?claim r else r) (jobs ?db2)\<rparr>"
  let ?rs = "map (\<lambda>r. (?claim r, status r = as_db_str Running)) (filter ?due (jobs ?db2))"
  obtain n where bury: "bury_exhausted now locked (close_expired_attempts now db) = Inr (n, ?db2)"
    using bury_exhausted_result [OF inv] by blast
  have "claim_pending_jobs now locked tok worker limit lease db =
      bind_res (update_jobs ?due ?claim ?db2) (\<lambda>(_, db3). insert_attempts now worker ?rs db3)"
    using lim up
    by (simp add: claim_pending_jobs_def query_def bury claimed_ids_def due_here_def [abs_def] Let_def del: cleaned_db_frame)
  also have "\<dots> = insert_attempts now worker ?rs ?db3" unfolding claim_updates [OF inv] by simp
  also have "\<dots> = Inr (claimed_jobs now locked tok (nat limit) lease db,
      claimed_db now locked tok worker (nat limit) lease db)"
    unfolding claim_inserts [OF inv]
    by (simp add: claimed_jobs_def claimed_db_def due_here_def [abs_def] Let_def comp_def del: cleaned_db_frame)
  finally show ?thesis .
qed

text \<open>Fresh tokens: distinct for distinct rows and never issued before.\<close>

definition fresh_tokens :: "(uuid \<Rightarrow> uuid) \<Rightarrow> 'v db \<Rightarrow> bool" where
  "fresh_tokens tok db \<longleftrightarrow>
     inj_on tok (jid ` set (jobs db)) \<and> tok ` jid ` set (jobs db) \<inter> issued_tokens db = {}"

lemma claimed_attempts_of:
  assumes inv: "db_inv db" and r: "r \<in> set (jobs (cleaned_db now locked db))"
  shows "attempts_of (jid r) (claimed_db now locked tok worker limit lease db) =
    attempts_of (jid r) (cleaned_db now locked db) @
      (if jid r \<in> claimed_ids now locked limit db
       then [new_attempt now worker (claim_row now lease (tok (jid r)) r)] else [])"
proof -
  let ?db2 = "cleaned_db now locked db"
  let ?due = "\<lambda>r. jid r \<in> claimed_ids now locked limit db"
  let ?new = "\<lambda>r. new_attempt now worker (claim_row now lease (tok (jid r)) r)"
  have "filter (\<lambda>a. at_job_id a = jid r) (map ?new (filter ?due (jobs ?db2)))
      = map ?new (filter (\<lambda>s. jid s = jid r \<and> ?due s) (jobs ?db2))"
    by (simp add: filter_map comp_def new_attempt_def filter_filter conj_commute)
  also have "filter (\<lambda>s. jid s = jid r \<and> ?due s) (jobs ?db2)
      = filter ?due (filter (\<lambda>s. jid s = jid r) (jobs ?db2))"
    by (simp add: filter_filter conj_commute)
  also have "filter (\<lambda>s. jid s = jid r) (jobs ?db2) = [r]"
    by (rule filter_eq_single [OF db_inv_distinct [OF cleaned_db_inv [OF inv]] r])
  finally show ?thesis by (simp add: attempts_of_def claimed_db_def Let_def)
qed

definition claimed_attempts ::
    "timestamp \<Rightarrow> (uuid \<Rightarrow> bool) \<Rightarrow> (uuid \<Rightarrow> uuid) \<Rightarrow> string \<Rightarrow> nat \<Rightarrow> duration \<Rightarrow> 'v db \<Rightarrow> attempt_row list" where
  "claimed_attempts now locked tok worker limit lease db =
     map (\<lambda>r. new_attempt now worker (claim_row now lease (tok (jid r)) r))
       (filter (\<lambda>r. jid r \<in> claimed_ids now locked limit db) (jobs (cleaned_db now locked db)))"

lemma claimed_tokens_fresh:
  assumes inv: "db_inv db" and fresh: "fresh_tokens tok db"
  shows "distinct (map at_lease_token (claimed_attempts now locked tok worker limit lease db))"
    "set (map at_lease_token (claimed_attempts now locked tok worker limit lease db))
       \<inter> set (map at_lease_token (job_attempts (cleaned_db now locked db))) = {}"
proof -
  let ?db2 = "cleaned_db now locked db"
  let ?ids = "map jid (filter (\<lambda>r. jid r \<in> claimed_ids now locked limit db) (jobs ?db2))"
  have toks: "map at_lease_token (claimed_attempts now locked tok worker limit lease db) = map Some (map tok ?ids)"
    by (simp add: claimed_attempts_def new_attempt_def comp_def)
  have ids: "jid ` set (jobs ?db2) = jid ` set (jobs db)" by (simp add: image_image)
  have "distinct ?ids" using db_inv_distinct [OF cleaned_db_inv [OF inv]] by (rule distinct_map_filter)
  moreover have "inj_on tok (set ?ids)"
    using fresh ids unfolding fresh_tokens_def by (auto elim!: inj_on_subset)
  ultimately have "distinct (map tok ?ids)" by (simp only: distinct_map [of tok])
  then show "distinct (map at_lease_token (claimed_attempts now locked tok worker limit lease db))"
    unfolding toks by (simp only: distinct_map) simp
  have "Some t \<notin> at_lease_token ` set (job_attempts ?db2)" if "t \<in> tok ` jid ` set (jobs db)" for t
  proof -
    have "t \<notin> issued_tokens ?db2" using fresh that by (auto simp: fresh_tokens_def)
    then show ?thesis by (simp add: issued_tokens_def)
  qed
  then show "set (map at_lease_token (claimed_attempts now locked tok worker limit lease db))
       \<inter> set (map at_lease_token (job_attempts ?db2)) = {}"
    unfolding toks using ids by (auto simp del: cleaned_db_frame) blast
qed

lemma claimed_row_ok:
  assumes inv: "db_inv db" and mem: "r' \<in> set (jobs (claimed_db now locked tok worker limit lease db))"
  shows "job_ok r' (attempts_of (jid r') (claimed_db now locked tok worker limit lease db))"
proof -
  let ?due = "\<lambda>r. jid r \<in> claimed_ids now locked limit db"
  obtain r where r: "r \<in> set (jobs (cleaned_db now locked db))"
    "r' = (if ?due r then claim_row now lease (tok (jid r)) r else r)"
    using mem by (auto simp: claimed_db_def Let_def simp del: cleaned_db_frame)
  note ok = db_inv_job [OF cleaned_db_inv [OF inv] r(1)]
  note atts = claimed_attempts_of [OF inv r(1), of tok worker limit lease]
  show ?thesis
  proof (cases "?due r")
    case True
    note c = claimed_ids_mem(1) [OF inv r(1) True]
    show ?thesis
      using claimed_job_ok [OF ok claimable_trail_closed [OF inv r(1) c] c,
          where lease = lease and tok = "tok (jid r)" and worker = worker] atts True r(2) by simp
  next
    case False
    then show ?thesis using ok atts r(2) by simp
  qed
qed

lemma claimed_db_inv:
  assumes inv: "db_inv db" and fresh: "fresh_tokens tok db"
  shows "db_inv (claimed_db now locked tok worker limit lease db)"
proof -
  let ?db2 = "cleaned_db now locked db" and ?db' = "claimed_db now locked tok worker limit lease db"
  note inv2 = cleaned_db_inv [OF inv, of now locked]
  have jids: "map jid (jobs ?db') = map jid (jobs ?db2)" by (simp add: claimed_db_def Let_def)
  then have jidset: "jid ` set (jobs ?db') = jid ` set (jobs ?db2)" by (metis set_map)
  have atts: "job_attempts ?db' = job_attempts ?db2 @ claimed_attempts now locked tok worker limit lease db"
    by (simp add: claimed_db_def claimed_attempts_def Let_def)
  show ?thesis
    unfolding db_inv_def
  proof (intro conjI ballI)
    show "distinct (map jid (jobs ?db'))" unfolding jids by (rule db_inv_distinct [OF inv2])
    show "\<And>r. r \<in> set (jobs ?db') \<Longrightarrow> job_ok r (attempts_of (jid r) ?db')" by (rule claimed_row_ok [OF inv])
    show "at_job_id ` set (job_attempts ?db') \<subseteq> jid ` set (jobs ?db')"
      using inv2 unfolding jidset atts db_inv_def
      by (auto simp: claimed_attempts_def new_attempt_def simp del: cleaned_db_frame)
    show "None \<notin> at_lease_token ` set (job_attempts ?db')"
      using inv2 unfolding atts db_inv_def
      by (auto simp: claimed_attempts_def new_attempt_def simp del: cleaned_db_frame)
    show "distinct (map at_lease_token (job_attempts ?db'))"
      using inv2 claimed_tokens_fresh [OF inv fresh] unfolding atts db_inv_def
      by (simp only: map_append distinct_append Int_commute)
  qed
qed

subsection \<open>What a claim returns\<close>

lemma claimed_jobs_length:
  assumes "db_inv db"
  shows "length (claimed_jobs now locked tok limit lease db) \<le> limit"
proof -
  let ?db2 = "cleaned_db now locked db"
  let ?ids = "claimed_ids now locked limit db"
  let ?rs = "filter (\<lambda>r. jid r \<in> ?ids) (jobs ?db2)"
  have "distinct (map jid ?rs)"
    using db_inv_distinct [OF cleaned_db_inv [OF assms]] by (rule distinct_map_filter)
  then have "card (set (map jid ?rs)) = length (map jid ?rs)" by (rule distinct_card)
  then have "length ?rs = card (jid ` set ?rs)" by (simp only: set_map length_map)
  also have "\<dots> \<le> card ?ids" by (intro card_mono) (auto simp: claimed_ids_def)
  also have "\<dots> \<le> length (due_rows now locked limit ?db2)"
    using card_length [of "map jid (due_rows now locked limit ?db2)"]
    by (simp only: claimed_ids_def set_map length_map)
  also have "\<dots> \<le> limit" by (simp add: due_rows_def)
  finally show ?thesis by (simp add: claimed_jobs_def)
qed

lemma claimed_jobs_distinct:
  assumes "db_inv db"
  shows "distinct (map (\<lambda>c. jid (cj_job c)) (claimed_jobs now locked tok limit lease db))"
proof -
  have "distinct (map jid (filter (\<lambda>r. jid r \<in> claimed_ids now locked limit db) (jobs (cleaned_db now locked db))))"
    using db_inv_distinct [OF cleaned_db_inv [OF assms]] by (rule distinct_map_filter)
  then show ?thesis by (simp add: claimed_jobs_def comp_def)
qed

lemma claimed_job_mem:
  assumes inv: "db_inv db" and c: "c \<in> set (claimed_jobs now locked tok limit lease db)"
  obtains r where "r \<in> set (jobs (cleaned_db now locked db))" "claimable now r" "\<not> locked (jid r)"
    "cj_job c = claim_row now lease (tok (jid r)) r" "cj_attempt_number c = attempts r + 1"
    "cj_was_reclaimed c \<longleftrightarrow> status r = as_db_str Running"
    "cj_job c \<in> set (jobs (claimed_db now locked tok worker limit lease db))"
proof -
  obtain r where r: "r \<in> set (jobs (cleaned_db now locked db))" "jid r \<in> claimed_ids now locked limit db"
    "c = \<lparr>cj_job = claim_row now lease (tok (jid r)) r, cj_attempt_number = attempts r + 1,
          cj_was_reclaimed = (status r = as_db_str Running)\<rparr>"
    using c unfolding claimed_jobs_def by (auto simp del: cleaned_db_frame)
  have "claim_row now lease (tok (jid r)) r \<in> set (jobs (claimed_db now locked tok worker limit lease db))"
    using r(1,2) unfolding claimed_db_def Let_def by (auto simp del: cleaned_db_frame)
  with that [OF r(1) claimed_ids_mem [OF inv r(1,2)]] r(3) show thesis by simp
qed

end
