(* ===== verification/JobsWrite.thy ===== *)
theory JobsWrite
  imports JobsClaim
begin

section \<open>Submitting, renewing and replaying\<close>

text \<open>
  The remaining writers of \<open>jobs.rs\<close>: \<open>insert_job\<close>, \<open>renew_lease\<close> and \<open>retry_dead_job\<close> touch one row of
  \<open>jobs\<close> and no attempt. For each, the result on every branch and the preservation of \<open>db_inv\<close>.
\<close>

subsection \<open>Updates that leave the attempts alone\<close>

lemma jobs_update_preserves:
  assumes inv: "db_inv db" and key: "\<And>r. jid (g r) = jid r"
    and ok: "\<And>r. r \<in> set (jobs db) \<Longrightarrow> P r \<Longrightarrow> job_ok (g r) (attempts_of (jid r) db)"
  shows "db_inv (db\<lparr>jobs := map (\<lambda>r. if P r then g r else r) (jobs db)\<rparr>)"
proof (rule db_inv_same_keysI [OF inv])
  show "map jid (jobs (db\<lparr>jobs := map (\<lambda>r. if P r then g r else r) (jobs db)\<rparr>)) = map jid (jobs db)"
    using key by simp
  fix r' assume "r' \<in> set (jobs (db\<lparr>jobs := map (\<lambda>r. if P r then g r else r) (jobs db)\<rparr>))"
  then obtain r where "r \<in> set (jobs db)" "r' = (if P r then g r else r)" by auto
  then show "job_ok r' (attempts_of (jid r') (db\<lparr>jobs := map (\<lambda>r. if P r then g r else r) (jobs db)\<rparr>))"
    using ok db_inv_job [OF inv] key by simp
qed simp_all

lemma list_all_checks:
  assumes "\<And>r. r \<in> set xs \<Longrightarrow> P r \<Longrightarrow> job_checks (g r)"
  shows "list_all (\<lambda>r. P r \<longrightarrow> job_checks (g r)) xs"
  using assms by (simp add: list_all_iff)

subsection \<open>insert_job\<close>

lemma new_job_checks: "1 \<le> mx \<Longrightarrow> job_checks (new_job_row now i k pl mx)"
  by (simp add: new_job_row_def job_checks_def)

lemma new_job_row_jid: "jid (new_job_row now i k pl mx) = i"
  by (simp add: new_job_row_def)

lemma new_job_row_texts: "kind (new_job_row now i k pl mx) = k" "payload (new_job_row now i k pl mx) = pl"
  by (simp_all add: new_job_row_def)

lemma insert_job_result:
  assumes "db_up db" "1 \<le> mx" "i \<notin> jid ` set (jobs db)" "text_ok k" "jsonb pl"
  shows "insert_job jsonb now i k pl mx db =
    Inr (new_job_row now i k pl mx, db\<lparr>jobs := jobs db @ [new_job_row now i k pl mx]\<rparr>)"
  using assms new_job_checks [OF assms(2), of now i k pl]
  by (simp add: insert_job_def query_def insert_job_row_def Let_def new_job_row_jid new_job_row_texts)

lemma insert_job_refused:
  "db_up db \<Longrightarrow> \<not> (text_ok k \<and> jsonb pl) \<Longrightarrow> insert_job jsonb now i k pl mx db = Inl (Database InvalidText)"
  by (auto simp: insert_job_def query_def insert_job_row_def Let_def new_job_row_texts)

lemma insert_job_Inr:
  assumes "insert_job jsonb now i k pl mx db = Inr (r, db')"
  shows "db_up db" "1 \<le> mx" "i \<notin> jid ` set (jobs db)" "r = new_job_row now i k pl mx"
    "db' = db\<lparr>jobs := jobs db @ [r]\<rparr>" "text_ok k" "jsonb pl"
  using assms
  by (auto simp: insert_job_def query_def insert_job_row_def Let_def new_job_row_def job_checks_def
      split: if_splits)

lemma attempts_of_unknown:
  assumes "db_inv db" "i \<notin> jid ` set (jobs db)"
  shows "attempts_of i db = []"
proof -
  have "at_job_id ` set (job_attempts db) \<subseteq> jid ` set (jobs db)" using assms(1) by (simp add: db_inv_def)
  with assms(2) have "\<forall>a \<in> set (job_attempts db). at_job_id a \<noteq> i" by blast
  then show ?thesis by (simp add: attempts_of_def filter_empty_conv)
qed

lemma insert_job_preserves:
  assumes inv: "db_inv db" and mx: "i32 mx" and ok: "insert_job jsonb now i k pl mx db = Inr (r, db')"
  shows "db_inv db'"
proof -
  note res = insert_job_Inr [OF ok]
  have ji: "jid r = i" unfolding res(4) by (simp add: new_job_row_def)
  have new: "job_ok r []" unfolding res(4) using mx new_job_checks [OF res(2), of now i k pl]
    by (simp add: job_ok_def trail_ok_def) (simp add: new_job_row_def)
  have att: "attempts_of j db' = attempts_of j db" for j unfolding res(5) by simp
  show ?thesis
    unfolding db_inv_def
  proof (intro conjI ballI)
    show "distinct (map jid (jobs db'))" using db_inv_distinct [OF inv] res(3) ji unfolding res(5) by simp
    show "at_job_id ` set (job_attempts db') \<subseteq> jid ` set (jobs db')"
      "None \<notin> at_lease_token ` set (job_attempts db')"
      "distinct (map at_lease_token (job_attempts db'))"
      using inv unfolding res(5) db_inv_def by auto
    fix s assume "s \<in> set (jobs db')"
    then show "job_ok s (attempts_of (jid s) db')"
      using new attempts_of_unknown [OF inv res(3)] db_inv_job [OF inv] ji unfolding att by (auto simp: res(5))
  qed
qed

subsection \<open>renew_lease\<close>

lemma renew_row_jid: "jid (renew_row now lease r) = jid r"
  by (simp add: renew_row_def)

lemma renew_row_ok:
  assumes "job_ok r as" "holds_lease i t r"
  shows "job_ok (renew_row now lease r) as"
  using assms by (auto simp: job_ok_def job_checks_def trail_ok_def renew_row_def holds_lease_def)

lemma renew_lease_result:
  assumes inv: "db_inv db" and up: "db_up db"
  shows "renew_lease now i t lease db =
    Inr (owns i t db, db\<lparr>jobs := map (\<lambda>r. if holds_lease i t r then renew_row now lease r else r) (jobs db)\<rparr>)"
proof -
  have "list_all (\<lambda>r. holds_lease i t r \<longrightarrow> job_checks (renew_row now lease r)) (jobs db)"
    using renew_row_ok [OF db_inv_job [OF inv]] by (intro list_all_checks) (auto simp: job_ok_def)
  then show ?thesis using up
    by (simp add: renew_lease_def query_def update_jobs_def owns_filter)
qed

lemma renew_lease_preserves:
  assumes inv: "db_inv db" and ok: "renew_lease now i t lease db = Inr (b, db')"
  shows "db_inv db'"
proof -
  have up: "db_up db" using ok by (auto simp: renew_lease_def query_def split: if_splits)
  have "db_inv (db\<lparr>jobs := map (\<lambda>r. if holds_lease i t r then renew_row now lease r else r) (jobs db)\<rparr>)"
    by (rule jobs_update_preserves [OF inv])
      (simp_all add: renew_row_ok [OF db_inv_job [OF inv]] renew_row_jid)
  then show ?thesis using ok unfolding renew_lease_result [OF inv up] by simp
qed

subsection \<open>retry_dead_job\<close>

definition dead_job :: "uuid \<Rightarrow> 'v job_row \<Rightarrow> bool" where
  "dead_job i r \<longleftrightarrow> jid r = i \<and> status r = as_db_str Dead"

lemma revive_row_simps [simp]:
  "jid (revive_row now mx r) = jid r" "status (revive_row now mx r) = as_db_str Pending"
  "attempts (revive_row now mx r) = attempts r" "payload (revive_row now mx r) = payload r"
  by (simp_all add: revive_row_def)

lemma revive_row_ok:
  assumes "job_ok r as" "dead_job i r" "1 \<le> mx" "attempts r \<le> mx" "i32 mx"
  shows "job_ok (revive_row now mx r) as"
  using assms by (auto simp: job_ok_def job_checks_def trail_ok_def revive_row_def dead_job_def)

lemma revive_row_checks:
  "job_checks (revive_row now mx r) \<longleftrightarrow> 0 \<le> attempts r \<and> 1 \<le> mx \<and> attempts r \<le> mx"
  by (auto simp: job_checks_def revive_row_def)

lemma retry_dead_job_eq:
  "retry_dead_job now i mx db =
     query db
       (bind_res (update_jobs (dead_job i) (revive_row now mx) db) (\<lambda>(n, db1).
        Inr (if n = 0 then None else find_job i db1, db1)))"
  by (simp add: retry_dead_job_def dead_job_def [abs_def])

lemma find_job_revived:
  "i = jid r \<Longrightarrow> db_inv db \<Longrightarrow> r \<in> set (jobs db) \<Longrightarrow> P r \<Longrightarrow> (\<And>s. jid (g s) = jid s) \<Longrightarrow>
   find_job i (db\<lparr>jobs := map (\<lambda>r. if P r then g r else r) (jobs db)\<rparr>) = Some (g r)"
proof -
  assume a: "i = jid r" "db_inv db" "r \<in> set (jobs db)" "P r" "\<And>s. jid (g s) = jid s"
  let ?js = "map (\<lambda>r. if P r then g r else r) (jobs db)"
  have "map jid ?js = map jid (jobs db)" using a(5) by simp
  with db_inv_distinct [OF a(2)] have "distinct (map jid ?js)" by (simp only:)
  moreover have "g r \<in> set ?js" using a(3,4) by auto
  ultimately have "find_job (jid (g r)) (db\<lparr>jobs := ?js\<rparr>) = Some (g r)"
    by (intro find_job_distinct) simp_all
  then show ?thesis using a(1,5) by simp
qed

lemma retry_dead_job_found:
  assumes inv: "db_inv db" and up: "db_up db" and r: "r \<in> set (jobs db)" "dead_job i r"
    and mx: "1 \<le> mx" "attempts r \<le> mx"
  shows "retry_dead_job now i mx db =
    Inr (Some (revive_row now mx r),
         db\<lparr>jobs := map (\<lambda>s. if dead_job i s then revive_row now mx s else s) (jobs db)\<rparr>)"
proof -
  have same: "s = r" if "s \<in> set (jobs db)" "dead_job i s" for s
    using db_inv_same_id [OF inv that(1) r(1)] that(2) r(2) by (simp add: dead_job_def)
  have "job_checks r" using db_inv_job [OF inv r(1)] by (simp add: job_ok_def)
  then have "job_checks (revive_row now mx r)" using mx by (simp add: revive_row_checks) (simp add: job_checks_def)
  then have checks: "list_all (\<lambda>s. dead_job i s \<longrightarrow> job_checks (revive_row now mx s)) (jobs db)"
    using same by (intro list_all_checks) blast
  have found: "filter (dead_job i) (jobs db) \<noteq> []" using r by (auto simp: filter_empty_conv)
  have row: "find_job i (db\<lparr>jobs := map (\<lambda>s. if dead_job i s then revive_row now mx s else s) (jobs db)\<rparr>)
      = Some (revive_row now mx r)"
    using r inv by (intro find_job_revived) (simp_all add: dead_job_def)
  show ?thesis using up checks found
    by (simp add: retry_dead_job_eq query_def update_jobs_def row)
qed

lemma retry_dead_job_missing:
  assumes "db_up db" "\<And>r. r \<in> set (jobs db) \<Longrightarrow> \<not> dead_job i r"
  shows "retry_dead_job now i mx db = Inr (None, db)"
proof -
  have "map (\<lambda>s. if dead_job i s then revive_row now mx s else s) (jobs db) = jobs db"
    using assms(2) by (intro map_if_id) auto
  moreover have "filter (dead_job i) (jobs db) = []" using assms(2) by (auto simp: filter_empty_conv)
  moreover have "list_all (\<lambda>s. dead_job i s \<longrightarrow> job_checks (revive_row now mx s)) (jobs db)"
    using assms(2) by (auto simp: list_all_iff)
  ultimately show ?thesis using assms(1)
    by (simp add: retry_dead_job_eq query_def update_jobs_def)
qed

lemma retry_dead_job_rejected:
  assumes "db_up db" "r \<in> set (jobs db)" "dead_job i r" "mx < 1 \<or> mx < attempts r"
  shows "retry_dead_job now i mx db = Inl (Database CheckViolation)"
proof -
  have "\<not> list_all (\<lambda>s. dead_job i s \<longrightarrow> job_checks (revive_row now mx s)) (jobs db)"
    using assms(2-4) by (force simp: list_all_iff revive_row_checks)
  then show ?thesis using assms(1)
    by (simp add: retry_dead_job_eq query_def update_jobs_def)
qed

lemma retry_dead_job_exact:
  assumes "db_inv db" "db_up db"
  shows "retry_dead_job now i mx db =
    (case find_job i db of
       None \<Rightarrow> Inr (None, db)
     | Some r \<Rightarrow>
         if status r \<noteq> as_db_str Dead then Inr (None, db)
         else if mx < 1 \<or> mx < attempts r then Inl (Database CheckViolation)
         else Inr (Some (revive_row now mx r),
                   db\<lparr>jobs := map (\<lambda>s. if jid s = i then revive_row now mx s else s) (jobs db)\<rparr>))"
proof (cases "find_job i db")
  case None
  then have "i \<notin> jid ` set (jobs db)" by (simp add: find_job_None)
  then have "\<not> dead_job i r" if "r \<in> set (jobs db)" for r using that by (auto simp: dead_job_def)
  with None retry_dead_job_missing [OF assms(2), of i now mx] show ?thesis by simp
next
  case (Some r)
  then have r: "r \<in> set (jobs db)" "jid r = i" using find_job_Some by blast+
  have same: "s = r" if "s \<in> set (jobs db)" "jid s = i" for s using db_inv_same_id [OF assms(1) that(1) r(1)] that(2) r(2) by simp
  show ?thesis
  proof (cases "status r = as_db_str Dead")
    case False
    then have "\<not> dead_job i s" if "s \<in> set (jobs db)" for s using same [OF that] by (auto simp: dead_job_def)
    with False Some retry_dead_job_missing [OF assms(2), of i now mx] show ?thesis by simp
  next
    case True
    then have d: "dead_job i r" using r(2) by (simp add: dead_job_def)
    have "map (\<lambda>s. if dead_job i s then revive_row now mx s else s) (jobs db)
        = map (\<lambda>s. if jid s = i then revive_row now mx s else s) (jobs db)"
      using same True by (intro map_cong refl) (auto simp: dead_job_def)
    then show ?thesis
      using Some True retry_dead_job_found [OF assms(1,2) r(1) d] retry_dead_job_rejected [OF assms(2) r(1) d, of mx now]
      by (simp add: not_less)
  qed
qed

lemma retry_dead_job_Inr:
  assumes "retry_dead_job now i mx db = Inr (res, db')"
  shows "db_up db"
    "db' = db\<lparr>jobs := map (\<lambda>s. if dead_job i s then revive_row now mx s else s) (jobs db)\<rparr>"
    "\<And>r. r \<in> set (jobs db) \<Longrightarrow> dead_job i r \<Longrightarrow> 1 \<le> mx \<and> attempts r \<le> mx"
proof -
  show up: "db_up db" using assms by (auto simp: retry_dead_job_def query_def split: if_splits)
  show "db' = db\<lparr>jobs := map (\<lambda>s. if dead_job i s then revive_row now mx s else s) (jobs db)\<rparr>"
    using assms up
    by (auto simp: retry_dead_job_eq query_def update_jobs_def split: if_splits)
  show "1 \<le> mx \<and> attempts r \<le> mx" if "r \<in> set (jobs db)" "dead_job i r" for r
    using assms retry_dead_job_rejected [OF up that, of mx now] by fastforce
qed

lemma retry_dead_job_preserves:
  assumes inv: "db_inv db" and mx: "i32 mx" and ok: "retry_dead_job now i mx db = Inr (res, db')"
  shows "db_inv db'"
  unfolding retry_dead_job_Inr(2) [OF ok]
proof (rule jobs_update_preserves [OF inv])
  fix r assume r: "r \<in> set (jobs db)" "dead_job i r"
  show "job_ok (revive_row now mx r) (attempts_of (jid r) db)"
    using retry_dead_job_Inr(3) [OF ok r] by (intro revive_row_ok [OF db_inv_job [OF inv r(1)] r(2)] mx) auto
qed simp

end
