(* ===== verification/JobMachine.thy ===== *)
theory JobMachine
  imports JobsWrite
begin

section \<open>The job lifecycle as an abstract machine\<close>

text \<open>
  What the repository promises of one job, without rows, timestamps or SQL: its phase, the attempts it has
  used and its attempt budget. \<open>legal\<close> is the lifecycle of the job as a step relation, \<open>abs_db\<close> reads it off
  the tables, and each repository function of \<open>jobs.rs\<close> is shown to refine it: whatever the call, every job
  stays where it is, is created waiting, or makes one legal step, and no job disappears.
\<close>

datatype phase = Waiting | Leased uuid | Finished | Buried

type_synonym abstract_job = "phase \<times> int \<times> int"

inductive legal :: "abstract_job \<Rightarrow> abstract_job \<Rightarrow> bool" where
  claim: "n < m \<Longrightarrow> legal (Waiting, n, m) (Leased t, n + 1, m)"
| reclaim: "n < m \<Longrightarrow> t \<noteq> u \<Longrightarrow> legal (Leased t, n, m) (Leased u, n + 1, m)"
| succeed: "legal (Leased t, n, m) (Finished, n, m)"
| reschedule: "legal (Leased t, n, m) (Waiting, n, m)"
| bury: "legal (Leased t, n, m) (Buried, n, m)"
| replay: "n \<le> m' \<Longrightarrow> legal (Buried, n, m) (Waiting, n, m')"

inductive_simps legal_simps [simp]:
  "legal (Waiting, n, m) (p, n', m')"
  "legal (Leased t, n, m) (p, n', m')"
  "legal (Finished, n, m) (p, n', m')"
  "legal (Buried, n, m) (p, n', m')"

inductive evolves :: "abstract_job option \<Rightarrow> abstract_job option \<Rightarrow> bool" where
  stays: "evolves a a"
| created: "1 \<le> m \<Longrightarrow> evolves None (Some (Waiting, 0, m))"
| moves: "legal a b \<Longrightarrow> evolves (Some a) (Some b)"

inductive_cases evolves_SomeE: "evolves (Some a) b"
inductive_cases evolves_NoneE: "evolves None b"

subsection \<open>Laws of the machine\<close>

definition within_budget :: "abstract_job \<Rightarrow> bool" where
  "within_budget a \<longleftrightarrow> (case a of (_, n, m) \<Rightarrow> 0 \<le> n \<and> n \<le> m)"

lemma legal_within_budget: "legal a b \<Longrightarrow> within_budget a \<Longrightarrow> within_budget b"
  by (induction rule: legal.induct) (auto simp: within_budget_def)

lemma legal_attempts_mono: "legal a b \<Longrightarrow> fst (snd a) \<le> fst (snd b) \<and> fst (snd b) \<le> fst (snd a) + 1"
  by (induction rule: legal.induct) auto

lemma evolves_SomeD: "evolves (Some a) b \<Longrightarrow> b = Some a \<or> (\<exists>c. b = Some c \<and> legal a c)"
  by (erule evolves_SomeE) blast+

lemma finished_is_final: "legal (Finished, n, m) b \<Longrightarrow> False"
  by (cases b) simp

lemma evolves_finished: "evolves (Some (Finished, n, m)) b \<Longrightarrow> b = Some (Finished, n, m)"
  by (auto elim!: evolves_SomeE dest: finished_is_final)

text \<open>Over any number of steps a finished job stays finished and the attempts used never fall.\<close>

lemma finished_forever:
  assumes "evolves\<^sup>*\<^sup>* (Some (Finished, n, m)) b"
  shows "b = Some (Finished, n, m)"
  using assms by (induction rule: rtranclp_induct) (auto dest: evolves_finished)

lemma attempts_never_fall:
  assumes "evolves\<^sup>*\<^sup>* (Some a) (Some b)"
  shows "fst (snd a) \<le> fst (snd b)"
proof -
  have "\<exists>c. d = Some c \<and> fst (snd a) \<le> fst (snd c)" if "evolves\<^sup>*\<^sup>* (Some a) d" for d
    using that
  proof (induction rule: rtranclp_induct)
    case (step y z)
    then obtain c where c: "y = Some c" "fst (snd a) \<le> fst (snd c)" by blast
    with evolves_SomeD [of c z] step.hyps(2) have "z = Some c \<or> (\<exists>e. z = Some e \<and> legal c e)" by blast
    then show ?case
    proof
      assume "\<exists>e. z = Some e \<and> legal c e"
      then obtain e where "z = Some e" "legal c e" by blast
      with c(2) legal_attempts_mono [of c e] show ?thesis by (metis order_trans)
    qed (use c(2) in blast)
  qed simp
  with assms show ?thesis by fastforce
qed

subsection \<open>The abstraction\<close>

definition abs_phase :: "'v job_row \<Rightarrow> phase" where
  "abs_phase r =
     (if status r = as_db_str Running then Leased (the (lease_token r))
      else if status r = as_db_str Succeeded then Finished
      else if status r = as_db_str Dead then Buried
      else Waiting)"

definition abs_job :: "'v job_row \<Rightarrow> abstract_job" where
  "abs_job r = (abs_phase r, attempts r, max_attempts r)"

definition abs_db :: "'v db \<Rightarrow> uuid \<Rightarrow> abstract_job option" where
  "abs_db db i = map_option abs_job (find_job i db)"

lemma abs_db_jobs: "jobs db' = jobs db \<Longrightarrow> abs_db db' = abs_db db"
  by (simp add: fun_eq_iff abs_db_def find_job_def)

lemma find_job_map:
  assumes "\<And>r. jid (h r) = jid r"
  shows "find_job i (db\<lparr>jobs := map h (jobs db)\<rparr>) = map_option h (find_job i db)"
proof -
  have "find (\<lambda>r. jid r = i) (map h xs) = map_option h (find (\<lambda>r. jid r = i) xs)" for xs
    using assms by (induction xs) auto
  then show ?thesis by (simp add: find_job_def)
qed

lemma evolves_map:
  assumes "\<And>r. jid (h r) = jid r"
    and "\<And>r. r \<in> set (jobs db) \<Longrightarrow> h r = r \<or> legal (abs_job r) (abs_job (h r))"
  shows "evolves (abs_db db i) (abs_db (db\<lparr>jobs := map h (jobs db)\<rparr>) i)"
proof (cases "find_job i db")
  case None
  then show ?thesis using find_job_map [of h i db] assms(1) by (simp add: abs_db_def evolves.stays)
next
  case (Some r)
  then have "r \<in> set (jobs db)" using find_job_Some by blast
  from assms(2) [OF this] Some show ?thesis
    using find_job_map [of h i db] assms(1) by (auto simp: abs_db_def intro: evolves.stays evolves.moves)
qed

subsection \<open>Refinement\<close>

lemma find_job_snoc:
  "find_job i (db\<lparr>jobs := jobs db @ [r]\<rparr>) =
     (case find_job i db of None \<Rightarrow> if jid r = i then Some r else None | Some s \<Rightarrow> Some s)"
proof -
  have "find P (xs @ [r]) = (case find P xs of None \<Rightarrow> if P r then Some r else None | Some s \<Rightarrow> Some s)" for P xs
    by (induction xs) auto
  then show ?thesis by (simp add: find_job_def)
qed

lemma insert_job_evolves:
  assumes "insert_job jsonb now j k pl mx db = Inr (r, db')"
  shows "evolves (abs_db db i) (abs_db db' i)"
proof -
  note res = insert_job_Inr [OF assms]
  have ji: "jid r = j" by (simp add: res(4) new_job_row_jid)
  have old: "find_job j db = None" using res(3) by (simp add: find_job_None)
  have "abs_job r = (Waiting, 0, mx)" by (simp add: res(4) abs_job_def abs_phase_def new_job_row_def)
  then have "abs_db db' i = (if i = j then Some (Waiting, 0, mx) else abs_db db i)"
    using old ji unfolding res(5) by (auto simp: abs_db_def find_job_snoc split: option.split)
  then show ?thesis using old res(2) by (auto simp: abs_db_def intro: evolves.stays evolves.created)
qed

lemma legal_closing:
  assumes "closing g f" "job_ok r as" "holds_lease i t r"
    "abs_phase (g r) \<in> {Waiting, Finished, Buried}" "max_attempts (g r) = max_attempts r"
  shows "legal (abs_job r) (abs_job (g r))"
  using assms closing_simps(3) [OF assms(1)]
  by (auto simp: abs_job_def abs_phase_def holds_lease_def)

lemma finalize_with_evolves:
  assumes inv: "db_inv db" and cl: "closing g f"
    and ph: "\<And>r. abs_phase (g r) \<in> {Waiting, Finished, Buried} \<and> max_attempts (g r) = max_attempts r"
    and ok: "finalize_with g f i t db = Inr (b, db')"
  shows "evolves (abs_db db j) (abs_db db' j)"
proof (cases "owns i t db")
  case True
  have up: "db_up db" using ok by (cases "db_up db") (simp_all add: finalize_with_down)
  let ?h = "\<lambda>r. if holds_lease i t r then g r else r"
  have "jobs db' = map ?h (jobs db)" using finalize_with_owned [OF inv cl True up] ok by auto
  then have "abs_db db' = abs_db (db\<lparr>jobs := map ?h (jobs db)\<rparr>)" by (intro abs_db_jobs) simp
  moreover have "evolves (abs_db db j) (abs_db (db\<lparr>jobs := map ?h (jobs db)\<rparr>) j)"
    using legal_closing [OF cl db_inv_job [OF inv]] ph
    by (intro evolves_map) (auto simp: closing_simps [OF cl])
  ultimately show ?thesis by simp
next
  case False
  show ?thesis
    using ok finalize_with_stale [OF False, of g f]
    by (cases "db_up db") (auto simp: finalize_with_down intro: evolves.stays)
qed

lemma finished_rows_phase:
  "abs_phase (succeed_row now r) = Finished" "max_attempts (succeed_row now r) = max_attempts r"
  "abs_phase (retry_row now d code msg r) = Waiting" "max_attempts (retry_row now d code msg r) = max_attempts r"
  "abs_phase (dead_row now code msg r) = Buried" "max_attempts (dead_row now code msg r) = max_attempts r"
  "abs_phase (revive_row now mx r) = Waiting" "max_attempts (revive_row now mx r) = mx"
  "abs_phase (exhaust_row now r) = Buried" "max_attempts (exhaust_row now r) = max_attempts r"
  "attempts (exhaust_row now r) = attempts r"
  "abs_phase (claim_row now lease tok r) = Leased tok" "max_attempts (claim_row now lease tok r) = max_attempts r"
  "abs_phase (renew_row now lease r) = abs_phase r" "max_attempts (renew_row now lease r) = max_attempts r"
  "attempts (renew_row now lease r) = attempts r"
  by (simp_all add: abs_phase_def succeed_row_def retry_row_def dead_row_def revive_row_def
      exhaust_row_def claim_row_def renew_row_def)

lemma finalize_evolves:
  assumes "db_inv db"
  shows "finalize_success now i t ms db = Inr (b, db') \<Longrightarrow> evolves (abs_db db j) (abs_db db' j)"
    "finalize_retry_scheduled now i t d code msg ms db = Inr (b, db') \<Longrightarrow> evolves (abs_db db j) (abs_db db' j)"
    "finalize_dead now i t code msg ms db = Inr (b, db') \<Longrightarrow> evolves (abs_db db j) (abs_db db' j)"
  using finalize_with_evolves [OF assms closing_success] finalize_with_evolves [OF assms closing_retry]
    finalize_with_evolves [OF assms closing_dead]
  by (auto simp: finalize_eqs finished_rows_phase split: if_splits)

lemma renew_lease_evolves:
  assumes inv: "db_inv db" and ok: "renew_lease now i t lease db = Inr (b, db')"
  shows "abs_db db' = abs_db db"
proof -
  have up: "db_up db" using ok by (auto simp: renew_lease_def query_def split: if_splits)
  let ?h = "\<lambda>r. if holds_lease i t r then renew_row now lease r else r"
  have db': "db' = db\<lparr>jobs := map ?h (jobs db)\<rparr>" using ok unfolding renew_lease_result [OF inv up] by simp
  have key: "jid (?h r) = jid r" for r by (simp add: renew_row_jid)
  have abs: "abs_job (?h r) = abs_job r" for r by (simp add: abs_job_def finished_rows_phase)
  have "abs_db db' j = abs_db db j" for j
    unfolding db' abs_db_def find_job_map [of ?h, OF key]
    by (cases "find_job j db") (simp_all only: option.map abs)
  then show ?thesis by (rule ext)
qed

lemma retry_dead_job_evolves:
  assumes ok: "retry_dead_job now i mx db = Inr (res, db')"
  shows "evolves (abs_db db j) (abs_db db' j)"
  unfolding retry_dead_job_Inr(2) [OF ok]
proof (rule evolves_map)
  fix r assume r: "r \<in> set (jobs db)"
  show "(if dead_job i r then revive_row now mx r else r) = r
      \<or> legal (abs_job r) (abs_job (if dead_job i r then revive_row now mx r else r))"
  proof (cases "dead_job i r")
    case True
    moreover have "abs_phase r = Buried" using True by (simp add: dead_job_def abs_phase_def)
    ultimately show ?thesis using retry_dead_job_Inr(3) [OF ok r True]
      by (simp add: abs_job_def finished_rows_phase)
  qed simp
qed (simp add: revive_row_simps)

text \<open>A claim is one legal step per job, although its transaction writes some rows twice over.\<close>

lemma running_token_issued:
  assumes inv: "db_inv db" and r: "r \<in> set (jobs db)" "status r = as_db_str Running"
  shows "\<exists>t. lease_token r = Some t \<and> t \<in> issued_tokens db"
proof -
  have "lease_token r \<noteq> None" "attempts_of (jid r) db \<noteq> []"
    "at_lease_token (last (attempts_of (jid r) db)) = lease_token r"
    using db_inv_job [OF inv r(1)] r(2) by (auto simp: job_ok_def job_checks_def trail_ok_def)
  moreover have "last (attempts_of (jid r) db) \<in> set (job_attempts db)"
    using last_in_set [OF calculation(2)] by (simp add: attempts_of_def)
  ultimately show ?thesis by (force simp: issued_tokens_def image_iff)
qed

lemma claimed_db_jobs:
  "jobs (claimed_db now locked tok worker limit lease db) =
     map (\<lambda>r. if jid r \<in> claimed_ids now locked limit db
              then claim_row now lease (tok (jid r)) (cleaned_row now locked r)
              else cleaned_row now locked r) (jobs db)"
  by (simp add: claimed_db_def Let_def comp_def)

lemma cleaned_claimable:
  assumes "claimable now (cleaned_row now locked r)"
  shows "cleaned_row now locked r = r"
  using assms
  by (auto simp: cleaned_row_def claimable_def due_pending_def expired_running_def exhaust_row_def
      split: if_splits)

lemma claimed_is_claimable:
  assumes "db_inv db" "r \<in> set (jobs db)" "jid r \<in> claimed_ids now locked limit db"
  shows "claimable now r" "cleaned_row now locked r = r" "\<not> locked (jid r)"
proof -
  have "cleaned_row now locked r \<in> set (jobs (cleaned_db now locked db))" using assms(2) by simp
  from claimed_ids_mem [OF assms(1) this] assms(3)
  have c: "claimable now (cleaned_row now locked r)" "\<not> locked (jid r)" by simp_all
  then show "cleaned_row now locked r = r" "\<not> locked (jid r)" by (simp_all add: cleaned_claimable)
  with c(1) show "claimable now r" by simp
qed

lemma claim_evolves:
  assumes inv: "db_inv db" and fresh: "fresh_tokens tok db"
  shows "evolves (abs_db db i) (abs_db (claimed_db now locked tok worker limit lease db) i)"
proof -
  let ?h = "\<lambda>r. if jid r \<in> claimed_ids now locked limit db
              then claim_row now lease (tok (jid r)) (cleaned_row now locked r)
              else cleaned_row now locked r"
  have step: "?h r = r \<or> legal (abs_job r) (abs_job (?h r))" if r: "r \<in> set (jobs db)" for r
  proof (cases "jid r \<in> claimed_ids now locked limit db")
    case True
    note c = claimed_is_claimable [OF inv r True]
    show ?thesis
    proof (cases "status r = as_db_str Running")
      case run: True
      obtain t where t: "lease_token r = Some t" "t \<in> issued_tokens db"
        using running_token_issued [OF inv r run] by blast
      have "tok (jid r) \<notin> issued_tokens db" using fresh r by (auto simp: fresh_tokens_def)
      with t c run True show ?thesis
        by (auto simp: abs_job_def finished_rows_phase abs_phase_def [of r] claimable_def)
    next
      case False
      with c(1) have "status r = as_db_str Pending" "attempts r < max_attempts r"
        by (auto simp: claimable_def due_pending_def expired_running_def)
      with c True show ?thesis by (simp add: abs_job_def finished_rows_phase abs_phase_def [of r])
    qed
  next
    case False
    have "cleaned_row now locked r = r \<or> legal (abs_job r) (abs_job (cleaned_row now locked r))"
      by (auto simp: cleaned_row_def exhausted_def expired_running_def abs_job_def finished_rows_phase
          abs_phase_def [of r])
    with False show ?thesis by simp
  qed
  have "jid (?h r) = jid r" for r by simp
  then have "evolves (abs_db db i) (abs_db (db\<lparr>jobs := map ?h (jobs db)\<rparr>) i)"
    using step by (rule evolves_map)
  moreover have "abs_db (claimed_db now locked tok worker limit lease db) = abs_db (db\<lparr>jobs := map ?h (jobs db)\<rparr>)"
    by (intro abs_db_jobs) (simp add: claimed_db_jobs)
  ultimately show ?thesis by simp
qed

subsection \<open>Rows before and after a claim\<close>

lemma claimed_row_before:
  assumes inv: "db_inv db" and c: "c \<in> set (claimed_jobs now locked tok limit lease db)"
  obtains r where "r \<in> set (jobs db)" "claimable now r" "\<not> locked (jid r)" "jid r \<in> claimed_ids now locked limit db"
    "cj_job c = claim_row now lease (tok (jid r)) r" "cj_attempt_number c = attempts r + 1"
    "cj_was_reclaimed c \<longleftrightarrow> status r = as_db_str Running"
proof -
  obtain q where q: "q \<in> set (jobs (cleaned_db now locked db))" "jid q \<in> claimed_ids now locked limit db"
    "c = \<lparr>cj_job = claim_row now lease (tok (jid q)) q, cj_attempt_number = attempts q + 1,
          cj_was_reclaimed = (status q = as_db_str Running)\<rparr>"
    using c unfolding claimed_jobs_def by (auto simp del: cleaned_db_frame)
  obtain r where r: "r \<in> set (jobs db)" "q = cleaned_row now locked r" using q(1) by auto
  then have ids: "jid r \<in> claimed_ids now locked limit db" using q(2) by simp
  note cl = claimed_is_claimable [OF inv r(1) ids]
  with that [OF r(1) cl(1,3) ids] q(3) r(2) show thesis by simp
qed

lemma claimed_ids_iff:
  assumes inv: "db_inv db"
  shows "i \<in> (\<lambda>c. jid (cj_job c)) ` set (claimed_jobs now locked tok limit lease db)
    \<longleftrightarrow> i \<in> claimed_ids now locked limit db"
proof
  assume "i \<in> (\<lambda>c. jid (cj_job c)) ` set (claimed_jobs now locked tok limit lease db)"
  then obtain c where c: "c \<in> set (claimed_jobs now locked tok limit lease db)" "i = jid (cj_job c)" by auto
  from claimed_row_before [OF inv c(1)] c(2) show "i \<in> claimed_ids now locked limit db" by (metis claim_row_simps(1))
next
  assume i: "i \<in> claimed_ids now locked limit db"
  then obtain r where "r \<in> set (jobs (cleaned_db now locked db))" "jid r = i"
    unfolding claimed_ids_def using due_rows_mem [of _ now locked limit "cleaned_db now locked db"] by blast
  with i show "i \<in> (\<lambda>c. jid (cj_job c)) ` set (claimed_jobs now locked tok limit lease db)"
    unfolding claimed_jobs_def by (force simp del: cleaned_db_frame)
qed

lemma claimed_owner:
  assumes inv: "db_inv db" and r: "r \<in> set (jobs db)" "jid r \<in> claimed_ids now locked limit db"
  shows "claim_row now lease (tok (jid r)) r \<in> set (jobs (claimed_db now locked tok worker limit lease db))"
    "owns (jid r) (tok (jid r)) (claimed_db now locked tok worker limit lease db)"
proof -
  show mem: "claim_row now lease (tok (jid r)) r \<in> set (jobs (claimed_db now locked tok worker limit lease db))"
    using r claimed_is_claimable(2) [OF inv r] by (force simp: claimed_db_jobs)
  show "owns (jid r) (tok (jid r)) (claimed_db now locked tok worker limit lease db)"
    unfolding owns_def by (rule bexI [OF _ mem]) (simp add: holds_lease_def)
qed

lemma unclaimed_row:
  assumes "r \<in> set (jobs db)" "jid r \<notin> claimed_ids now locked limit db"
  shows "cleaned_row now locked r \<in> set (jobs (claimed_db now locked tok worker limit lease db))"
  using assms by (force simp: claimed_db_jobs)

lemma claimed_trail:
  assumes inv: "db_inv db" and r: "r \<in> set (jobs db)"
  shows "attempts_of (jid r) (claimed_db now locked tok worker limit lease db) =
    cleaned_trail now r (attempts_of (jid r) db) @
      (if jid r \<in> claimed_ids now locked limit db
       then [new_attempt now worker (claim_row now lease (tok (jid r)) (cleaned_row now locked r))] else [])"
proof -
  have "cleaned_row now locked r \<in> set (jobs (cleaned_db now locked db))" using r by simp
  from claimed_attempts_of [OF inv this] attempts_of_cleaned [OF inv r] show ?thesis by simp
qed

lemma claim_Inr:
  assumes "db_inv db" "claim_pending_jobs now locked tok worker limit lease db = Inr (cs, db')"
  shows "db_up db" "0 \<le> limit" "cs = claimed_jobs now locked tok (nat limit) lease db"
    "db' = claimed_db now locked tok worker (nat limit) lease db"
proof -
  show up: "db_up db" using assms(2) by (auto simp: claim_pending_jobs_def query_def split: if_splits)
  show lim: "0 \<le> limit"
    using assms(2) up bury_exhausted_result [OF assms(1), of now locked]
    by (auto simp: claim_pending_jobs_def query_def split: if_splits)
  show "cs = claimed_jobs now locked tok (nat limit) lease db"
    "db' = claimed_db now locked tok worker (nat limit) lease db"
    using claim_result [OF assms(1) up lim, of now locked tok worker lease] assms(2) by simp_all
qed

text \<open>A claim leaves a job whose lease has not expired as it is.\<close>

lemma leased_row_kept:
  assumes "db_inv db" "claim_pending_jobs now locked tok worker limit lease db = Inr (cs, db')"
    and "r \<in> set (jobs db)" "status r = as_db_str Running" "lease_expires_at r = Some e" "now < e"
  shows "r \<in> set (jobs db')" "attempts_of (jid r) db' = attempts_of (jid r) db"
    "jid r \<notin> (\<lambda>c. jid (cj_job c)) ` set cs"
proof -
  note res = claim_Inr [OF assms(1,2)]
  have ne: "\<not> expired_running now r" using assms(5,6) by (simp add: expired_running_def)
  then have nc: "\<not> claimable now r" using assms(4) by (simp add: claimable_def due_pending_def)
  then have ids: "jid r \<notin> claimed_ids now locked (nat limit) db"
    using claimed_is_claimable(1) [OF assms(1,3)] by blast
  have same: "cleaned_row now locked r = r" "cleaned_trail now r (attempts_of (jid r) db) = attempts_of (jid r) db"
    using ne by (simp_all add: cleaned_row_def exhausted_def cleaned_trail_def)
  show "r \<in> set (jobs db')" using unclaimed_row [OF assms(3) ids] same(1) unfolding res(4) by simp
  show "attempts_of (jid r) db' = attempts_of (jid r) db"
    using claimed_trail [OF assms(1,3)] ids same unfolding res(4) by simp
  show "jid r \<notin> (\<lambda>c. jid (cj_job c)) ` set cs" using ids claimed_ids_iff [OF assms(1)] unfolding res(3) by blast
qed

lemma claim_db_up: "db_inv db \<Longrightarrow> claim_pending_jobs now locked tok worker limit lease db = Inr (cs, db') \<Longrightarrow> db_up db'"
  using claim_Inr(1,4) by (fastforce simp: claimed_db_def Let_def)

end
