(* ===== verification/Interfaces.thy ===== *)
theory Interfaces
  imports Prelude
begin

section \<open>Interfaces between the components\<close>

text \<open>
  The contracts the services rely on, each as a locale whose lemmas are proved once. \<open>once_per_key\<close>: an
  action that takes effect at most once per key, whatever sequence of calls is made and whichever of
  them fail. Two contracts give it: \<open>write_once\<close>, a keyed store whose first write wins (interpreted on the
  charges repository), and \<open>fenced\<close>, an action guarded by a lease (interpreted on the finalisers of the
  job repository). \<open>keyset_pages\<close>: a listing read page by page from a cursor (interpreted on the job
  listing).
\<close>

subsection \<open>Sequences of calls\<close>

text \<open>A call that fails (\<open>None\<close>) leaves the state alone; the outcomes of the others are collected.\<close>

fun run_calls :: "('c \<Rightarrow> 's \<Rightarrow> ('o \<times> 's) option) \<Rightarrow> 'c list \<Rightarrow> 's \<Rightarrow> ('c \<times> 'o) list \<times> 's" where
  "run_calls act [] s = ([], s)"
| "run_calls act (c # cs) s =
     (case act c s of
        None \<Rightarrow> run_calls act cs s
      | Some (out, s') \<Rightarrow> (case run_calls act cs s' of (outs, s'') \<Rightarrow> ((c, out) # outs, s'')))"

definition result_option :: "'e + 'a \<Rightarrow> 'a option" where
  "result_option r = (case r of Inl _ \<Rightarrow> None | Inr x \<Rightarrow> Some x)"

lemma result_option_Some [simp]: "result_option r = Some x \<longleftrightarrow> r = Inr x"
  by (cases r) (auto simp: result_option_def)

subsection \<open>At most one effect per key\<close>

locale once_per_key =
  fixes act :: "'c \<Rightarrow> 's \<Rightarrow> ('o \<times> 's) option"
    and key :: "'c \<Rightarrow> 'k"
    and effect :: "'o \<Rightarrow> bool"
    and spent :: "'k \<Rightarrow> 's \<Rightarrow> bool"
    and good :: "'s \<Rightarrow> bool"
  assumes good_act: "good s \<Longrightarrow> act c s = Some (out, s') \<Longrightarrow> good s'"
    and spent_act: "good s \<Longrightarrow> act c s = Some (out, s') \<Longrightarrow> spent k s \<Longrightarrow> spent k s'"
    and effect_spends: "good s \<Longrightarrow> act c s = Some (out, s') \<Longrightarrow> effect out \<Longrightarrow> spent (key c) s'"
    and spent_blocks: "good s \<Longrightarrow> act c s = Some (out, s') \<Longrightarrow> spent (key c) s \<Longrightarrow> \<not> effect out"
begin

lemma run_good: "good s \<Longrightarrow> good (snd (run_calls act cs s))"
  by (induction cs arbitrary: s) (auto split: option.splits prod.splits dest: good_act, (metis good_act snd_conv)?)

lemma run_spent: "good s \<Longrightarrow> spent k s \<Longrightarrow> spent k (snd (run_calls act cs s))"
  by (induction cs arbitrary: s) (auto split: option.splits prod.splits, metis good_act spent_act snd_conv)

lemma effects_bound:
  assumes "good s"
  shows "length (filter (\<lambda>(c, out). key c = k \<and> effect out) (fst (run_calls act cs s)))
      \<le> (if spent k s then 0 else 1)"
  using assms
proof (induction cs arbitrary: s)
  case (Cons c cs)
  show ?case
  proof (cases "act c s")
    case None
    with Cons show ?thesis by simp
  next
    case (Some p)
    obtain out s' where act: "act c s = Some (out, s')" using Some by (cases p) simp
    obtain outs s'' where run: "run_calls act cs s' = (outs, s'')" by (cases "run_calls act cs s'")
    note bound = Cons.IH [OF good_act [OF Cons.prems act]]
    show ?thesis
    proof (cases "key c = k \<and> effect out")
      case True
      with effect_spends [OF Cons.prems act] spent_blocks [OF Cons.prems act] bound act run
      show ?thesis by auto
    next
      case False
      have "spent k s \<Longrightarrow> spent k s'" by (rule spent_act [OF Cons.prems act])
      with bound have "length (filter (\<lambda>(c, out). key c = k \<and> effect out) outs) \<le> (if spent k s then 0 else 1)"
        using run by (cases "spent k s"; cases "spent k s'") auto
      with False act run show ?thesis by auto
    qed
  qed
qed simp

lemma at_most_one_effect:
  "good s \<Longrightarrow> length (filter (\<lambda>(c, out). key c = k \<and> effect out) (fst (run_calls act cs s))) \<le> 1"
  using effects_bound [of s k cs] by (auto split: if_splits)

lemma no_effect_when_spent:
  assumes "good s" "spent k s" "(c, out) \<in> set (fst (run_calls act cs s))" "key c = k"
  shows "\<not> effect out"
proof -
  have "filter (\<lambda>(c, out). key c = k \<and> effect out) (fst (run_calls act cs s)) = []"
    using effects_bound [OF assms(1), of k cs] assms(2) by simp
  with assms(3,4) show ?thesis by (auto simp: filter_empty_conv)
qed

end

subsection \<open>A keyed store whose first write wins\<close>

locale write_once =
  fixes put :: "'c \<Rightarrow> 's \<Rightarrow> ('o \<times> 's) option"
    and get :: "'k \<Rightarrow> 's \<Rightarrow> 'p option"
    and key :: "'c \<Rightarrow> 'k"
    and val :: "'c \<Rightarrow> 'p"
    and created :: "'o \<Rightarrow> bool"
  assumes put_absent: "put c s = Some (out, s') \<Longrightarrow> get (key c) s = None \<Longrightarrow>
      created out \<and> get (key c) s' = Some (val c)"
    and put_present: "put c s = Some (out, s') \<Longrightarrow> get (key c) s = Some p \<Longrightarrow> \<not> created out \<and> s' = s"
    and put_frame: "put c s = Some (out, s') \<Longrightarrow> k \<noteq> key c \<Longrightarrow> get k s' = get k s"
begin

lemma put_keeps: "put c s = Some (out, s') \<Longrightarrow> get k s = Some p \<Longrightarrow> get k s' = Some p"
  by (metis put_frame put_present)

lemma run_keeps: "get k s = Some p \<Longrightarrow> get k (snd (run_calls put cs s)) = Some p"
proof (induction cs arbitrary: s)
  case (Cons c cs)
  then show ?case by (auto split: option.splits prod.splits) (metis put_keeps snd_conv)
qed simp

lemma stored_after_success: "put c s = Some (out, s') \<Longrightarrow> \<exists>p. get (key c) s' = Some p"
  by (metis not_Some_eq put_absent put_present)

text \<open>The first call with the key that goes through decides what is stored for good.\<close>

lemma first_write_wins:
  assumes "get k s = None" "fst (run_calls put cs s) = (c, out) # outs" "key c = k"
  shows "get k (snd (run_calls put cs s)) = Some (val c) \<and> created out"
  using assms
proof (induction cs)
  case (Cons d cs)
  show ?case
  proof (cases "put d s")
    case None
    with Cons show ?thesis by simp
  next
    case (Some p)
    obtain out' s' where put: "put d s = Some (out', s')" using Some by (cases p) simp
    with Cons.prems have "d = c" "out' = out" by (auto split: prod.splits)
    moreover from put_absent [OF put] calculation Cons.prems have "created out" "get k s' = Some (val c)" by auto
    ultimately show ?thesis using run_keeps [of k s' "val c" cs] put by (auto split: prod.splits)
  qed
qed simp

end

sublocale write_once \<subseteq> writes: once_per_key put key created "\<lambda>k s. get k s \<noteq> None" "\<lambda>s. True"
proof
  fix s c out s' k
  assume put: "put c s = Some (out, s')"
  show "get k s \<noteq> None \<Longrightarrow> get k s' \<noteq> None" using put_keeps [OF put] by blast
  show "get (key c) s' \<noteq> None" using stored_after_success [OF put] by blast
  show "get (key c) s \<noteq> None \<Longrightarrow> \<not> created out" using put_present [OF put] by blast
qed simp

subsection \<open>An action guarded by a lease\<close>

locale fenced =
  fixes act :: "'c \<Rightarrow> 's \<Rightarrow> (bool \<times> 's) option"
    and lease :: "'c \<Rightarrow> 'l"
    and holds :: "'l \<Rightarrow> 's \<Rightarrow> bool"
    and good :: "'s \<Rightarrow> bool"
  assumes act_good: "good s \<Longrightarrow> act c s = Some (b, s') \<Longrightarrow> good s'"
    and act_owned: "good s \<Longrightarrow> act c s = Some (b, s') \<Longrightarrow> holds (lease c) s \<Longrightarrow> b \<and> \<not> holds (lease c) s'"
    and act_stale: "good s \<Longrightarrow> act c s = Some (b, s') \<Longrightarrow> \<not> holds (lease c) s \<Longrightarrow> \<not> b \<and> s' = s"
    and act_grants_none: "good s \<Longrightarrow> act c s = Some (b, s') \<Longrightarrow> holds l s' \<Longrightarrow> holds l s"
begin

lemma act_reports: "good s \<Longrightarrow> act c s = Some (b, s') \<Longrightarrow> b \<longleftrightarrow> holds (lease c) s"
  using act_owned act_stale by blast

lemma stale_run:
  assumes "good s" "\<And>c. c \<in> set cs \<Longrightarrow> \<not> holds (lease c) s"
  shows "snd (run_calls act cs s) = s"
  using assms(2)
proof (induction cs)
  case (Cons c cs)
  then show ?case using act_stale [OF assms(1)] by (fastforce split: option.splits prod.splits)
qed simp

end

sublocale fenced \<subseteq> leases: once_per_key act lease "\<lambda>b. b" "\<lambda>l s. \<not> holds l s" good
proof
  fix s c out s' k
  assume *: "good s" "act c s = Some (out, s')"
  show "good s'" by (rule act_good [OF *])
  show "\<not> holds k s \<Longrightarrow> \<not> holds k s'" using act_grants_none [OF *] by blast
  show "out \<Longrightarrow> \<not> holds (lease c) s'" using act_owned [OF *] act_stale [OF *] by blast
  show "\<not> holds (lease c) s \<Longrightarrow> \<not> out" using act_stale [OF *] by blast
qed

subsection \<open>Listing page by page\<close>

text \<open>A client follows the cursor of the last item for as long as pages are full.\<close>

fun read_pages :: "(nat \<Rightarrow> 'c option \<Rightarrow> 'a list) \<Rightarrow> ('a \<Rightarrow> 'c) \<Rightarrow> nat \<Rightarrow> nat \<Rightarrow> 'c option \<Rightarrow> 'a list" where
  "read_pages page key 0 n after = []"
| "read_pages page key (Suc fuel) n after =
     (let p = page n after
      in if p \<noteq> [] \<and> length p = n then p @ read_pages page key fuel n (Some (key (last p))) else p)"

locale keyset_pages =
  fixes page :: "'s \<Rightarrow> nat \<Rightarrow> 'c :: linorder option \<Rightarrow> 'a list"
    and key :: "'a \<Rightarrow> 'c"
    and listing :: "'s \<Rightarrow> 'a list"
    and good :: "'s \<Rightarrow> bool"
  assumes listing_sorted: "good s \<Longrightarrow> sorted_wrt (\<lambda>x y. key x < key y) (listing s)"
    and page_eq: "good s \<Longrightarrow> page s n after =
      take n (filter (\<lambda>x. case after of None \<Rightarrow> True | Some c \<Rightarrow> c < key x) (listing s))"
begin

lemma filter_after_drop:
  assumes "good s" "m < length (listing s)"
  shows "filter (\<lambda>x. key (listing s ! m) < key x) (listing s) = drop (Suc m) (listing s)"
proof -
  note srt = listing_sorted [OF assms(1)]
  let ?xs = "listing s"
  have split: "?xs = take (Suc m) ?xs @ drop (Suc m) ?xs" by simp
  have "\<not> key (?xs ! m) < key x" if "x \<in> set (take (Suc m) ?xs)" for x
  proof -
    from that obtain i where i: "i < Suc m" "i < length ?xs" "x = ?xs ! i" by (auto simp: in_set_conv_nth)
    show ?thesis
    proof (cases "i = m")
      case False
      then show ?thesis using i sorted_wrt_nth_less [OF srt, of i m] assms(2) by auto
    qed (use i in simp)
  qed
  then have 1: "filter (\<lambda>x. key (?xs ! m) < key x) (take (Suc m) ?xs) = []" by (simp add: filter_empty_conv)
  have "key (?xs ! m) < key x" if "x \<in> set (drop (Suc m) ?xs)" for x
  proof -
    from that obtain j where "j < length ?xs - Suc m" "x = ?xs ! (Suc m + j)" by (auto simp: in_set_conv_nth)
    then show ?thesis using sorted_wrt_nth_less [OF srt, of m "Suc m + j"] by simp
  qed
  then have 2: "filter (\<lambda>x. key (?xs ! m) < key x) (drop (Suc m) ?xs) = drop (Suc m) ?xs"
    by (simp add: filter_id_conv)
  show ?thesis by (subst split, simp only: filter_append 1 2) simp
qed

lemma read_from:
  assumes "good s" "1 \<le> n" "length (drop m (listing s)) < fuel * n"
    "\<And>k. page s k after = take k (drop m (listing s))"
  shows "read_pages (page s) key fuel n after = drop m (listing s)"
  using assms(3,4)
proof (induction fuel arbitrary: m after)
  case (Suc fuel)
  let ?xs = "listing s" and ?p = "page s n after"
  show ?case
  proof (cases "?p \<noteq> [] \<and> length ?p = n")
    case True
    then have long: "n \<le> length (drop m ?xs)" using Suc.prems(2) by (auto simp: min_def split: if_splits)
    let ?l = "m + n - 1"
    have l: "?l < length ?xs" using long assms(2) by simp
    have lastp: "last ?p = ?xs ! ?l"
      using True long assms(2) Suc.prems(2) by (simp add: last_conv_nth)
    have "page s k (Some (key (last ?p))) = take k (drop (m + n) ?xs)" for k
      using page_eq [OF assms(1), of k "Some (key (last ?p))"] filter_after_drop [OF assms(1) l] assms(2) lastp
      by simp
    then have "read_pages (page s) key fuel n (Some (key (last ?p))) = drop (m + n) ?xs"
      using Suc.prems(1) long by (intro Suc.IH) simp_all
    moreover have "drop m ?xs = take n (drop m ?xs) @ drop (m + n) ?xs"
      by (metis append_take_drop_id drop_drop add.commute)
    ultimately show ?thesis using True Suc.prems(2) by (simp add: Let_def)
  next
    case False
    then have "length ?p < n \<or> ?p = []" using Suc.prems(2) by fastforce
    then have whole: "?p = drop m ?xs" using Suc.prems(2) assms(2) by auto
    have "read_pages (page s) key (Suc fuel) n after = ?p"
      using False by (simp only: read_pages.simps Let_def if_False)
    then show ?thesis unfolding whole .
  qed
qed simp

lemma read_all:
  assumes "good s" "1 \<le> n" "length (listing s) < fuel * n"
  shows "read_pages (page s) key fuel n None = listing s"
  using read_from [of s n 0 fuel None] page_eq [OF assms(1)] assms by simp

end

end
