(* ===== verification/JobsFencing.thy ===== *)
theory JobsFencing
  imports JobMachine Interfaces
begin

section \<open>Fencing: the finalisers as a guarded action\<close>

text \<open>
  The three finalisers under one dispatcher, as the model's instance of \<open>fenced\<close>: a call reports success
  exactly when its token is the one the job is running under, and using it ends the lease.
\<close>

datatype verdict =
    Success int
  | Retry rat string string int
  | Bury string string int

record finalize_call =
  fc_now :: timestamp
  fc_lease :: "uuid \<times> uuid"
  fc_verdict :: verdict

fun finalize :: "timestamp \<Rightarrow> uuid \<Rightarrow> uuid \<Rightarrow> verdict \<Rightarrow> 'v db \<Rightarrow> (bool, 'v) repo_result" where
  "finalize now i t (Success ms) = finalize_success now i t ms"
| "finalize now i t (Retry d code msg ms) = finalize_retry_scheduled now i t d code msg ms"
| "finalize now i t (Bury code msg ms) = finalize_dead now i t code msg ms"

fun verdict_row :: "timestamp \<Rightarrow> verdict \<Rightarrow> 'v job_row \<Rightarrow> 'v job_row" where
  "verdict_row now (Success ms) = succeed_row now"
| "verdict_row now (Retry d code msg ms) = retry_row now d code msg"
| "verdict_row now (Bury code msg ms) = dead_row now code msg"

fun verdict_attempt :: "timestamp \<Rightarrow> verdict \<Rightarrow> attempt_row \<Rightarrow> attempt_row" where
  "verdict_attempt now (Success ms) = succeed_attempt now ms"
| "verdict_attempt now (Retry d code msg ms) = retry_attempt now code msg (round_f64_to_i64 (d * 1000)) ms"
| "verdict_attempt now (Bury code msg ms) = dead_attempt now code msg ms"

text \<open>The texts of a verdict that the tables can hold.\<close>

fun verdict_texts_ok :: "verdict \<Rightarrow> bool" where
  "verdict_texts_ok (Success ms) = True"
| "verdict_texts_ok (Retry d code msg ms) = (text_ok code \<and> text_ok msg)"
| "verdict_texts_ok (Bury code msg ms) = (text_ok code \<and> text_ok msg)"

lemma finalize_eq:
  "finalize now i t v db =
     (if verdict_texts_ok v then finalize_with (verdict_row now v) (verdict_attempt now v) i t db
      else query db (Inl (Database InvalidText)))"
  by (cases v) (simp_all add: finalize_eqs)

lemma closing_verdict: "closing (verdict_row now v) (verdict_attempt now v)"
  by (cases v) (simp_all add: closing_success closing_retry closing_dead)

lemma verdict_phase:
  "abs_phase (verdict_row now v r) \<in> {Waiting, Finished, Buried} \<and> max_attempts (verdict_row now v r) = max_attempts r"
  by (cases v) (simp_all add: finished_rows_phase)

definition verdict_db :: "timestamp \<Rightarrow> uuid \<Rightarrow> uuid \<Rightarrow> verdict \<Rightarrow> 'v db \<Rightarrow> 'v db" where
  "verdict_db now i t v db =
     update_attempts (attempt_of_lease i t) (verdict_attempt now v)
       (db\<lparr>jobs := map (\<lambda>r. if holds_lease i t r then verdict_row now v r else r) (jobs db)\<rparr>)"

lemma finalize_owned:
  "db_inv db \<Longrightarrow> owns i t db \<Longrightarrow> db_up db \<Longrightarrow> verdict_texts_ok v \<Longrightarrow> finalize now i t v db = Inr (True, verdict_db now i t v db)"
  by (simp add: finalize_eq verdict_db_def finalize_with_owned [OF _ closing_verdict])

lemma finalize_stale: "\<not> owns i t db \<Longrightarrow> db_up db \<Longrightarrow> verdict_texts_ok v \<Longrightarrow> finalize now i t v db = Inr (False, db)"
  by (simp add: finalize_eq finalize_with_stale)

lemma finalize_refused: "\<not> verdict_texts_ok v \<Longrightarrow> db_up db \<Longrightarrow> finalize now i t v db = Inl (Database InvalidText)"
  by (simp add: finalize_eq query_def)

lemma finalize_down: "\<not> db_up db \<Longrightarrow> finalize now i t v db = Inl (Database Unreachable)"
  by (simp add: finalize_eq finalize_with_down query_def)

lemma finalize_Inr_texts: "finalize now i t v db = Inr (b, db') \<Longrightarrow> db_up db \<and> verdict_texts_ok v"
  using finalize_refused finalize_down by (cases "db_up db"; cases "verdict_texts_ok v") fastforce+

lemma finalize_preserves: "db_inv db \<Longrightarrow> finalize now i t v db = Inr (b, db') \<Longrightarrow> db_inv db'"
  using finalize_with_preserves [OF _ closing_verdict] finalize_Inr_texts by (fastforce simp: finalize_eq)

lemma finalize_step_evolves: "db_inv db \<Longrightarrow> finalize now i t v db = Inr (b, db') \<Longrightarrow> evolves (abs_db db j) (abs_db db' j)"
  using finalize_with_evolves [OF _ closing_verdict verdict_phase] finalize_Inr_texts by (fastforce simp: finalize_eq)

lemma finalize_Inr_cases [consumes 2, case_names owned stale]:
  assumes "db_inv db" "finalize now i t v db = Inr (b, db')"
  obtains (owned) "db_up db" "owns i t db" "b" "db' = verdict_db now i t v db"
    | (stale) "db_up db" "\<not> owns i t db" "\<not> b" "db' = db"
proof (cases "db_up db")
  case True
  have texts: "verdict_texts_ok v" using finalize_Inr_texts [OF assms(2)] by simp
  show thesis
  proof (cases "owns i t db")
    case own: True
    show thesis using owned True own finalize_owned [OF assms(1) own True texts] assms(2) by simp
  next
    case False
    show thesis using stale True False finalize_stale [OF False True texts] assms(2) by simp
  qed
qed (use finalize_down [of db now i t v] assms in simp)

lemma verdict_db_frame [simp]:
  "jobs (verdict_db now i t v db) = map (\<lambda>r. if holds_lease i t r then verdict_row now v r else r) (jobs db)"
  "charges (verdict_db now i t v db) = charges db" "db_up (verdict_db now i t v db) = db_up db"
  by (simp_all add: verdict_db_def)

lemma verdict_not_running: "\<not> holds_lease j u (verdict_row now v r)"
  using closing_simps(2) [OF closing_verdict] by (auto simp: holds_lease_def)

lemma owns_verdict_db:
  assumes "db_inv db" "owns i t db"
  shows "owns j u (verdict_db now i t v db) \<longleftrightarrow> owns j u db \<and> j \<noteq> i"
proof -
  obtain r where r: "r \<in> set (jobs db)" "holds_lease i t r" using assms(2) by (auto simp: owns_def)
  have same: "holds_lease i t s" if "s \<in> set (jobs db)" "jid s = i" for s
    using db_inv_same_id [OF assms(1) r(1) that(1)] r(2) that(2) by (simp add: holds_lease_def)
  let ?h = "\<lambda>s. if holds_lease i t s then verdict_row now v s else s"
  have h: "holds_lease j u (?h s) \<longleftrightarrow> holds_lease j u s \<and> j \<noteq> i" if "s \<in> set (jobs db)" for s
    using same [OF that] verdict_not_running [of j u now v s] by (cases "holds_lease i t s") (auto simp: holds_lease_def)
  have "owns j u (verdict_db now i t v db) \<longleftrightarrow> (\<exists>s \<in> set (jobs db). holds_lease j u (?h s))"
    by (simp only: owns_def verdict_db_frame set_map bex_simps)
  with h show ?thesis by (simp only: owns_def) blast
qed

definition finalize_act :: "finalize_call \<Rightarrow> 'v db \<Rightarrow> (bool \<times> 'v db) option" where
  "finalize_act c db =
     result_option (finalize (fc_now c) (fst (fc_lease c)) (snd (fc_lease c)) (fc_verdict c) db)"

definition holds :: "uuid \<times> uuid \<Rightarrow> 'v db \<Rightarrow> bool" where
  "holds l db \<longleftrightarrow> owns (fst l) (snd l) db"

interpretation finalizers: fenced finalize_act fc_lease holds db_inv
proof
  fix c :: finalize_call and s :: "'v db" and b s' l
  assume inv: "db_inv s" and act: "finalize_act c s = Some (b, s')"
  obtain i t where it: "fc_lease c = (i, t)" by (cases "fc_lease c")
  have fin: "finalize (fc_now c) i t (fc_verdict c) s = Inr (b, s')"
    using act by (simp add: finalize_act_def it)
  show "db_inv s'" by (rule finalize_preserves [OF inv fin])
  show "b \<and> \<not> holds (fc_lease c) s'" if "holds (fc_lease c) s"
    using inv fin
  proof (cases rule: finalize_Inr_cases)
    case owned
    then show ?thesis using owns_verdict_db [OF inv owned(2)] it by (simp add: holds_def)
  qed (use that it in \<open>simp add: holds_def\<close>)
  show "\<not> b \<and> s' = s" if "\<not> holds (fc_lease c) s"
    using inv fin by (cases rule: finalize_Inr_cases) (use that it in \<open>simp_all add: holds_def\<close>)
  show "holds l s" if "holds l s'"
    using inv fin
  proof (cases rule: finalize_Inr_cases)
    case owned
    then show ?thesis using that owns_verdict_db [OF inv] by (simp add: holds_def)
  qed (use that in simp)
qed

end
