(* ===== verification/Retry.thy ===== *)
theory Retry
  imports Prelude
begin

section \<open>Retry backoff: reliableq-core retry\<close>

text \<open>
  \<open>src/crates/reliableq-core/src/retry.rs\<close>: the capped exponential backoff with full jitter. The random
  number generator of the \<open>rand\<close> package is a parameter that threads its state; what the code relies on is
  \<open>gen_range_within\<close>, that \<open>gen_range (0..=n)\<close> returns a number up to \<open>n\<close>.
\<close>

record retry_policy =
  base_delay :: duration
  multiplier :: nat
  max_delay :: duration

definition default_policy :: retry_policy where
  "default_policy =
     \<lparr>base_delay = from_secs 1, multiplier = 2, max_delay = from_secs 60\<rparr>"

text \<open>The loop of \<open>saturating_pow\<close>, with its early exit once the product sticks at \<open>u32::MAX\<close>.\<close>

fun saturating_pow_loop :: "nat \<Rightarrow> nat \<Rightarrow> nat \<Rightarrow> nat" where
  "saturating_pow_loop base 0 result = result"
| "saturating_pow_loop base (Suc n) result =
     (let result' = saturating_mul_u32 result base
      in if result' = u32_max then result' else saturating_pow_loop base n result')"

definition saturating_pow :: "nat \<Rightarrow> nat \<Rightarrow> nat" where
  "saturating_pow base exponent = saturating_pow_loop base exponent 1"

definition cap :: "retry_policy \<Rightarrow> nat \<Rightarrow> duration" where
  "cap p attempt_number =
     (let exponent = attempt_number - 1;
          multiplier_pow = saturating_pow (multiplier p) exponent;
          scaled = duration_saturating_mul (base_delay p) multiplier_pow
      in min scaled (max_delay p))"

definition delay :: "('g \<Rightarrow> nat \<Rightarrow> nat \<times> 'g) \<Rightarrow> retry_policy \<Rightarrow> nat \<Rightarrow> 'g \<Rightarrow> duration \<times> 'g" where
  "delay gen_range p attempt_number rng =
     (let c = cap p attempt_number
      in if is_zero c then (0, rng)
         else let cap_millis = min (as_millis c) u64_max;
                  (jitter_millis, rng') = gen_range rng cap_millis
              in (from_millis jitter_millis, rng'))"

definition gen_range_within :: "('g \<Rightarrow> nat \<Rightarrow> nat \<times> 'g) \<Rightarrow> bool" where
  "gen_range_within gen_range \<longleftrightarrow> (\<forall>g n. fst (gen_range g n) \<le> n)"

subsection \<open>The saturating power\<close>

lemma one_le_u32_max: "1 \<le> u32_max"
  by (simp add: u32_max_def)

text \<open>
  The loop computes the exact power cut off at \<open>u32::MAX\<close>; leaving early is harmless because a
  positive base can only make the product grow.
\<close>

lemma saturating_pow_loop_eq:
  assumes "1 \<le> base" "1 \<le> result" "result \<le> u32_max"
  shows "saturating_pow_loop base n result = min (result * base ^ n) u32_max"
  using assms
proof (induction n arbitrary: result)
  case (Suc n)
  let ?r = "saturating_mul_u32 result base"
  show ?case
  proof (cases "?r = u32_max")
    case True
    then have "u32_max \<le> result * base" by (simp add: saturating_mul_u32_def)
    moreover have "result * base \<le> result * base ^ Suc n"
      using Suc.prems(1) by (simp add: self_le_power mult_le_mono)
    ultimately have "u32_max \<le> result * base ^ Suc n" by (rule order_trans)
    then have "min (result * base ^ Suc n) u32_max = u32_max" by (rule min_absorb2)
    with True show ?thesis by (simp add: Let_def)
  next
    case False
    then have le: "result * base \<le> u32_max"
      by (auto simp: saturating_mul_u32_def min_def split: if_splits)
    then have r: "?r = result * base" by (simp add: saturating_mul_u32_def)
    have "1 \<le> ?r" "?r \<le> u32_max"
      using Suc.prems(1,2) r False by (auto simp: saturating_mul_u32_def one_le_mult_iff)
    from Suc.IH [OF Suc.prems(1) this] False show ?thesis
      by (simp add: r mult.assoc)
  qed
qed simp

lemma saturating_pow_eq: "1 \<le> base \<Longrightarrow> saturating_pow base e = min (base ^ e) u32_max"
  using saturating_pow_loop_eq [of base 1 e] one_le_u32_max by (simp add: saturating_pow_def)

lemma saturating_pow_pos: "1 \<le> base \<Longrightarrow> 1 \<le> saturating_pow base e"
  using one_le_u32_max by (simp add: saturating_pow_eq)

subsection \<open>The cap\<close>

lemma cap_le_max_delay: "cap p n \<le> max_delay p"
  by (simp add: cap_def Let_def)

lemma min_mult_mono_lemma:
  fixes b :: nat
  assumes "M \<le> b * K"
  shows "min (b * min k K) M = min (b * k) M"
proof (cases "k \<le> K")
  case False
  then have "K \<le> k" by simp
  then have "b * K \<le> b * k" by (rule mult_le_mono2)
  with assms have "M \<le> b * k" by (rule order_trans)
  then have "min (b * k) M = M" by (rule min_absorb2)
  moreover have "min (b * min k K) M = M"
    by (simp only: min_absorb2 [OF \<open>K \<le> k\<close>] min_absorb2 [OF assms])
  ultimately show ?thesis by simp
qed (simp add: min_def)

text \<open>The documented closed form, for policies whose base delay reaches the cap before the factor sticks.\<close>

lemma cap_closed_form:
  assumes "1 \<le> multiplier p" "max_delay p \<le> duration_max"
    and "max_delay p \<le> base_delay p * u32_max"
  shows "cap p n = min (max_delay p) (base_delay p * multiplier p ^ (n - 1))"
proof -
  let ?k = "multiplier p ^ (n - 1)"
  have "cap p n = min (min (base_delay p * min ?k u32_max) duration_max) (max_delay p)"
    using assms(1) by (simp add: cap_def Let_def duration_saturating_mul_def saturating_pow_eq)
  also have "\<dots> = min (base_delay p * min ?k u32_max) (max_delay p)"
    using assms(2) by (auto simp: min_def)
  also have "\<dots> = min (base_delay p * ?k) (max_delay p)"
    by (rule min_mult_mono_lemma) (rule assms(3))
  finally show ?thesis by (simp add: min.commute)
qed

lemma cap_mono:
  assumes "1 \<le> multiplier p" "m \<le> n"
  shows "cap p m \<le> cap p n"
proof -
  have "multiplier p ^ (m - 1) \<le> multiplier p ^ (n - 1)"
    using assms by (intro power_increasing) auto
  then have "saturating_pow (multiplier p) (m - 1) \<le> saturating_pow (multiplier p) (n - 1)"
    using assms(1) by (simp add: saturating_pow_eq)
  then show ?thesis
    unfolding cap_def Let_def duration_saturating_mul_def
    by (intro min.mono mult_le_mono order_refl)
qed

lemma cap_first_attempt:
  "base_delay p \<le> max_delay p \<Longrightarrow> max_delay p \<le> duration_max \<Longrightarrow> cap p 1 = base_delay p"
  by (simp add: cap_def saturating_pow_def duration_saturating_mul_def)

subsection \<open>The jittered delay\<close>

lemma delay_le_cap:
  assumes "gen_range_within gen"
  shows "fst (delay gen p n rng) \<le> cap p n"
proof (cases "is_zero (cap p n)")
  case False
  let ?m = "min (as_millis (cap p n)) u64_max"
  have "fst (gen rng ?m) \<le> ?m" using assms unfolding gen_range_within_def by blast
  then have "from_millis (fst (gen rng ?m)) \<le> from_millis (as_millis (cap p n))"
    by (intro from_millis_mono) simp
  also have "\<dots> \<le> cap p n" by (rule from_millis_as_millis_le)
  finally show ?thesis using False by (simp add: delay_def Let_def case_prod_beta)
qed (simp add: delay_def)

lemma delay_whole_millis: "\<exists>ms. fst (delay gen p n rng) = from_millis ms"
  by (auto simp: delay_def Let_def case_prod_beta from_millis_def intro: exI [of _ 0])

end
