(* ===== verification/Validation.thy ===== *)
theory Validation
  imports Prelude "HOL-Library.Char_ord"
begin

section \<open>Request validation: reliableq-core validation\<close>

text \<open>
  \<open>src/crates/reliableq-core/src/validation.rs\<close>: the checks shared by submission, execution and the charge
  service. A JSON value is of an arbitrary type \<open>'v\<close>, and \<open>serde_json::from_value\<close> with the derived
  deserialiser of \<open>ChargePayload\<close> is a parameter \<open>from_value\<close> that returns the error's text or the payload.
\<close>

definition max_kind_len :: nat where
  "max_kind_len = 64"

definition max_customer_id_len :: nat where
  "max_customer_id_len = 128"

definition min_max_attempts :: int where
  "min_max_attempts = 1"

definition max_max_attempts :: int where
  "max_max_attempts = 20"

record charge_payload =
  customer_id :: string
  amount_cents :: int
  currency :: string

datatype validation_error =
    EmptyKind
  | KindTooLong
  | InvalidPayloadShape string
  | EmptyCustomerId
  | CustomerIdTooLong
  | NonPositiveAmount
  | InvalidCurrency
  | MaxAttemptsOutOfRange

fun validation_error_text :: "validation_error \<Rightarrow> string" where
  "validation_error_text EmptyKind = ''kind must not be empty''"
| "validation_error_text KindTooLong =
     ''kind must be at most '' @ show_nat max_kind_len @ '' characters''"
| "validation_error_text (InvalidPayloadShape e) =
     ''payload does not match the expected charge shape: '' @ e"
| "validation_error_text EmptyCustomerId = ''payload.customer_id must not be empty''"
| "validation_error_text CustomerIdTooLong =
     ''payload.customer_id must be at most '' @ show_nat max_customer_id_len @ '' characters''"
| "validation_error_text NonPositiveAmount = ''payload.amount_cents must be positive''"
| "validation_error_text InvalidCurrency =
     ''payload.currency must be a three-letter uppercase ISO 4217 code''"
| "validation_error_text MaxAttemptsOutOfRange =
     ''max_attempts must be between '' @ show_int min_max_attempts @ '' and ''
       @ show_int max_max_attempts"

definition validate_kind :: "string \<Rightarrow> validation_error + unit" where
  "validate_kind kind =
     (if trim kind = [] then Inl EmptyKind
      else if length kind > max_kind_len then Inl KindTooLong
      else Inr ())"

definition validate_max_attempts :: "int \<Rightarrow> validation_error + unit" where
  "validate_max_attempts max_attempts =
     (if \<not> (min_max_attempts \<le> max_attempts \<and> max_attempts \<le> max_max_attempts)
      then Inl MaxAttemptsOutOfRange
      else Inr ())"

definition validate_charge_payload :: "charge_payload \<Rightarrow> validation_error + unit" where
  "validate_charge_payload payload =
     (if trim (customer_id payload) = [] then Inl EmptyCustomerId
      else if length (customer_id payload) > max_customer_id_len then Inl CustomerIdTooLong
      else if amount_cents payload \<le> 0 then Inl NonPositiveAmount
      else let is_valid_currency =
                 length (currency payload) = 3 \<and> list_all is_ascii_uppercase (currency payload)
           in if \<not> is_valid_currency then Inl InvalidCurrency else Inr ())"

definition parse_charge_payload ::
    "('v \<Rightarrow> string + charge_payload) \<Rightarrow> 'v \<Rightarrow> validation_error + charge_payload" where
  "parse_charge_payload from_value payload =
     bind_res (map_err InvalidPayloadShape (from_value payload)) (\<lambda>parsed.
     bind_res (validate_charge_payload parsed) (\<lambda>_.
     Inr parsed))"

text \<open>What an accepted payload satisfies, and what the charges table requires of its rows.\<close>

definition valid_payload :: "charge_payload \<Rightarrow> bool" where
  "valid_payload p \<longleftrightarrow>
     trim (customer_id p) \<noteq> [] \<and> length (customer_id p) \<le> 128 \<and> 0 < amount_cents p
     \<and> length (currency p) = 3 \<and> (\<forall>c \<in> set (currency p). CHR ''A'' \<le> c \<and> c \<le> CHR ''Z'')"

lemma is_ascii_uppercase_iff: "is_ascii_uppercase c \<longleftrightarrow> CHR ''A'' \<le> c \<and> c \<le> CHR ''Z''"
  by (simp add: is_ascii_uppercase_def less_eq_char_def)

lemma validate_charge_payload_ok: "validate_charge_payload p = Inr () \<longleftrightarrow> valid_payload p"
  by (auto simp: validate_charge_payload_def valid_payload_def max_customer_id_len_def
      is_ascii_uppercase_iff list_all_iff Let_def)

lemma parse_charge_payload_ok:
  "parse_charge_payload from_value v = Inr p \<longleftrightarrow> from_value v = Inr p \<and> valid_payload p"
  by (auto simp: parse_charge_payload_def res_simps validate_charge_payload_ok)

lemma validate_max_attempts_ok: "validate_max_attempts n = Inr u \<longleftrightarrow> 1 \<le> n \<and> n \<le> 20"
  by (simp add: validate_max_attempts_def min_max_attempts_def max_max_attempts_def)

lemma validate_kind_ok: "validate_kind k = Inr u \<longleftrightarrow> trim k \<noteq> [] \<and> length k \<le> 64"
  by (auto simp: validate_kind_def max_kind_len_def)

end
