(* ===== verification/Worker.thy ===== *)
theory Worker
  imports JobsFencing Retry Validation
begin

section \<open>The worker: reliableq-worker lib and failpoint\<close>

text \<open>
  \<open>src/crates/reliableq-worker/src/lib.rs\<close> and \<open>failpoint.rs\<close>: the charge call, the choice of the finaliser,
  the crash points and the heartbeat. The HTTP client is the parameter \<open>send\<close>: it takes a request and the world (the
  database and whatever else there is) and returns the reply with the world after it, so that everything others do
  during the call is part of it. Metrics are the list of what was recorded. The other parameters are UUID and status
  formatting, JSON decoding and the random generator.
\<close>

subsection \<open>failpoint.rs\<close>

datatype failpoint_name = AfterClaimBeforeEffect | AfterEffectBeforeFinalize | DuringFinalize

type_synonym failpoints = "failpoint_name \<Rightarrow> uuid \<Rightarrow> bool"

definition noop_failpoints :: failpoints where
  "noop_failpoints = (\<lambda>name job_id. False)"

subsection \<open>execute_charge\<close>

record execution_failure =
  ef_class :: failure_class
  ef_code :: string
  ef_message :: string

record charge_post =
  cp_url :: string
  cp_idempotency_key :: string
  cp_request_id :: string
  cp_body :: charge_payload

text \<open>A metric: its name and its labels.\<close>

type_synonym metric = "string \<times> (string \<times> string) list"

type_synonym 'w sender = "charge_post \<Rightarrow> 'w \<Rightarrow> (string + (http_status \<times> string option)) \<times> 'w"

record ('v, 'w, 'g) worker_env =
  we_from_value :: "'v \<Rightarrow> string + charge_payload"
  we_show_uuid :: "uuid \<Rightarrow> string"
  we_show_status :: "http_status \<Rightarrow> string"
  we_send :: "'w sender"
  we_gen_range :: "'g \<Rightarrow> nat \<Rightarrow> nat \<times> 'g"
  we_url :: string
  we_policy :: retry_policy

definition is_success :: "http_status \<Rightarrow> bool" where
  "is_success code \<longleftrightarrow> 200 \<le> code \<and> code \<le> 299"

fun class_label :: "failure_class \<Rightarrow> string" where
  "class_label Transient = ''transient''"
| "class_label Permanent = ''permanent''"
| "class_label Ambiguous = ''ambiguous''"

definition downstream_metric :: "string \<Rightarrow> metric" where
  "downstream_metric result = (''reliableq_downstream_requests_total'', [(''result'', result)])"

definition charge_request :: "('v, 'w, 'g) worker_env \<Rightarrow> uuid \<Rightarrow> charge_payload \<Rightarrow> charge_post" where
  "charge_request env job_id pl =
     \<lparr>cp_url = we_url env @ ''/v1/charges'',
      cp_idempotency_key = charge_idempotency_key (we_show_uuid env) job_id,
      cp_request_id = ''job:'' @ we_show_uuid env job_id,
      cp_body = pl\<rparr>"

text \<open>What is made of the reply.\<close>

definition judge_reply ::
    "('v, 'w, 'g) worker_env \<Rightarrow> string + (http_status \<times> string option) \<Rightarrow> (execution_failure + unit) \<times> metric list" where
  "judge_reply env reply =
     (case reply of
        Inl text \<Rightarrow>
          (Inl \<lparr>ef_class = classify_network_error, ef_code = ''DOWNSTREAM_UNREACHABLE'', ef_message = text\<rparr>,
           [downstream_metric ''unreachable''])
      | Inr (code, body) \<Rightarrow>
          if is_success code then (Inr (), [downstream_metric ''success''])
          else let c = classify_http_status code
               in (Inl \<lparr>ef_class = c, ef_code = ''DOWNSTREAM_REJECTED'',
                        ef_message = ''charge service returned '' @ we_show_status env code @ '': ''
                                     @ (case body of None \<Rightarrow> [] | Some b \<Rightarrow> b)\<rparr>,
                   [downstream_metric (class_label c)]))"

definition execute_charge ::
    "('v, 'w, 'g) worker_env \<Rightarrow> uuid \<Rightarrow> 'v \<Rightarrow> 'w \<Rightarrow> ((execution_failure + unit) \<times> metric list) \<times> 'w" where
  "execute_charge env job_id pl w =
     (case parse_charge_payload (we_from_value env) pl of
        Inl e \<Rightarrow>
          ((Inl \<lparr>ef_class = Permanent, ef_code = ''INVALID_PAYLOAD'', ef_message = validation_error_text e\<rparr>, []), w)
      | Inr charge \<Rightarrow>
          (case we_send env (charge_request env job_id charge) w of
             (reply, w') \<Rightarrow> (judge_reply env reply, w')))"

subsection \<open>execute_and_finalize\<close>

definition duration_ms :: "duration \<Rightarrow> int" where
  "duration_ms elapsed = min (int (as_millis elapsed)) i64_max"

definition dead_reason :: "execution_failure \<Rightarrow> string" where
  "dead_reason f = (if is_retryable (ef_class f) then ''RETRY_BUDGET_EXHAUSTED'' else ef_code f)"

definition attempt_u32 :: "int \<Rightarrow> nat" where
  "attempt_u32 n = (if 0 \<le> n \<and> n \<le> int u32_max then nat n else u32_max)"

text \<open>The finaliser that is called for an outcome, and the one at the \<open>DuringFinalize\<close> crash point.\<close>

definition choose_verdict ::
    "('v, 'w, 'g) worker_env \<Rightarrow> int \<Rightarrow> int \<Rightarrow> duration \<Rightarrow> 'g \<Rightarrow> execution_failure + unit \<Rightarrow> verdict \<times> 'g" where
  "choose_verdict env attempt mx elapsed rng outcome =
     (case outcome of
        Inr u \<Rightarrow> (Success (duration_ms elapsed), rng)
      | Inl f \<Rightarrow>
          if is_retryable (ef_class f) \<and> attempt < mx
          then (case delay (we_gen_range env) (we_policy env) (attempt_u32 attempt) rng of
                  (d, rng') \<Rightarrow> (Retry (as_secs_f64 d) (ef_code f) (ef_message f) (duration_ms elapsed), rng'))
          else (Bury (dead_reason f) (ef_message f) (duration_ms elapsed), rng))"

definition crash_verdict :: "duration \<Rightarrow> execution_failure + unit \<Rightarrow> verdict" where
  "crash_verdict elapsed outcome =
     (case outcome of
        Inr u \<Rightarrow> Success (duration_ms elapsed)
      | Inl f \<Rightarrow> Bury (dead_reason f) (ef_message f) (duration_ms elapsed))"

fun verdict_metrics :: "string \<Rightarrow> verdict \<Rightarrow> metric list" where
  "verdict_metrics k (Success ms) =
     [(''reliableq_job_attempts_total'', [(''kind'', k), (''outcome'', ''SUCCEEDED'')]),
      (''reliableq_job_duration_seconds'', [(''kind'', k), (''outcome'', ''SUCCEEDED'')])]"
| "verdict_metrics k (Retry d code msg ms) =
     [(''reliableq_job_attempts_total'', [(''kind'', k), (''outcome'', ''RETRY_SCHEDULED'')]),
      (''reliableq_retries_scheduled_total'', [(''reason'', code)]),
      (''reliableq_job_duration_seconds'', [(''kind'', k), (''outcome'', ''RETRY_SCHEDULED'')])]"
| "verdict_metrics k (Bury code msg ms) =
     [(''reliableq_job_attempts_total'', [(''kind'', k), (''outcome'', ''DEAD'')]),
      (''reliableq_dead_jobs_total'', [(''reason'', code)]),
      (''reliableq_job_duration_seconds'', [(''kind'', k), (''outcome'', ''DEAD'')])]"

text \<open>How an execution ends, for the properties; the code only logs it.\<close>

datatype ending =
    NoLeaseToken
  | Crashed failpoint_name
  | Finalized verdict bool
  | FinalizeFailed verdict repo_error

definition finish ::
    "timestamp \<Rightarrow> uuid \<Rightarrow> uuid \<Rightarrow> string \<Rightarrow> verdict \<Rightarrow> 'v db \<Rightarrow> (ending \<times> metric list) \<times> 'v db" where
  "finish now i t k v db =
     (case finalize now i t v db of
        Inr (True, db') \<Rightarrow> ((Finalized v True, verdict_metrics k v), db')
      | Inr (False, db') \<Rightarrow> ((Finalized v False, []), db')
      | Inl e \<Rightarrow> ((FinalizeFailed v e, []), db))"

definition finalized_db :: "(bool, 'v) repo_result \<Rightarrow> 'v db \<Rightarrow> 'v db" where
  "finalized_db r db = (case r of Inl e \<Rightarrow> db | Inr (b, db') \<Rightarrow> db')"

definition execute_and_finalize_with_failpoints ::
    "('v, 'v db \<times> 'n, 'g) worker_env \<Rightarrow> failpoints \<Rightarrow> 'v claimed_job \<Rightarrow> timestamp \<Rightarrow> duration \<Rightarrow> 'g
     \<Rightarrow> 'v db \<times> 'n \<Rightarrow> (ending \<times> metric list) \<times> ('v db \<times> 'n) \<times> 'g" where
  "execute_and_finalize_with_failpoints env fp claimed now elapsed rng w =
     (let job = cj_job claimed; attempt = cj_attempt_number claimed
      in case lease_token job of
           None \<Rightarrow> ((NoLeaseToken, []), w, rng)
         | Some token \<Rightarrow>
             if fp AfterClaimBeforeEffect (jid job)
             then ((Crashed AfterClaimBeforeEffect, []), w, rng)
             else
               (case execute_charge env (jid job) (payload job) w of
                  ((outcome, ms), db, n) \<Rightarrow>
                    if (\<exists>u. outcome = Inr u) \<and> fp AfterEffectBeforeFinalize (jid job)
                    then ((Crashed AfterEffectBeforeFinalize, ms), (db, n), rng)
                    else if fp DuringFinalize (jid job)
                    then ((Crashed DuringFinalize, ms),
                          (finalized_db (finalize now (jid job) token (crash_verdict elapsed outcome) db) db, n), rng)
                    else
                      (case choose_verdict env attempt (max_attempts job) elapsed rng outcome of
                         (v, rng') \<Rightarrow>
                           (case finish now (jid job) token (kind job) v db of
                              ((e, fms), db') \<Rightarrow> ((e, ms @ fms), (db', n), rng')))))"

definition execute_and_finalize ::
    "('v, 'v db \<times> 'n, 'g) worker_env \<Rightarrow> 'v claimed_job \<Rightarrow> timestamp \<Rightarrow> duration \<Rightarrow> 'g
     \<Rightarrow> 'v db \<times> 'n \<Rightarrow> (ending \<times> metric list) \<times> ('v db \<times> 'n) \<times> 'g" where
  "execute_and_finalize env claimed = execute_and_finalize_with_failpoints env noop_failpoints claimed"

subsection \<open>The heartbeat\<close>

definition heartbeat_interval :: "duration \<Rightarrow> duration" where
  "heartbeat_interval lease = max (lease div 3) (from_millis 100)"

definition renewal_metric :: "string \<Rightarrow> metric" where
  "renewal_metric result = (''reliableq_lease_renewals_total'', [(''result'', result)])"

text \<open>
  The loop of \<open>spawn_heartbeat\<close>, over the wake-ups before it is aborted: each comes with what the others did to the
  database during the sleep and the time of the renewal. It ends early when the lease is gone.
\<close>

fun heartbeat ::
    "uuid \<Rightarrow> uuid \<Rightarrow> duration \<Rightarrow> (('v db \<Rightarrow> 'v db) \<times> timestamp) list \<Rightarrow> 'v db \<Rightarrow> metric list \<times> 'v db" where
  "heartbeat i t lease [] db = ([], db)"
| "heartbeat i t lease ((others, now) # ticks) db =
     (case renew_lease now i t lease (others db) of
        Inr (True, db') \<Rightarrow> (case heartbeat i t lease ticks db' of (ms, db'') \<Rightarrow> (renewal_metric ''ok'' # ms, db''))
      | Inr (False, db') \<Rightarrow> ([renewal_metric ''lost''], db')
      | Inl e \<Rightarrow>
          (case heartbeat i t lease ticks (others db) of (ms, db'') \<Rightarrow> (renewal_metric ''error'' # ms, db'')))"

subsection \<open>Facts about the charge call\<close>

lemma judge_reply_ok: "fst (judge_reply env reply) = Inr u \<longleftrightarrow> (\<exists>code body. reply = Inr (code, body) \<and> is_success code)"
  by (cases reply) (auto simp: judge_reply_def Let_def split: if_splits)

lemma judge_reply_class:
  "fst (judge_reply env reply) = Inl f \<Longrightarrow>
     (\<exists>text. reply = Inl text \<and> ef_class f = Ambiguous \<and> ef_code f = ''DOWNSTREAM_UNREACHABLE'')
     \<or> (\<exists>code body. reply = Inr (code, body) \<and> \<not> is_success code \<and> ef_class f = classify_http_status code
         \<and> ef_code f = ''DOWNSTREAM_REJECTED'')"
  by (cases reply) (auto simp: judge_reply_def Let_def classify_network_error_def split: if_splits)

lemma execute_charge_ok:
  assumes "execute_charge env i pl w = ((Inr u, ms), w')"
  obtains charge code body where
    "parse_charge_payload (we_from_value env) pl = Inr charge"
    "we_send env (charge_request env i charge) w = (Inr (code, body), w')" "is_success code"
proof (cases "parse_charge_payload (we_from_value env) pl")
  case (Inl e)
  with assms show thesis by (simp add: execute_charge_def)
next
  case (Inr charge)
  obtain reply w'' where r: "we_send env (charge_request env i charge) w = (reply, w'')"
    by (cases "we_send env (charge_request env i charge) w")
  with assms Inr have "fst (judge_reply env reply) = Inr u" "w'' = w'" by (simp_all add: execute_charge_def)
  with judge_reply_ok [of env reply u] r that [OF Inr] show thesis by auto
qed

lemma execute_charge_invalid:
  "parse_charge_payload (we_from_value env) pl = Inl e \<Longrightarrow>
   execute_charge env i pl w =
     ((Inl \<lparr>ef_class = Permanent, ef_code = ''INVALID_PAYLOAD'', ef_message = validation_error_text e\<rparr>, []), w)"
  by (simp add: execute_charge_def)

subsection \<open>Facts about the verdict\<close>

fun is_retry :: "verdict \<Rightarrow> bool" where
  "is_retry (Retry d code msg ms) = True"
| "is_retry (Success ms) = False"
| "is_retry (Bury code msg ms) = False"

fun is_success_verdict :: "verdict \<Rightarrow> bool" where
  "is_success_verdict (Success ms) = True"
| "is_success_verdict (Retry d code msg ms) = False"
| "is_success_verdict (Bury code msg ms) = False"

lemma choose_verdict_success: "is_success_verdict (fst (choose_verdict env a mx el rng outcome)) \<longleftrightarrow> (\<exists>u. outcome = Inr u)"
  by (auto simp: choose_verdict_def split: sum.splits prod.splits)

text \<open>The code of a failure is a literal, so only its message may be a text the database cannot hold.\<close>

lemma execute_charge_code:
  assumes "execute_charge env i pl w = ((outcome, ms), w')" "outcome = Inl f"
  shows "text_ok (ef_code f)"
proof (cases "parse_charge_payload (we_from_value env) pl")
  case (Inr charge)
  obtain reply w'' where r: "we_send env (charge_request env i charge) w = (reply, w'')"
    by (cases "we_send env (charge_request env i charge) w")
  with assms Inr have "fst (judge_reply env reply) = Inl f" by (simp add: execute_charge_def)
  from judge_reply_class [OF this] show ?thesis by auto
qed (use assms in \<open>auto simp: execute_charge_def\<close>)

lemma choose_verdict_texts:
  assumes "choose_verdict env a mx el rng outcome = (v, rng')"
  shows "verdict_texts_ok v \<longleftrightarrow> (\<forall>f. outcome = Inl f \<longrightarrow> (text_ok (ef_code f) \<or> is_retryable (ef_class f) \<and> \<not> a < mx) \<and> text_ok (ef_message f))"
  using assms by (auto simp: choose_verdict_def dead_reason_def split: sum.splits prod.splits if_splits)

lemma choose_verdict_retry:
  "is_retry (fst (choose_verdict env a mx el rng outcome)) \<longleftrightarrow>
     (\<exists>f. outcome = Inl f \<and> is_retryable (ef_class f) \<and> a < mx)"
  by (auto simp: choose_verdict_def split: sum.splits prod.splits)

lemma choose_verdict_delay:
  assumes "gen_range_within (we_gen_range env)"
    and "fst (choose_verdict env a mx el rng outcome) = Retry d code msg ms"
  shows "0 \<le> d" "d \<le> as_secs_f64 (cap (we_policy env) (attempt_u32 a))"
    "\<exists>k. d = as_secs_f64 (from_millis k)"
proof -
  obtain f where f: "outcome = Inl f" "is_retryable (ef_class f)" "a < mx"
    using assms(2) choose_verdict_retry [of env a mx el rng outcome] by auto
  let ?del = "delay (we_gen_range env) (we_policy env) (attempt_u32 a) rng"
  have d: "d = as_secs_f64 (fst ?del)"
    using assms(2) f by (auto simp: choose_verdict_def split: prod.splits)
  show "0 \<le> d" by (simp add: d as_secs_f64_def)
  show "d \<le> as_secs_f64 (cap (we_policy env) (attempt_u32 a))"
    using delay_le_cap [OF assms(1), of "we_policy env" "attempt_u32 a" rng]
    by (simp add: d as_secs_f64_def divide_right_mono)
  show "\<exists>k. d = as_secs_f64 (from_millis k)"
    using delay_whole_millis [of "we_gen_range env" "we_policy env" "attempt_u32 a" rng] by (auto simp: d)
qed

lemma crash_verdict_never_retries: "\<not> is_retry (crash_verdict el outcome)"
  by (auto simp: crash_verdict_def split: sum.splits)

subsection \<open>Facts about finishing\<close>

lemma finish_result:
  assumes "db_inv db"
  shows "finish now i t k v db =
    (if db_up db
     then if \<not> verdict_texts_ok v then ((FinalizeFailed v (Database InvalidText), []), db)
          else if owns i t db then ((Finalized v True, verdict_metrics k v), verdict_db now i t v db)
          else ((Finalized v False, []), db)
     else ((FinalizeFailed v (Database Unreachable), []), db))"
  using finalize_owned [OF assms, of i t v now] finalize_stale [of i t db v now] finalize_down [of db now i t v]
    finalize_refused [of v db now i t]
  by (simp add: finish_def)

lemma finalized_db_inv:
  "db_inv db \<Longrightarrow> db_inv (finalized_db (finalize now i t v db) db)"
  by (auto simp: finalized_db_def split: sum.splits dest: finalize_preserves)

subsection \<open>Facts about the heartbeat\<close>

lemma heartbeat_interval_third:
  assumes "from_millis 300 \<le> lease"
  shows "heartbeat_interval lease = lease div 3" "3 * heartbeat_interval lease \<le> lease"
proof -
  have "from_millis 100 \<le> lease div 3" using assms by (simp add: from_millis_def)
  then show eq: "heartbeat_interval lease = lease div 3" by (simp add: heartbeat_interval_def max_def)
  show "3 * heartbeat_interval lease \<le> lease" unfolding eq by simp
qed

text \<open>After a renewal the job is not expired before the new deadline, so no claim takes it.\<close>

lemma renewed_not_expired:
  assumes inv: "db_inv db" and ok: "renew_lease now i t lease db = Inr (True, db')"
    and r: "r \<in> set (jobs db')" "jid r = i" and l: "later < now + interval_us (as_secs_f64 lease)"
  shows "holds_lease i t r \<and> \<not> expired_running later r"
proof -
  have up: "db_up db" using ok by (auto simp: renew_lease_def query_def split: if_splits)
  note res = renew_lease_result [OF inv up, of now i t lease]
  have own: "owns i t db" and db': "jobs db' = map (\<lambda>r. if holds_lease i t r then renew_row now lease r else r) (jobs db)"
    using ok res by auto
  obtain s where s: "s \<in> set (jobs db)" "holds_lease i t s" using own by (auto simp: owns_def)
  obtain q where q: "q \<in> set (jobs db)" "r = (if holds_lease i t q then renew_row now lease q else q)"
    using r(1) db' by auto
  then have "jid q = i" using r(2) by (simp add: renew_row_jid split: if_splits)
  then have "q = s" using db_inv_same_id [OF inv q(1) s(1)] s(2) by (simp add: holds_lease_def)
  with q s l show ?thesis by (auto simp: holds_lease_def renew_row_def expired_running_def)
qed

lemma heartbeat_preserves:
  assumes "db_inv db" "\<And>others now d. (others, now) \<in> set ticks \<Longrightarrow> db_inv d \<Longrightarrow> db_inv (others d)"
  shows "db_inv (snd (heartbeat i t lease ticks db))"
  using assms
proof (induction ticks arbitrary: db)
  case (Cons tick ticks)
  obtain others now where tick: "tick = (others, now)" by (cases tick)
  have o: "db_inv (others db)" using Cons.prems tick by auto
  have ih: "db_inv (snd (heartbeat i t lease ticks d))" if "db_inv d" for d
  proof (rule Cons.IH [OF that])
    fix others' :: "'a db \<Rightarrow> 'a db" and now' and d' :: "'a db" assume "(others', now') \<in> set ticks" "db_inv d'"
    then show "db_inv (others' d')" using Cons.prems(2) [of others' now' d'] by simp
  qed
  show ?case
  proof (cases "renew_lease now i t lease (others db)")
    case (Inl e)
    with ih [OF o] tick show ?thesis by (simp add: case_prod_beta)
  next
    case (Inr p)
    obtain b db' where p: "renew_lease now i t lease (others db) = Inr (b, db')" using Inr by (cases p) simp
    note inv' = renew_lease_preserves [OF o p]
    show ?thesis
    proof (cases b)
      case True
      with ih [OF inv'] tick p show ?thesis by (simp add: case_prod_beta)
    next
      case False
      with inv' tick p show ?thesis by simp
    qed
  qed
qed simp

end
