(* ===== verification/ChargesRepo.thy ===== *)
theory ChargesRepo
  imports Store Interfaces
begin

section \<open>The charge repository: reliableq-db charges\<close>

text \<open>
  \<open>src/crates/reliableq-db/src/charges.rs\<close>: insert a charge or find the one that the idempotency key
  already has. The two statements of \<open>insert_or_get_charge\<close> are run one after the other on the same
  tables; \<open>insert_then_find\<close> shows that charges of other requests arriving between them make no
  difference. The repository is the model's instance of \<open>write_once\<close>.
\<close>

datatype insert_charge_outcome = Created charge_row | Replayed charge_row | Conflict charge_row

definition find_by_idempotency_key :: "string \<Rightarrow> 'v db \<Rightarrow> repo_error + charge_row option" where
  "find_by_idempotency_key k db = query db (Inr (find (\<lambda>c. ch_idempotency_key c = k) (charges db)))"

text \<open>
  \<open>INSERT INTO charges .. ON CONFLICT (idempotency_key) DO NOTHING RETURNING *\<close>: texts that cannot be stored come first, then the
  check constraint, the conflict on the key, and the primary key.
\<close>

definition insert_charge_row :: "charge_row \<Rightarrow> 'v db \<Rightarrow> (charge_row option, 'v) repo_result" where
  "insert_charge_row c db =
     (if \<not> (text_ok (ch_idempotency_key c) \<and> text_ok (ch_customer_id c) \<and> text_ok (ch_currency c))
        then Inl (Database InvalidText)
      else if \<not> charge_checks c then Inl (Database CheckViolation)
      else if ch_idempotency_key c \<in> set (map ch_idempotency_key (charges db)) then Inr (None, db)
      else if ch_id c \<in> set (map ch_id (charges db)) then Inl (Database UniqueViolation)
      else Inr (Some c, db\<lparr>charges := charges db @ [c]\<rparr>))"

definition same_semantic_request :: "charge_row \<Rightarrow> string \<Rightarrow> int \<Rightarrow> string \<Rightarrow> bool" where
  "same_semantic_request c cust amount cur \<longleftrightarrow>
     ch_customer_id c = cust \<and> ch_amount_cents c = amount \<and> ch_currency c = cur"

definition insert_or_get_charge ::
    "timestamp \<Rightarrow> uuid \<Rightarrow> string \<Rightarrow> string \<Rightarrow> int \<Rightarrow> string \<Rightarrow> 'v db
     \<Rightarrow> (insert_charge_outcome, 'v) repo_result" where
  "insert_or_get_charge now i k cust amount cur db =
     query db
       (bind_res
         (insert_charge_row
           \<lparr>ch_id = i, ch_idempotency_key = k, ch_customer_id = cust, ch_amount_cents = amount,
            ch_currency = cur, ch_created_at = now\<rparr> db) (\<lambda>(inserted, db1).
        case inserted of
          Some row \<Rightarrow> Inr (Created row, db1)
        | None \<Rightarrow>
            bind_res (find_by_idempotency_key k db1) (\<lambda>found.
            bind_res
              (ok_or
                (Inconsistent
                  (Quoting ''charge for idempotency_key '' k
                    '' disappeared immediately after an ON CONFLICT DO NOTHING'')) found) (\<lambda>existing.
            if same_semantic_request existing cust amount cur
            then Inr (Replayed existing, db1)
            else Inr (Conflict existing, db1)))))"

subsection \<open>Facts\<close>

definition charge_of :: "string \<Rightarrow> 'v db \<Rightarrow> charge_row option" where
  "charge_of k db = find (\<lambda>c. ch_idempotency_key c = k) (charges db)"

definition charges_inv :: "'v db \<Rightarrow> bool" where
  "charges_inv db \<longleftrightarrow>
     distinct (map ch_idempotency_key (charges db)) \<and> distinct (map ch_id (charges db))
     \<and> list_all charge_checks (charges db)"

lemma charge_of_None: "charge_of k db = None \<longleftrightarrow> k \<notin> ch_idempotency_key ` set (charges db)"
  by (auto simp: charge_of_def find_None_iff)

lemma charge_of_Some: "charge_of k db = Some c \<Longrightarrow> c \<in> set (charges db) \<and> ch_idempotency_key c = k"
  by (auto simp: charge_of_def find_Some_iff)

lemma charge_row_unique:
  assumes "charges_inv db" "charge_of k db = Some c"
  shows "filter (\<lambda>c. ch_idempotency_key c = k) (charges db) = [c]"
proof -
  have "filter (\<lambda>c. ch_idempotency_key c = k) cs = [c]"
    if "distinct (map ch_idempotency_key cs)" "find (\<lambda>c. ch_idempotency_key c = k) cs = Some c" for cs
    using that
  proof (induction cs)
    case (Cons d cs)
    show ?case
    proof (cases "ch_idempotency_key d = k")
      case True
      with Cons.prems have "d = c" "k \<notin> set (map ch_idempotency_key cs)" by auto
      then have "filter (\<lambda>c. ch_idempotency_key c = k) cs = []" unfolding filter_empty_conv set_map by blast
      with True \<open>d = c\<close> show ?thesis by simp
    qed (use Cons in simp)
  qed simp
  with assms show ?thesis by (simp add: charges_inv_def charge_of_def)
qed

lemma charge_of_snoc:
  "charge_of k (db\<lparr>charges := charges db @ [c]\<rparr>) =
     (case charge_of k db of None \<Rightarrow> if ch_idempotency_key c = k then Some c else None | Some d \<Rightarrow> Some d)"
proof -
  have "find P (xs @ [c]) = (case find P xs of None \<Rightarrow> if P c then Some c else None | Some d \<Rightarrow> Some d)" for P xs
    by (induction xs) auto
  then show ?thesis by (simp add: charge_of_def)
qed

text \<open>The three outcomes, by what the key holds.\<close>

definition outcome_for :: "charge_row \<Rightarrow> string \<Rightarrow> int \<Rightarrow> string \<Rightarrow> insert_charge_outcome" where
  "outcome_for c cust amount cur =
     (if same_semantic_request c cust amount cur then Replayed c else Conflict c)"

text \<open>The texts of a charge that the table can hold.\<close>

definition charge_texts_ok :: "string \<Rightarrow> string \<Rightarrow> string \<Rightarrow> bool" where
  "charge_texts_ok k cust cur \<longleftrightarrow> text_ok k \<and> text_ok cust \<and> text_ok cur"

lemma insert_or_get_refused:
  "db_up db \<Longrightarrow> \<not> charge_texts_ok k cust cur \<Longrightarrow> insert_or_get_charge now i k cust amount cur db = Inl (Database InvalidText)"
  by (auto simp: insert_or_get_charge_def query_def insert_charge_row_def charge_texts_ok_def)

lemma insert_or_get_new:
  assumes "charge_texts_ok k cust cur" "db_up db" "0 < amount" "charge_of k db = None" "i \<notin> ch_id ` set (charges db)"
  shows "insert_or_get_charge now i k cust amount cur db =
    (let c = \<lparr>ch_id = i, ch_idempotency_key = k, ch_customer_id = cust, ch_amount_cents = amount,
              ch_currency = cur, ch_created_at = now\<rparr>
     in Inr (Created c, db\<lparr>charges := charges db @ [c]\<rparr>))"
  using assms
  by (simp add: insert_or_get_charge_def query_def insert_charge_row_def charge_checks_def charge_of_None Let_def
      charge_texts_ok_def)

lemma insert_or_get_known:
  assumes "charge_texts_ok k cust cur" "db_up db" "0 < amount" "charge_of k db = Some c"
  shows "insert_or_get_charge now i k cust amount cur db = Inr (outcome_for c cust amount cur, db)"
proof -
  have "k \<in> ch_idempotency_key ` set (charges db)" using charge_of_Some [OF assms(4)] by blast
  with assms show ?thesis
    by (simp add: insert_or_get_charge_def query_def insert_charge_row_def charge_checks_def
        find_by_idempotency_key_def outcome_for_def charge_of_def charge_texts_ok_def)
qed

lemma insert_or_get_Inr:
  assumes "insert_or_get_charge now i k cust amount cur db = Inr (out, db')"
  shows "charge_texts_ok k cust cur" "db_up db" "0 < amount"
    "case charge_of k db of
       None \<Rightarrow> \<exists>c. out = Created c \<and> db' = db\<lparr>charges := charges db @ [c]\<rparr> \<and> ch_idempotency_key c = k
               \<and> same_semantic_request c cust amount cur \<and> ch_id c = i \<and> i \<notin> ch_id ` set (charges db)
     | Some c \<Rightarrow> out = outcome_for c cust amount cur \<and> db' = db"
proof -
  show up: "db_up db" using assms by (auto simp: insert_or_get_charge_def query_def split: if_splits)
  show texts: "charge_texts_ok k cust cur" using insert_or_get_refused [OF up] assms by fastforce
  show amount: "0 < amount"
    using assms up by (auto simp: insert_or_get_charge_def query_def insert_charge_row_def charge_checks_def split: if_splits)
  show "case charge_of k db of
       None \<Rightarrow> \<exists>c. out = Created c \<and> db' = db\<lparr>charges := charges db @ [c]\<rparr> \<and> ch_idempotency_key c = k
               \<and> same_semantic_request c cust amount cur \<and> ch_id c = i \<and> i \<notin> ch_id ` set (charges db)
     | Some c \<Rightarrow> out = outcome_for c cust amount cur \<and> db' = db"
  proof (cases "charge_of k db")
    case (Some c)
    then show ?thesis using insert_or_get_known [OF texts up amount Some, of now i] assms by simp
  next
    case None
    then have "i \<notin> ch_id ` set (charges db)"
      using assms up amount
      by (auto simp: insert_or_get_charge_def query_def insert_charge_row_def charge_checks_def charge_of_None split: if_splits)
    then show ?thesis using insert_or_get_new [OF texts up amount None, of i now] assms None
      by (auto simp: Let_def same_semantic_request_def)
  qed
qed

lemma insert_or_get_preserves:
  assumes "charges_inv db" "insert_or_get_charge now i k cust amount cur db = Inr (out, db')"
  shows "charges_inv db'" "jobs db' = jobs db" "job_attempts db' = job_attempts db" "db_up db' = db_up db"
  using insert_or_get_Inr(3,4) [OF assms(2)] assms(1)
  by (auto simp: charges_inv_def charge_checks_def same_semantic_request_def charge_of_None split: option.splits)

lemma insert_or_get_never_inconsistent:
  "insert_or_get_charge now i k cust amount cur db \<noteq> Inl (Inconsistent msg)"
proof
  assume err: "insert_or_get_charge now i k cust amount cur db = Inl (Inconsistent msg)"
  then have up: "db_up db" by (auto simp: insert_or_get_charge_def query_def split: if_splits)
  have texts: "charge_texts_ok k cust cur" using insert_or_get_refused [OF up] err by fastforce
  have amount: "0 < amount"
    using err up by (auto simp: insert_or_get_charge_def query_def insert_charge_row_def charge_checks_def split: if_splits)
  show False
  proof (cases "charge_of k db")
    case (Some c)
    then show False using insert_or_get_known [OF texts up amount Some, of now i] err by simp
  next
    case None
    then show False using err up amount
      by (auto simp: insert_or_get_charge_def query_def insert_charge_row_def charge_checks_def charge_of_None split: if_splits)
  qed
qed

text \<open>
  The find of a request that lost the race sees the winner even when others insert in between: a charge,
  once there, is found under its key whatever else is appended.
\<close>

lemma insert_then_find:
  assumes "charge_of k db = Some c" "charges db' = charges db @ cs"
  shows "charge_of k db' = Some c"
proof -
  have "find P (xs @ ys) = (case find P xs of None \<Rightarrow> find P ys | Some d \<Rightarrow> Some d)" for P :: "charge_row \<Rightarrow> bool" and xs ys
    by (induction xs) auto
  with assms show ?thesis by (simp add: charge_of_def)
qed

subsection \<open>The repository as a write-once store\<close>

record charge_call =
  cc_now :: timestamp
  cc_id :: uuid
  cc_key :: string
  cc_payload :: "string \<times> int \<times> string"

definition put_charge :: "charge_call \<Rightarrow> 'v db \<Rightarrow> (insert_charge_outcome \<times> 'v db) option" where
  "put_charge c db =
     (case cc_payload c of (cust, amount, cur) \<Rightarrow>
        result_option (insert_or_get_charge (cc_now c) (cc_id c) (cc_key c) cust amount cur db))"

definition payload_of :: "charge_row \<Rightarrow> string \<times> int \<times> string" where
  "payload_of c = (ch_customer_id c, ch_amount_cents c, ch_currency c)"

definition stored_payload :: "string \<Rightarrow> 'v db \<Rightarrow> (string \<times> int \<times> string) option" where
  "stored_payload k db = map_option payload_of (charge_of k db)"

fun is_created :: "insert_charge_outcome \<Rightarrow> bool" where
  "is_created (Created c) = True"
| "is_created (Replayed c) = False"
| "is_created (Conflict c) = False"

lemma not_created_known: "\<not> is_created (outcome_for c cust amount cur)"
  by (simp add: outcome_for_def)

interpretation charge_store: write_once put_charge stored_payload cc_key cc_payload is_created
proof
  fix c :: charge_call and s :: "'v db" and out s' k p
  obtain cust amount cur where pl: "cc_payload c = (cust, amount, cur)" by (cases "cc_payload c")
  assume "put_charge c s = Some (out, s')"
  then have ok: "insert_or_get_charge (cc_now c) (cc_id c) (cc_key c) cust amount cur s = Inr (out, s')"
    by (simp add: put_charge_def pl)
  note res = insert_or_get_Inr(4) [OF ok]
  show "is_created out \<and> stored_payload (cc_key c) s' = Some (cc_payload c)" if "stored_payload (cc_key c) s = None"
    using res that pl
    by (auto simp: stored_payload_def charge_of_snoc payload_of_def same_semantic_request_def)
  show "\<not> is_created out \<and> s' = s" if "stored_payload (cc_key c) s = Some p"
    using res that by (auto simp: stored_payload_def not_created_known)
  show "stored_payload k s' = stored_payload k s" if "k \<noteq> cc_key c"
    using res that by (auto simp: stored_payload_def charge_of_snoc split: option.splits)
qed

end
