(* ===== verification/FakeCharge.thy ===== *)
theory FakeCharge
  imports ChargesRepo Validation
begin

section \<open>The charge service: fake-charge\<close>

text \<open>
  \<open>src/crates/fake-charge/src\<close>: the error envelope, request-id correlation, the injected failures of
  \<open>chaos.rs\<close>, the \<open>POST /v1/charges\<close> handler and the routing. A handler takes the state it shares with
  the others (\<open>ChaosState\<close> and the database) and returns its result with the new state. Parameters stand for the
  packages: \<open>to_str\<close> and \<open>from_str\<close> (header values), \<open>from_u16\<close> and \<open>show_status\<close> (status codes),
  \<open>from_value\<close> (JSON), \<open>gen\<close> and \<open>seed_from_u64\<close> (the random generator).
\<close>

subsection \<open>error.rs\<close>

record charge_error =
  ce_status :: http_status
  ce_code :: string
  ce_message :: message

record charge_error_body =
  ceb_code :: string
  ceb_message :: message
  ceb_request_id :: string

definition charge_invalid_argument :: "message \<Rightarrow> charge_error" where
  "charge_invalid_argument m = \<lparr>ce_status = 400, ce_code = ''INVALID_ARGUMENT'', ce_message = m\<rparr>"

definition charge_idempotency_conflict :: "message \<Rightarrow> charge_error" where
  "charge_idempotency_conflict m = \<lparr>ce_status = 409, ce_code = ''IDEMPOTENCY_CONFLICT'', ce_message = m\<rparr>"

definition charge_internal :: "message \<Rightarrow> charge_error" where
  "charge_internal m = \<lparr>ce_status = 500, ce_code = ''INTERNAL'', ce_message = m\<rparr>"

definition charge_error_of_repo :: "repo_error \<Rightarrow> charge_error" where
  "charge_error_of_repo e = charge_internal (Text ''internal error'')"

definition charge_error_of_validation :: "validation_error \<Rightarrow> charge_error" where
  "charge_error_of_validation e = charge_invalid_argument (Text (validation_error_text e))"

definition charge_error_response :: "string \<Rightarrow> charge_error \<Rightarrow> http_status \<times> charge_error_body" where
  "charge_error_response request_id e =
     (ce_status e, \<lparr>ceb_code = ce_code e, ceb_message = ce_message e, ceb_request_id = request_id\<rparr>)"

subsection \<open>correlation.rs\<close>

type_synonym 'h headers = "string \<Rightarrow> 'h option"

definition charge_request_id :: "('h \<Rightarrow> string option) \<Rightarrow> 'h headers \<Rightarrow> string \<Rightarrow> string" where
  "charge_request_id to_str hs fresh =
     (case Option.bind (hs ''x-request-id'') to_str of
        None \<Rightarrow> fresh
      | Some s \<Rightarrow> if s = [] then fresh else s)"

definition charge_middleware ::
    "('h \<Rightarrow> string option) \<Rightarrow> (string \<Rightarrow> 'h option) \<Rightarrow> string
     \<Rightarrow> (string \<Rightarrow> 'h headers \<Rightarrow> 'h headers \<times> 'b) \<Rightarrow> 'h headers \<Rightarrow> 'h headers \<times> 'b" where
  "charge_middleware to_str from_str fresh next hs =
     (let request_id = charge_request_id to_str hs fresh;
          hs' = (case from_str request_id of None \<Rightarrow> hs | Some v \<Rightarrow> hs(''x-request-id'' \<mapsto> v))
      in case next request_id hs' of
           (resp_headers, body) \<Rightarrow>
             ((case from_str request_id of
                 None \<Rightarrow> resp_headers
               | Some v \<Rightarrow> resp_headers(''x-request-id'' \<mapsto> v)), body))"

subsection \<open>chaos.rs\<close>

datatype chaos_mode =
    NormalMode
  | FailNext nat nat
  | PermanentReject
  | DelayMs nat
  | FailRate rat nat

datatype chaos_decision = Proceed | Reject http_status

record 'r chaos_state =
  mode :: chaos_mode
  inflight :: nat
  peak_inflight :: nat
  fail_rng :: 'r

definition default_chaos :: "'r \<Rightarrow> 'r chaos_state" where
  "default_chaos entropy = \<lparr>mode = NormalMode, inflight = 0, peak_inflight = 0, fail_rng = entropy\<rparr>"

text \<open>\<open>decide\<close> looks at the mode, sleeps without the lock, and then decides under the lock.\<close>

definition decide_delay :: "'r chaos_state \<Rightarrow> nat option" where
  "decide_delay st = (case mode st of DelayMs ms \<Rightarrow> Some ms | _ \<Rightarrow> None)"

definition injected_status :: "(nat \<Rightarrow> http_status option) \<Rightarrow> nat \<Rightarrow> http_status" where
  "injected_status from_u16 s = (case from_u16 s of None \<Rightarrow> 503 | Some c \<Rightarrow> c)"

definition decide ::
    "('r \<Rightarrow> rat \<times> 'r) \<Rightarrow> (nat \<Rightarrow> http_status option) \<Rightarrow> 'r chaos_state \<Rightarrow> chaos_decision \<times> 'r chaos_state" where
  "decide gen from_u16 st =
     (case mode st of
        NormalMode \<Rightarrow> (Proceed, st)
      | DelayMs ms \<Rightarrow> (Proceed, st)
      | PermanentReject \<Rightarrow> (Reject 422, st)
      | FailRate rate s \<Rightarrow>
          (case gen (fail_rng st) of
             (roll, rng) \<Rightarrow>
               (if roll < rate then Reject (injected_status from_u16 s) else Proceed, st\<lparr>fail_rng := rng\<rparr>))
      | FailNext remaining s \<Rightarrow>
          (let next_remaining = remaining - 1
           in (Reject (injected_status from_u16 s),
               st\<lparr>mode := (if next_remaining = 0 then NormalMode else FailNext next_remaining s)\<rparr>)))"

definition track_inflight :: "'r chaos_state \<Rightarrow> 'r chaos_state" where
  "track_inflight st =
     (let current = inflight st + 1
      in st\<lparr>inflight := current, peak_inflight := max (peak_inflight st) current\<rparr>)"

definition drop_guard :: "'r chaos_state \<Rightarrow> 'r chaos_state" where
  "drop_guard st = st\<lparr>inflight := inflight st - 1\<rparr>"

definition reset_peak_inflight :: "'r chaos_state \<Rightarrow> 'r chaos_state" where
  "reset_peak_inflight st = st\<lparr>peak_inflight := 0\<rparr>"

datatype control_request =
    CNormal
  | CFailNext nat nat
  | CPermanentReject
  | CDelayMs nat
  | CFailRate rat nat "nat option"

definition set_control ::
    "(nat \<Rightarrow> 'r) \<Rightarrow> control_request \<Rightarrow> 'r chaos_state \<Rightarrow> (charge_error + bool) \<times> 'r chaos_state" where
  "set_control seed_from_u64 body st =
     (case body of
        CNormal \<Rightarrow> (Inr True, st\<lparr>mode := NormalMode\<rparr>)
      | CFailNext n s \<Rightarrow>
          if n = 0 then (Inl (charge_invalid_argument (Text ''n must be at least 1'')), st)
          else (Inr True, st\<lparr>mode := FailNext n s\<rparr>)
      | CPermanentReject \<Rightarrow> (Inr True, st\<lparr>mode := PermanentReject\<rparr>)
      | CDelayMs ms \<Rightarrow> (Inr True, st\<lparr>mode := DelayMs ms\<rparr>)
      | CFailRate rate s seed \<Rightarrow>
          if \<not> (0 \<le> rate \<and> rate \<le> 1)
          then (Inl (charge_invalid_argument (Text ''rate must be between 0.0 and 1.0'')), st)
          else (Inr True,
                (case seed of None \<Rightarrow> st | Some sd \<Rightarrow> st\<lparr>fail_rng := seed_from_u64 sd\<rparr>)\<lparr>mode := FailRate rate s\<rparr>))"

subsection \<open>charges.rs\<close>

record charge_response =
  cr_id :: uuid
  cr_idempotency_key :: string
  cr_customer_id :: string
  cr_amount_cents :: int
  cr_currency :: string
  cr_created_at :: timestamp
  cr_replayed :: bool

definition charge_response_from_row :: "charge_row \<Rightarrow> bool \<Rightarrow> charge_response" where
  "charge_response_from_row row replayed =
     \<lparr>cr_id = ch_id row, cr_idempotency_key = ch_idempotency_key row, cr_customer_id = ch_customer_id row,
      cr_amount_cents = ch_amount_cents row, cr_currency = ch_currency row,
      cr_created_at = ch_created_at row, cr_replayed = replayed\<rparr>"

definition idempotency_key :: "('h \<Rightarrow> string option) \<Rightarrow> 'h headers \<Rightarrow> charge_error + string" where
  "idempotency_key to_str hs =
     bind_res (ok_or (charge_invalid_argument (Text ''Idempotency-Key header is required'')) (hs ''idempotency-key'')) (\<lambda>v.
     bind_res (ok_or (charge_invalid_argument (Text ''Idempotency-Key header must be valid UTF-8'')) (to_str v)) (\<lambda>s.
     let raw = trim s
     in if raw = [] then Inl (charge_invalid_argument (Text ''Idempotency-Key header must not be empty''))
        else Inr raw))"

record ('h, 'v, 'r) charge_env =
  to_str :: "'h \<Rightarrow> string option"
  from_value :: "'v \<Rightarrow> string + charge_payload"
  gen :: "'r \<Rightarrow> rat \<times> 'r"
  from_u16 :: "nat \<Rightarrow> http_status option"
  show_status :: "http_status \<Rightarrow> string"

definition respond :: "insert_charge_outcome \<Rightarrow> string \<Rightarrow> charge_error + (http_status \<times> charge_response)" where
  "respond out k =
     (case out of
        Created row \<Rightarrow> Inr (201, charge_response_from_row row False)
      | Replayed row \<Rightarrow> Inr (200, charge_response_from_row row True)
      | Conflict row \<Rightarrow>
          Inl (charge_idempotency_conflict
                (Quoting ''Idempotency-Key '' k '' was already used with a different request payload'')))"

definition create_charge ::
    "('h, 'v, 'r) charge_env \<Rightarrow> timestamp \<Rightarrow> uuid \<Rightarrow> 'h headers \<Rightarrow> 'v \<Rightarrow> 'r chaos_state \<times> 'v db
     \<Rightarrow> (charge_error + (http_status \<times> charge_response)) \<times> 'r chaos_state \<times> 'v db" where
  "create_charge env now new_id hs body s =
     (case s of (st, db) \<Rightarrow>
        case idempotency_key (to_str env) hs of
          Inl e \<Rightarrow> (Inl e, st, db)
        | Inr key \<Rightarrow>
            (case parse_charge_payload (from_value env) body of
               Inl e \<Rightarrow> (Inl (charge_error_of_validation e), st, db)
             | Inr pl \<Rightarrow>
                 (case decide (gen env) (from_u16 env) (track_inflight st) of
                    (Reject http, st') \<Rightarrow>
                      (Inl \<lparr>ce_status = http, ce_code = ''INJECTED_FAILURE'',
                            ce_message = Text (''chaos injection: simulated '' @ show_status env http @ '' response'')\<rparr>,
                       drop_guard st', db)
                  | (Proceed, st') \<Rightarrow>
                      (case insert_or_get_charge now new_id key (customer_id pl) (amount_cents pl) (currency pl) db of
                         Inl e \<Rightarrow> (Inl (charge_error_of_repo e), drop_guard st', db)
                       | Inr (out, db') \<Rightarrow> (respond out key, drop_guard st', db')))))"

subsection \<open>lib.rs\<close>

datatype ('h, 'v) charge_request =
    PostCharge "'h headers" 'v
  | PostControl control_request
  | GetInflight
  | PostInflightReset

datatype charge_reply =
    ChargeReply http_status charge_response
  | OkReply bool
  | PeakReply nat
  | ErrorReply charge_error
  | NotFoundReply

definition reply_of :: "charge_error + 'a \<Rightarrow> ('a \<Rightarrow> charge_reply) \<Rightarrow> charge_reply" where
  "reply_of r f = (case r of Inl e \<Rightarrow> ErrorReply e | Inr x \<Rightarrow> f x)"

text \<open>The router: the test-control routes exist only when \<open>enable_test_control\<close> is passed.\<close>

fun charge_app ::
    "('h, 'v, 'r) charge_env \<Rightarrow> (nat \<Rightarrow> 'r) \<Rightarrow> bool \<Rightarrow> timestamp \<Rightarrow> uuid \<Rightarrow> ('h, 'v) charge_request
     \<Rightarrow> 'r chaos_state \<times> 'v db \<Rightarrow> charge_reply \<times> 'r chaos_state \<times> 'v db" where
  "charge_app env seed control now new_id (PostCharge hs body) s =
     (case create_charge env now new_id hs body s of
        (r, s') \<Rightarrow> (reply_of r (\<lambda>(http, resp). ChargeReply http resp), s'))"
| "charge_app env seed control now new_id (PostControl c) s =
     (if control
      then (case set_control seed c (fst s) of (r, st) \<Rightarrow> (reply_of r OkReply, st, snd s))
      else (NotFoundReply, s))"
| "charge_app env seed control now new_id GetInflight s =
     (if control then (PeakReply (peak_inflight (fst s)), s) else (NotFoundReply, s))"
| "charge_app env seed control now new_id PostInflightReset s =
     (if control then (OkReply True, reset_peak_inflight (fst s), snd s) else (NotFoundReply, s))"

definition charge_timeout_error :: "bool \<Rightarrow> string \<Rightarrow> charge_error" where
  "charge_timeout_error elapsed text =
     (if elapsed then \<lparr>ce_status = 408, ce_code = ''TIMEOUT'', ce_message = Text ''request timed out''\<rparr>
      else charge_internal (Text text))"

subsection \<open>What the service does\<close>

lemma decide_frame:
  "decide g u st = (d, st') \<Longrightarrow> inflight st' = inflight st \<and> peak_inflight st' = peak_inflight st"
  by (auto simp: decide_def Let_def split: chaos_mode.splits prod.splits)

text \<open>The chaos state a charge request leaves, and its result, by cases of the handler.\<close>

lemma create_charge_ok:
  assumes "create_charge env now i hs body (st, db) = (Inr (http, resp), st', db')"
  obtains key pl out where
    "idempotency_key (to_str env) hs = Inr key"
    "parse_charge_payload (from_value env) body = Inr pl"
    "insert_or_get_charge now i key (customer_id pl) (amount_cents pl) (currency pl) db = Inr (out, db')"
    "respond out key = Inr (http, resp)"
  using assms
  by (auto simp: create_charge_def split: sum.splits prod.splits chaos_decision.splits)

lemma create_charge_db:
  assumes "create_charge env now i hs body (st, db) = (r, st', db')"
  shows "db' = db \<or> (\<exists>key pl out. idempotency_key (to_str env) hs = Inr key
      \<and> parse_charge_payload (from_value env) body = Inr pl
      \<and> insert_or_get_charge now i key (customer_id pl) (amount_cents pl) (currency pl) db = Inr (out, db')
      \<and> r = respond out key)"
  using assms
  by (auto simp: create_charge_def split: sum.splits prod.splits chaos_decision.splits)

lemma create_charge_inflight:
  assumes "create_charge env now i hs body (st, db) = (r, st', db')"
  shows "inflight st' = inflight st"
proof -
  obtain d st1 where d: "decide (gen env) (from_u16 env) (track_inflight st) = (d, st1)"
    by (cases "decide (gen env) (from_u16 env) (track_inflight st)")
  then have "inflight (drop_guard st1) = inflight st"
    using decide_frame [OF d] by (simp add: drop_guard_def track_inflight_def Let_def)
  then show ?thesis using assms d
    by (auto simp: create_charge_def split: sum.splits prod.splits chaos_decision.splits)
qed

lemma respond_ok_stored:
  assumes "insert_or_get_charge now i key cust amount cur db = Inr (out, db')"
    "respond out key = Inr (http, resp)"
  shows "\<exists>c. charge_of key db' = Some c \<and> same_semantic_request c cust amount cur
    \<and> resp = charge_response_from_row c (http = 200) \<and> (http = 201 \<longleftrightarrow> charge_of key db = None)
    \<and> (http = 200 \<or> http = 201)"
proof -
  note res = insert_or_get_Inr(4) [OF assms(1)]
  show ?thesis
  proof (cases "charge_of key db")
    case None
    with res assms(2) show ?thesis by (auto simp: respond_def charge_of_snoc)
  next
    case (Some c)
    with res have "out = outcome_for c cust amount cur" "db' = db" by auto
    with Some assms(2) show ?thesis by (auto simp: respond_def outcome_for_def split: if_splits)
  qed
qed

text \<open>With the control routes unmounted nothing is ever injected.\<close>

fun serve_charges ::
    "('h, 'v, 'r) charge_env \<Rightarrow> (nat \<Rightarrow> 'r) \<Rightarrow> bool \<Rightarrow> (timestamp \<times> uuid \<times> ('h, 'v) charge_request) list
     \<Rightarrow> 'r chaos_state \<times> 'v db \<Rightarrow> charge_reply list \<times> 'r chaos_state \<times> 'v db" where
  "serve_charges env seed control [] s = ([], s)"
| "serve_charges env seed control ((now, i, req) # reqs) s =
     (case charge_app env seed control now i req s of
        (r, s') \<Rightarrow> (case serve_charges env seed control reqs s' of (rs, s'') \<Rightarrow> (r # rs, s'')))"

lemma idempotency_key_error:
  "idempotency_key ts hs = Inl e \<Longrightarrow> ce_status e = 400 \<and> ce_code e = ''INVALID_ARGUMENT''"
  by (auto simp: idempotency_key_def Let_def charge_invalid_argument_def res_simps split: if_splits)

lemma respond_error:
  "respond out k = Inl e \<Longrightarrow> ce_status e = 409 \<and> ce_code e = ''IDEMPOTENCY_CONFLICT''"
  by (auto simp: respond_def charge_idempotency_conflict_def split: insert_charge_outcome.splits)

lemma charge_error_codes:
  "ce_code (charge_error_of_validation v) = ''INVALID_ARGUMENT''" "ce_status (charge_error_of_validation v) = 400"
  "ce_code (charge_error_of_repo e) = ''INTERNAL''" "ce_status (charge_error_of_repo e) = 500"
  by (simp_all add: charge_error_of_validation_def charge_error_of_repo_def charge_invalid_argument_def
      charge_internal_def)

lemma decide_normal: "mode st = NormalMode \<Longrightarrow> decide g u st = (Proceed, st)"
  by (simp add: decide_def)

lemma guard_mode [simp]: "mode (track_inflight st) = mode st" "mode (drop_guard st) = mode st"
  by (simp_all add: track_inflight_def drop_guard_def Let_def)

lemma create_charge_normal:
  assumes "mode st = NormalMode" "create_charge env now i hs body (st, db) = (r, st', db')"
  shows "mode st' = NormalMode \<and> (\<forall>e. r = Inl e \<longrightarrow> ce_code e \<noteq> ''INJECTED_FAILURE'')"
proof (cases "idempotency_key (to_str env) hs")
  case (Inl e)
  with assms idempotency_key_error [OF Inl] show ?thesis by (auto simp: create_charge_def)
next
  case key: (Inr key)
  show ?thesis
  proof (cases "parse_charge_payload (from_value env) body")
    case (Inl e)
    with assms key show ?thesis by (auto simp: create_charge_def charge_error_codes)
  next
    case (Inr pl)
    with assms key show ?thesis
      by (auto simp: create_charge_def decide_normal charge_error_codes dest: respond_error split: sum.splits)
  qed
qed

lemma normal_mode_step:
  assumes "mode st = NormalMode" "charge_app env seed False now i req (st, db) = (r, st', db')"
  shows "mode st' = NormalMode \<and> (\<forall>e. r = ErrorReply e \<longrightarrow> ce_code e \<noteq> ''INJECTED_FAILURE'')"
proof (cases req)
  case (PostCharge hs body)
  obtain r0 st0 db0 where c: "create_charge env now i hs body (st, db) = (r0, st0, db0)"
    by (cases "create_charge env now i hs body (st, db)")
  with PostCharge assms(2) create_charge_normal [OF assms(1) c] show ?thesis
    by (auto simp: reply_of_def split: sum.splits prod.splits)
qed (use assms in auto)

lemma normal_mode_forever:
  assumes "mode st = NormalMode" "serve_charges env seed False reqs (st, db) = (rs, st', db')"
  shows "mode st' = NormalMode \<and> (\<forall>e. ErrorReply e \<in> set rs \<longrightarrow> ce_code e \<noteq> ''INJECTED_FAILURE'')"
  using assms
proof (induction reqs arbitrary: st db rs)
  case (Cons q reqs)
  obtain now i req where q: "q = (now, i, req)" by (cases q)
  obtain r st1 db1 where step: "charge_app env seed False now i req (st, db) = (r, st1, db1)"
    by (cases "charge_app env seed False now i req (st, db)")
  obtain rs' where run: "serve_charges env seed False reqs (st1, db1) = (rs', st', db')" "rs = r # rs'"
    using Cons.prems(2) step q by (auto split: prod.splits)
  from normal_mode_step [OF Cons.prems(1) step] Cons.IH [OF _ run(1)] run(2) show ?case by auto
qed simp

text \<open>The number of requests in flight, and its high-water mark, over any interleaving of starts and ends.\<close>

fun guard_step :: "bool \<Rightarrow> 'r chaos_state \<Rightarrow> 'r chaos_state" where
  "guard_step True st = track_inflight st"
| "guard_step False st = drop_guard st"

fun levels :: "nat \<Rightarrow> bool list \<Rightarrow> nat list" where
  "levels n [] = [n]"
| "levels n (True # es) = n # levels (n + 1) es"
| "levels n (False # es) = n # levels (n - 1) es"

lemma levels_nonempty: "levels n es \<noteq> []"
  by (induction n es rule: levels.induct) simp_all

lemma levels_head: "n \<in> set (levels n es)"
  by (induction n es rule: levels.induct) simp_all

lemma high_water:
  assumes "inflight st \<le> peak_inflight st"
  shows "inflight (fold guard_step es st) = last (levels (inflight st) es)
    \<and> peak_inflight (fold guard_step es st) = max (peak_inflight st) (Max (set (levels (inflight st) es)))"
  using assms
proof (induction es arbitrary: st)
  case (Cons e es)
  show ?case
  proof (cases e)
    case True
    have le: "inflight (track_inflight st) \<le> peak_inflight (track_inflight st)"
      by (simp add: track_inflight_def Let_def)
    have "Suc (inflight st) \<le> Max (set (levels (Suc (inflight st)) es))"
      using levels_head by (intro Max_ge) auto
    with Cons.IH [OF le] Cons.prems True show ?thesis
      by (simp add: track_inflight_def Let_def levels_nonempty max_def)
  next
    case False
    have le: "inflight (drop_guard st) \<le> peak_inflight (drop_guard st)"
      using Cons.prems by (simp add: drop_guard_def)
    from Cons.IH [OF le] Cons.prems False show ?thesis
      by (simp add: drop_guard_def levels_nonempty)
  qed
qed simp

end
