(* ===== verification/Api.thy ===== *)
theory Api
  imports JobsFencing Validation
begin

section \<open>The HTTP service: reliableq-api\<close>

text \<open>
  \<open>src/crates/reliableq-api/src\<close>: the error envelope, request-id correlation, the job handlers with their cursors, the
  health probes and the queue-depth gauges. A handler takes its extracted arguments and the database and returns its
  result, with the new database where it writes. The functions of other packages the handlers call (JSON
  decoding, UUID and RFC 3339 text, base64, UTF-8 validation) are the fields of \<open>api_env\<close>, and so are the JSON values the database
  takes into a \<open>jsonb\<close> column (\<open>ae_jsonb\<close>).
\<close>

record 'v api_env =
  ae_from_value :: "'v \<Rightarrow> string + charge_payload"
  ae_show_uuid :: "uuid \<Rightarrow> string"
  ae_parse_uuid :: "string \<Rightarrow> uuid option"
  ae_to_rfc3339 :: "timestamp \<Rightarrow> string"
  ae_parse_rfc3339 :: "string \<Rightarrow> timestamp option"
  ae_b64_encode :: "string \<Rightarrow> string"
  ae_b64_decode :: "string \<Rightarrow> string option"
  ae_utf8 :: "string \<Rightarrow> bool"
  ae_jsonb :: "'v \<Rightarrow> bool"

subsection \<open>error.rs\<close>

record api_error =
  er_status :: http_status
  er_code :: string
  er_message :: message

record error_body =
  eb_code :: string
  eb_message :: message
  eb_request_id :: string

definition invalid_argument :: "message \<Rightarrow> api_error" where
  "invalid_argument m = \<lparr>er_status = 400, er_code = ''INVALID_ARGUMENT'', er_message = m\<rparr>"

definition not_found :: "message \<Rightarrow> api_error" where
  "not_found m = \<lparr>er_status = 404, er_code = ''NOT_FOUND'', er_message = m\<rparr>"

definition invalid_state :: "message \<Rightarrow> api_error" where
  "invalid_state m = \<lparr>er_status = 409, er_code = ''INVALID_STATE'', er_message = m\<rparr>"

definition internal_error :: "message \<Rightarrow> api_error" where
  "internal_error m = \<lparr>er_status = 500, er_code = ''INTERNAL'', er_message = m\<rparr>"

definition error_of_repo :: "repo_error \<Rightarrow> api_error" where
  "error_of_repo e = internal_error (Text ''internal error'')"

definition error_of_validation :: "validation_error \<Rightarrow> api_error" where
  "error_of_validation e = invalid_argument (Text (validation_error_text e))"

definition error_response :: "string \<Rightarrow> api_error \<Rightarrow> http_status \<times> error_body" where
  "error_response request_id e =
     (er_status e, \<lparr>eb_code = er_code e, eb_message = er_message e, eb_request_id = request_id\<rparr>)"

definition timeout_error :: "bool \<Rightarrow> string \<Rightarrow> api_error" where
  "timeout_error elapsed text =
     (if elapsed then \<lparr>er_status = 408, er_code = ''TIMEOUT'', er_message = Text ''request timed out''\<rparr>
      else internal_error (Text text))"

subsection \<open>correlation.rs\<close>

definition request_id :: "('h \<Rightarrow> string option) \<Rightarrow> (string \<Rightarrow> 'h option) \<Rightarrow> string \<Rightarrow> string" where
  "request_id to_str hs fresh =
     (case Option.bind (hs ''x-request-id'') to_str of
        None \<Rightarrow> fresh
      | Some s \<Rightarrow> if s = [] then fresh else s)"

definition correlate ::
    "('h \<Rightarrow> string option) \<Rightarrow> (string \<Rightarrow> 'h option) \<Rightarrow> string
     \<Rightarrow> (string \<Rightarrow> (string \<Rightarrow> 'h option) \<Rightarrow> (string \<Rightarrow> 'h option) \<times> 'b)
     \<Rightarrow> (string \<Rightarrow> 'h option) \<Rightarrow> (string \<Rightarrow> 'h option) \<times> 'b" where
  "correlate to_str from_str fresh next hs =
     (let rid = request_id to_str hs fresh;
          hs' = (case from_str rid of None \<Rightarrow> hs | Some v \<Rightarrow> hs(''x-request-id'' \<mapsto> v))
      in case next rid hs' of
           (resp_headers, body) \<Rightarrow>
             ((case from_str rid of
                 None \<Rightarrow> resp_headers
               | Some v \<Rightarrow> resp_headers(''x-request-id'' \<mapsto> v)), body))"

subsection \<open>health.rs\<close>

definition live :: "http_status \<times> string" where
  "live = (200, ''ok'')"

definition ready :: "'v db \<Rightarrow> http_status \<times> string" where
  "ready db =
     (case query db (Inr ()) of
        Inr u \<Rightarrow> (200, ''ok'')
      | Inl e \<Rightarrow> (503, ''unavailable''))"

subsection \<open>metrics.rs\<close>

text \<open>The gauges set by a refresh; a failed query ends it early.\<close>

fun refresh_depths :: "'v db \<Rightarrow> job_status list \<Rightarrow> (repo_error + unit) \<times> (string \<times> nat) list" where
  "refresh_depths db [] = (Inr (), [])"
| "refresh_depths db (s # ss) =
     (case query db (Inr (length (filter (\<lambda>r. status r = as_db_str s) (jobs db)))) of
        Inl e \<Rightarrow> (Inl e, [])
      | Inr n \<Rightarrow> (case refresh_depths db ss of (res, gs) \<Rightarrow> (res, (as_db_str s, n) # gs)))"

definition oldest_pending_age :: "timestamp \<Rightarrow> 'v db \<Rightarrow> rat option" where
  "oldest_pending_age now db =
     (case sort_key created_at (filter (\<lambda>r. status r = as_db_str Pending) (jobs db)) of
        [] \<Rightarrow> None
      | r # _ \<Rightarrow> Some (of_int (now - created_at r) / 10 ^ 6))"

definition refresh_once :: "timestamp \<Rightarrow> 'v db \<Rightarrow> (repo_error + unit) \<times> (string \<times> nat) list \<times> rat option" where
  "refresh_once now db =
     (case refresh_depths db [Pending, Running, Succeeded, Dead] of
        (Inl e, gs) \<Rightarrow> (Inl e, gs, None)
      | (Inr u, gs) \<Rightarrow>
          (case query db (Inr (oldest_pending_age now db)) of
             Inl e \<Rightarrow> (Inl e, gs, None)
           | Inr age \<Rightarrow> (Inr (), gs, Some (case age of None \<Rightarrow> 0 | Some a \<Rightarrow> a))))"

subsection \<open>jobs.rs: requests and views\<close>

definition default_max_attempts :: int where "default_max_attempts = 5"
definition default_list_limit :: int where "default_list_limit = 50"
definition max_list_limit :: int where "max_list_limit = 200"
definition default_retry_budget_increment :: int where "default_retry_budget_increment = 5"

record 'v submit_request =
  sr_kind :: string
  sr_payload :: 'v
  sr_max_attempts :: "int option"

record submit_response =
  sub_id :: uuid
  sub_status :: job_status
  sub_attempts :: int
  sub_max_attempts :: int
  sub_created_at :: timestamp

record 'v job_summary =
  js_id :: uuid
  js_kind :: string
  js_payload :: 'v
  js_status :: job_status
  js_attempts :: int
  js_max_attempts :: int
  js_next_attempt_at :: timestamp
  js_last_error_code :: "string option"
  js_last_error_message :: "string option"
  js_created_at :: timestamp
  js_updated_at :: timestamp
  js_started_at :: "timestamp option"
  js_finished_at :: "timestamp option"
  js_version :: int

definition row_status_api :: "'v job_row \<Rightarrow> api_error + job_status" where
  "row_status_api r = map_err error_of_repo (row_status r)"

definition summary_of_row :: "'v job_row \<Rightarrow> api_error + 'v job_summary" where
  "summary_of_row r =
     bind_res (row_status_api r) (\<lambda>st.
     Inr \<lparr>js_id = jid r, js_kind = kind r, js_payload = payload r, js_status = st, js_attempts = attempts r,
          js_max_attempts = max_attempts r, js_next_attempt_at = next_attempt_at r,
          js_last_error_code = last_error_code r, js_last_error_message = last_error_message r,
          js_created_at = created_at r, js_updated_at = updated_at r, js_started_at = started_at r,
          js_finished_at = finished_at r, js_version = version r\<rparr>)"

record attempt_summary =
  as_number :: int
  as_worker_id :: string
  as_started_at :: timestamp
  as_finished_at :: "timestamp option"
  as_outcome :: "string option"
  as_error_code :: "string option"
  as_error_message :: "string option"
  as_scheduled_delay_ms :: "int option"
  as_duration_ms :: "int option"

definition attempt_summary_of_row :: "attempt_row \<Rightarrow> attempt_summary" where
  "attempt_summary_of_row a =
     \<lparr>as_number = at_number a, as_worker_id = at_worker_id a, as_started_at = at_started_at a,
      as_finished_at = at_finished_at a, as_outcome = at_outcome a, as_error_code = at_error_code a,
      as_error_message = at_error_message a, as_scheduled_delay_ms = at_scheduled_delay_ms a,
      as_duration_ms = at_duration_ms a\<rparr>"

fun collect_res :: "('e + 'a) list \<Rightarrow> 'e + 'a list" where
  "collect_res [] = Inr []"
| "collect_res (r # rs) = bind_res r (\<lambda>x. bind_res (collect_res rs) (\<lambda>xs. Inr (x # xs)))"

subsection \<open>jobs.rs: cursors\<close>

definition encode_cursor :: "'v api_env \<Rightarrow> timestamp \<times> uuid \<Rightarrow> string" where
  "encode_cursor env c =
     (case c of (t, i) \<Rightarrow> ae_b64_encode env (ae_to_rfc3339 env t @ ''|'' @ ae_show_uuid env i))"

fun split_once :: "char \<Rightarrow> string \<Rightarrow> (string \<times> string) option" where
  "split_once sep [] = None"
| "split_once sep (c # cs) =
     (if c = sep then Some ([], cs)
      else map_option (\<lambda>(a, b). (c # a, b)) (split_once sep cs))"

definition decode_cursor :: "'v api_env \<Rightarrow> string \<Rightarrow> api_error + (timestamp \<times> uuid)" where
  "decode_cursor env cursor =
     (let bad = invalid_argument (Text ''invalid cursor'') in
      bind_res (ok_or bad (ae_b64_decode env cursor)) (\<lambda>raw.
      bind_res (ensure (ae_utf8 env raw) bad) (\<lambda>_.
      bind_res (ok_or bad (split_once CHR ''|'' raw)) (\<lambda>(created_at_raw, id_raw).
      bind_res (ok_or bad (ae_parse_rfc3339 env created_at_raw)) (\<lambda>t.
      bind_res (ok_or bad (ae_parse_uuid env id_raw)) (\<lambda>i. Inr (t, i)))))))"

subsection \<open>jobs.rs: handlers\<close>

definition submit_job ::
    "'v api_env \<Rightarrow> timestamp \<Rightarrow> uuid \<Rightarrow> 'v submit_request \<Rightarrow> 'v db
     \<Rightarrow> (api_error + (http_status \<times> submit_response)) \<times> 'v db" where
  "submit_job env now new_id body db =
     (let mx = (case sr_max_attempts body of None \<Rightarrow> default_max_attempts | Some m \<Rightarrow> m);
          checked =
            bind_res (validate_kind (sr_kind body)) (\<lambda>_.
            bind_res (validate_max_attempts mx) (\<lambda>_.
            parse_charge_payload (ae_from_value env) (sr_payload body)))
      in case checked of
           Inl e \<Rightarrow> (Inl (error_of_validation e), db)
         | Inr pl \<Rightarrow>
             (case insert_job (ae_jsonb env) now new_id (sr_kind body) (sr_payload body) mx db of
                Inl e \<Rightarrow> (Inl (error_of_repo e), db)
              | Inr (r, db') \<Rightarrow>
                  (bind_res (row_status_api r) (\<lambda>st.
                   Inr (202, \<lparr>sub_id = jid r, sub_status = st, sub_attempts = attempts r,
                              sub_max_attempts = max_attempts r, sub_created_at = created_at r\<rparr>)), db')))"

definition get_job ::
    "'v api_env \<Rightarrow> uuid \<Rightarrow> 'v db \<Rightarrow> api_error + ('v job_summary \<times> attempt_summary list)" where
  "get_job env i db =
     bind_res (map_err error_of_repo (get_job_by_id i db)) (\<lambda>found.
     bind_res (ok_or (not_found (Text (''job '' @ ae_show_uuid env i @ '' not found''))) found) (\<lambda>r.
     bind_res (map_err error_of_repo (list_for_job i db)) (\<lambda>as.
     bind_res (summary_of_row r) (\<lambda>js. Inr (js, map attempt_summary_of_row as)))))"

record list_query =
  lq_status :: "string option"
  lq_limit :: "int option"
  lq_cursor :: "string option"

definition list_jobs_with_status ::
    "'v api_env \<Rightarrow> job_status option \<Rightarrow> list_query \<Rightarrow> 'v db
     \<Rightarrow> api_error + ('v job_summary list \<times> string option)" where
  "list_jobs_with_status env st q db =
     (let limit = (case lq_limit q of None \<Rightarrow> default_list_limit | Some l \<Rightarrow> l) in
      if \<not> (1 \<le> limit \<and> limit \<le> max_list_limit)
      then Inl (invalid_argument (Text (''limit must be between 1 and '' @ show_int max_list_limit)))
      else
        bind_res (case lq_cursor q of None \<Rightarrow> Inr None | Some c \<Rightarrow> bind_res (decode_cursor env c) (\<lambda>k. Inr (Some k))) (\<lambda>after.
        bind_res (map_err error_of_repo (list_jobs st limit after db)) (\<lambda>rows.
        let next_cursor =
              (if int (length rows) = limit
               then (if rows = [] then None else Some (encode_cursor env (created_at (last rows), jid (last rows))))
               else None)
        in bind_res (collect_res (map summary_of_row rows)) (\<lambda>items. Inr (items, next_cursor)))))"

definition list_jobs_handler ::
    "'v api_env \<Rightarrow> list_query \<Rightarrow> 'v db \<Rightarrow> api_error + ('v job_summary list \<times> string option)" where
  "list_jobs_handler env q db =
     bind_res
       (case lq_status q of
          None \<Rightarrow> Inr None
        | Some raw \<Rightarrow>
            bind_res (ok_or (invalid_argument (Quoting ''invalid status '' raw '''')) (parse_db_str raw)) (\<lambda>s. Inr (Some s))) (\<lambda>st.
     list_jobs_with_status env st q db)"

definition list_dead_jobs ::
    "'v api_env \<Rightarrow> list_query \<Rightarrow> 'v db \<Rightarrow> api_error + ('v job_summary list \<times> string option)" where
  "list_dead_jobs env q db = list_jobs_with_status env (Some Dead) q db"

text \<open>The budget a retry asks for.\<close>

definition retry_budget :: "int \<Rightarrow> int option \<Rightarrow> api_error + int" where
  "retry_budget used requested =
     (case requested of
        Some m \<Rightarrow>
          bind_res (map_err error_of_validation (validate_max_attempts m)) (\<lambda>_.
          if m \<le> used
          then Inl (invalid_argument (Text
                 (''max_attempts ('' @ show_int m @ '') must be greater than the job's existing attempts (''
                  @ show_int used @ '')'')))
          else Inr m)
      | None \<Rightarrow> Inr (wrap_i32 (used + default_retry_budget_increment)))"

text \<open>\<open>others\<close> is what happens to the database between the read and the update.\<close>

definition retry_job ::
    "'v api_env \<Rightarrow> timestamp \<Rightarrow> uuid \<Rightarrow> int option \<Rightarrow> ('v db \<Rightarrow> 'v db) \<Rightarrow> 'v db
     \<Rightarrow> (api_error + 'v job_summary) \<times> 'v db" where
  "retry_job env now i requested others db =
     (let budget =
        bind_res (map_err error_of_repo (get_job_by_id i db)) (\<lambda>found.
        bind_res (ok_or (not_found (Text (''job '' @ ae_show_uuid env i @ '' not found''))) found) (\<lambda>existing.
        bind_res (row_status_api existing) (\<lambda>st.
        if st \<noteq> Dead
        then Inl (invalid_state (Text (''job '' @ ae_show_uuid env i @ '' is '' @ display_status st
                    @ '', not DEAD; only a DEAD job can be retried'')))
        else retry_budget (attempts existing) requested)))
      in case budget of
           Inl e \<Rightarrow> (Inl e, db)
         | Inr mx \<Rightarrow>
             (let db1 = others db in
              case retry_dead_job now i mx db1 of
                Inl e \<Rightarrow> (Inl (error_of_repo e), db1)
              | Inr (revived, db') \<Rightarrow>
                  (bind_res
                    (ok_or (invalid_state (Text (''job '' @ ae_show_uuid env i
                              @ '' was no longer DEAD by the time the retry was applied''))) revived)
                    summary_of_row, db')))"

end
