(* ===== verification/Config.thy ===== *)
theory Config
  imports Retry
begin

section \<open>Typed configuration: reliableq-core config\<close>

text \<open>
  \<open>src/crates/reliableq-core/src/config.rs\<close>: the settings of the three services, read from environment
  variables with defaults and checked before use. The environment is a function from names to what
  \<open>std::env::var\<close> finds. Socket addresses are of an arbitrary type with its parser as a
  parameter. The reason of an error is a \<open>message\<close>.
\<close>

datatype env_var = Present string | NotPresent | NotUnicode

type_synonym env = "string \<Rightarrow> env_var"

datatype config_error =
    Missing string
  | Invalid string message

definition invalid :: "string \<Rightarrow> string \<Rightarrow> config_error" where
  "invalid name text = Invalid name (Text text)"

text \<open>\<open>parse_env\<close> at the unsigned type whose largest value is \<open>mx\<close>.\<close>

definition parse_env :: "nat \<Rightarrow> env \<Rightarrow> string \<Rightarrow> nat \<Rightarrow> config_error + nat" where
  "parse_env mx env key dflt =
     (case env key of
        Present raw \<Rightarrow> ok_or (Invalid key (Quoting ''could not parse '' raw '''')) (parse_uint mx (trim raw))
      | NotPresent \<Rightarrow> Inr dflt
      | NotUnicode \<Rightarrow> Inl (Invalid key (Text ''value is not valid UTF-8'')))"

text \<open>\<open>env::var(key)\<close> where every failure is treated alike.\<close>

fun var_ok :: "env_var \<Rightarrow> string option" where
  "var_ok (Present raw) = Some raw"
| "var_ok NotPresent = None"
| "var_ok NotUnicode = None"

subsection \<open>Database settings\<close>

record database_config =
  url :: string
  max_connections :: nat
  connect_timeout :: duration

definition default_max_connections :: nat where "default_max_connections = 10"
definition default_connect_timeout_secs :: nat where "default_connect_timeout_secs = 5"
definition max_allowed_connections :: nat where "max_allowed_connections = 100"
definition max_allowed_connect_timeout_secs :: nat where "max_allowed_connect_timeout_secs = 60"

definition database_validate :: "database_config \<Rightarrow> config_error + unit" where
  "database_validate c =
     (if trim (url c) = [] then Inl (invalid ''DATABASE_URL'' ''must not be empty'')
      else if \<not> (starts_with (url c) ''postgres://'' \<or> starts_with (url c) ''postgresql://'')
        then Inl (invalid ''DATABASE_URL'' ''must be a postgres:// URL'')
      else if max_connections c = 0 \<or> max_connections c > max_allowed_connections
        then Inl (invalid ''DATABASE_MAX_CONNECTIONS''
                    (''must be between 1 and '' @ show_nat max_allowed_connections))
      else if is_zero (connect_timeout c)
              \<or> connect_timeout c > from_secs max_allowed_connect_timeout_secs
        then Inl (invalid ''DATABASE_CONNECT_TIMEOUT_SECS''
                    (''must be between 1 and '' @ show_nat max_allowed_connect_timeout_secs @ '' seconds''))
      else Inr ())"

definition database_from_env :: "env \<Rightarrow> config_error + database_config" where
  "database_from_env env =
     bind_res (ok_or (Missing ''DATABASE_URL'') (var_ok (env ''DATABASE_URL''))) (\<lambda>url.
     bind_res (parse_env u32_max env ''DATABASE_MAX_CONNECTIONS'' default_max_connections) (\<lambda>conns.
     bind_res (parse_env u64_max env ''DATABASE_CONNECT_TIMEOUT_SECS'' default_connect_timeout_secs) (\<lambda>secs.
     let config = \<lparr>url = url, max_connections = conns, connect_timeout = from_secs secs\<rparr> in
     bind_res (database_validate config) (\<lambda>_. Inr config))))"

subsection \<open>HTTP server settings\<close>

record 'addr http_config =
  bind_addr :: 'addr
  max_body_bytes :: nat
  request_timeout :: duration

definition default_max_body_bytes :: nat where "default_max_body_bytes = 64 * 1024"
definition default_request_timeout_secs :: nat where "default_request_timeout_secs = 10"
definition max_allowed_body_bytes :: nat where "max_allowed_body_bytes = 10 * 1024 * 1024"
definition max_allowed_request_timeout_secs :: nat where "max_allowed_request_timeout_secs = 120"

definition http_validate :: "string \<Rightarrow> 'addr http_config \<Rightarrow> config_error + unit" where
  "http_validate prefix c =
     (if max_body_bytes c = 0 \<or> max_body_bytes c > max_allowed_body_bytes
        then Inl (invalid (prefix @ ''_MAX_BODY_BYTES'')
                    (''must be between 1 and '' @ show_nat max_allowed_body_bytes))
      else if is_zero (request_timeout c)
              \<or> request_timeout c > from_secs max_allowed_request_timeout_secs
        then Inl (invalid (prefix @ ''_REQUEST_TIMEOUT_SECS'')
                    (''must be between 1 and '' @ show_nat max_allowed_request_timeout_secs @ '' seconds''))
      else Inr ())"

definition http_from_env ::
    "(string \<Rightarrow> 'addr option) \<Rightarrow> env \<Rightarrow> string \<Rightarrow> string \<Rightarrow> config_error + 'addr http_config" where
  "http_from_env parse_addr env prefix default_bind_addr =
     (let bind_key = prefix @ ''_BIND_ADDR'';
          raw = (case var_ok (env bind_key) of Some raw \<Rightarrow> raw | None \<Rightarrow> default_bind_addr) in
     bind_res (ok_or (Invalid bind_key (Quoting '''' raw '' is not host:port'')) (parse_addr raw)) (\<lambda>addr.
     bind_res (parse_env u64_max env (prefix @ ''_MAX_BODY_BYTES'') default_max_body_bytes) (\<lambda>bytes.
     bind_res (parse_env u64_max env (prefix @ ''_REQUEST_TIMEOUT_SECS'') default_request_timeout_secs) (\<lambda>secs.
     let config = \<lparr>bind_addr = addr, max_body_bytes = bytes, request_timeout = from_secs secs\<rparr> in
     bind_res (http_validate prefix config) (\<lambda>_. Inr config)))))"

subsection \<open>Worker settings\<close>

record 'addr worker_config =
  concurrency :: nat
  poll_interval :: duration
  lease_duration :: duration
  charge_service_url :: string
  charge_request_timeout :: duration
  retry_base_delay :: duration
  retry_multiplier :: nat
  retry_max_delay :: duration
  shutdown_grace :: duration
  metrics_bind_addr :: 'addr

definition default_concurrency :: nat where "default_concurrency = 10"
definition default_poll_interval_ms :: nat where "default_poll_interval_ms = 250"
definition default_lease_duration_secs :: nat where "default_lease_duration_secs = 30"
definition default_charge_request_timeout_secs :: nat where "default_charge_request_timeout_secs = 10"
definition default_retry_base_delay_ms :: nat where "default_retry_base_delay_ms = 1000"
definition default_retry_multiplier :: nat where "default_retry_multiplier = 2"
definition default_retry_max_delay_secs :: nat where "default_retry_max_delay_secs = 60"
definition default_shutdown_grace_secs :: nat where "default_shutdown_grace_secs = 30"
definition default_metrics_bind_addr :: string where "default_metrics_bind_addr = ''0.0.0.0:9091''"
definition max_allowed_concurrency :: nat where "max_allowed_concurrency = 1000"
definition max_allowed_poll_interval_ms :: nat where "max_allowed_poll_interval_ms = 60000"
definition max_allowed_lease_duration_secs :: nat where "max_allowed_lease_duration_secs = 3600"
definition max_allowed_charge_request_timeout_secs :: nat where
  "max_allowed_charge_request_timeout_secs = 120"
definition max_allowed_retry_max_delay_secs :: nat where "max_allowed_retry_max_delay_secs = 3600"
definition max_allowed_shutdown_grace_secs :: nat where "max_allowed_shutdown_grace_secs = 3600"

definition worker_validate :: "'addr worker_config \<Rightarrow> config_error + unit" where
  "worker_validate c =
     (if concurrency c = 0 \<or> concurrency c > max_allowed_concurrency
        then Inl (invalid ''WORKER_CONCURRENCY''
                    (''must be between 1 and '' @ show_nat max_allowed_concurrency))
      else if is_zero (poll_interval c) \<or> poll_interval c > from_millis max_allowed_poll_interval_ms
        then Inl (invalid ''WORKER_POLL_INTERVAL_MS''
                    (''must be between 1 and '' @ show_nat max_allowed_poll_interval_ms @ '' ms''))
      else if is_zero (lease_duration c) \<or> lease_duration c > from_secs max_allowed_lease_duration_secs
        then Inl (invalid ''WORKER_LEASE_DURATION_SECS''
                    (''must be between 1 and '' @ show_nat max_allowed_lease_duration_secs @ '' seconds''))
      else if \<not> (starts_with (charge_service_url c) ''http://''
                 \<or> starts_with (charge_service_url c) ''https://'')
        then Inl (invalid ''WORKER_CHARGE_SERVICE_URL'' ''must be an http:// or https:// URL'')
      else if is_zero (charge_request_timeout c)
              \<or> charge_request_timeout c > from_secs max_allowed_charge_request_timeout_secs
        then Inl (invalid ''WORKER_CHARGE_REQUEST_TIMEOUT_SECS''
                    (''must be between 1 and '' @ show_nat max_allowed_charge_request_timeout_secs @ '' seconds''))
      else if is_zero (retry_base_delay c)
        then Inl (invalid ''WORKER_RETRY_BASE_DELAY_MS'' ''must be greater than 0'')
      else if retry_multiplier c < 1
        then Inl (invalid ''WORKER_RETRY_MULTIPLIER'' ''must be at least 1'')
      else if is_zero (retry_max_delay c) \<or> retry_max_delay c > from_secs max_allowed_retry_max_delay_secs
        then Inl (invalid ''WORKER_RETRY_MAX_DELAY_SECS''
                    (''must be between 1 and '' @ show_nat max_allowed_retry_max_delay_secs @ '' seconds''))
      else if retry_base_delay c > retry_max_delay c
        then Inl (invalid ''WORKER_RETRY_BASE_DELAY_MS'' ''must not exceed WORKER_RETRY_MAX_DELAY_SECS'')
      else if shutdown_grace c > from_secs max_allowed_shutdown_grace_secs
        then Inl (invalid ''WORKER_SHUTDOWN_GRACE_SECS''
                    (''must be at most '' @ show_nat max_allowed_shutdown_grace_secs @ '' seconds''))
      else Inr ())"

definition worker_from_env ::
    "(string \<Rightarrow> 'addr option) \<Rightarrow> env \<Rightarrow> config_error + 'addr worker_config" where
  "worker_from_env parse_addr env =
     bind_res (parse_env u64_max env ''WORKER_CONCURRENCY'' default_concurrency) (\<lambda>conc.
     bind_res (parse_env u64_max env ''WORKER_POLL_INTERVAL_MS'' default_poll_interval_ms) (\<lambda>poll_ms.
     bind_res (parse_env u64_max env ''WORKER_LEASE_DURATION_SECS'' default_lease_duration_secs) (\<lambda>lease_secs.
     bind_res (ok_or (Missing ''WORKER_CHARGE_SERVICE_URL'')
                 (var_ok (env ''WORKER_CHARGE_SERVICE_URL''))) (\<lambda>charge_url.
     bind_res (parse_env u64_max env ''WORKER_CHARGE_REQUEST_TIMEOUT_SECS''
                 default_charge_request_timeout_secs) (\<lambda>charge_secs.
     bind_res (parse_env u64_max env ''WORKER_RETRY_BASE_DELAY_MS'' default_retry_base_delay_ms) (\<lambda>base_ms.
     bind_res (parse_env u32_max env ''WORKER_RETRY_MULTIPLIER'' default_retry_multiplier) (\<lambda>mult.
     bind_res (parse_env u64_max env ''WORKER_RETRY_MAX_DELAY_SECS'' default_retry_max_delay_secs) (\<lambda>max_secs.
     bind_res (parse_env u64_max env ''WORKER_SHUTDOWN_GRACE_SECS'' default_shutdown_grace_secs) (\<lambda>grace_secs.
     let raw = (case var_ok (env ''WORKER_METRICS_BIND_ADDR'') of
                  Some raw \<Rightarrow> raw | None \<Rightarrow> default_metrics_bind_addr) in
     bind_res (ok_or (Invalid ''WORKER_METRICS_BIND_ADDR'' (Quoting '''' raw '' is not host:port''))
                 (parse_addr raw)) (\<lambda>addr.
     let config =
       \<lparr>concurrency = conc, poll_interval = from_millis poll_ms, lease_duration = from_secs lease_secs,
        charge_service_url = charge_url, charge_request_timeout = from_secs charge_secs,
        retry_base_delay = from_millis base_ms, retry_multiplier = mult,
        retry_max_delay = from_secs max_secs, shutdown_grace = from_secs grace_secs,
        metrics_bind_addr = addr\<rparr> in
     bind_res (worker_validate config) (\<lambda>_. Inr config)))))))))))"

definition worker_retry_policy :: "'addr worker_config \<Rightarrow> retry_policy" where
  "worker_retry_policy c =
     \<lparr>base_delay = retry_base_delay c, multiplier = retry_multiplier c, max_delay = retry_max_delay c\<rparr>"

subsection \<open>Log format\<close>

datatype log_format = Json | Pretty

definition log_format_from_env :: "env \<Rightarrow> config_error + log_format" where
  "log_format_from_env env =
     (case var_ok (env ''LOG_FORMAT'') of
        Some raw \<Rightarrow>
          let word = to_ascii_lowercase (trim raw)
          in if word = ''json'' then Inr Json
             else if word = ''pretty'' then Inr Pretty
             else Inl (Invalid ''LOG_FORMAT'' (Quoting '''' word '' must be \"json\" or \"pretty\"''))
      | None \<Rightarrow> Inr Json)"

subsection \<open>What an accepted configuration satisfies\<close>

lemma worker_validate_bounds:
  assumes "worker_validate c = Inr u"
  shows "1 \<le> concurrency c" "concurrency c \<le> 1000"
    and "0 < poll_interval c" "poll_interval c \<le> from_secs 60"
    and "0 < lease_duration c" "lease_duration c \<le> from_secs 3600"
    and "0 < charge_request_timeout c" "charge_request_timeout c \<le> from_secs 120"
    and "0 < retry_base_delay c" "retry_base_delay c \<le> retry_max_delay c"
    and "1 \<le> retry_multiplier c"
    and "retry_max_delay c \<le> from_secs 3600" "shutdown_grace c \<le> from_secs 3600"
  using assms
  by (simp_all add: worker_validate_def is_zero_def from_millis_def from_secs_def
      max_allowed_concurrency_def max_allowed_poll_interval_ms_def max_allowed_lease_duration_secs_def
      max_allowed_charge_request_timeout_secs_def max_allowed_retry_max_delay_secs_def
      max_allowed_shutdown_grace_secs_def split: if_splits)

lemma worker_from_env_validated:
  "worker_from_env parse_addr env = Inr c \<Longrightarrow> worker_validate c = Inr ()"
  unfolding worker_from_env_def Let_def
  by (auto simp: res_simps)

lemma worker_from_env_base_millis:
  "worker_from_env parse_addr env = Inr c \<Longrightarrow> \<exists>ms. retry_base_delay c = from_millis ms"
  unfolding worker_from_env_def Let_def
  by (auto simp: res_simps)

text \<open>
  A base delay read from the environment is a positive number of milliseconds, so the factor sticks
  at \<open>u32::MAX\<close> only far above the largest delay the validation admits.
\<close>

lemma worker_policy_reaches_cap:
  assumes "worker_from_env parse_addr env = Inr c"
  shows "max_delay (worker_retry_policy c) \<le> base_delay (worker_retry_policy c) * u32_max"
    and "max_delay (worker_retry_policy c) \<le> duration_max"
    and "1 \<le> multiplier (worker_retry_policy c)"
proof -
  note v = worker_validate_bounds [OF worker_from_env_validated [OF assms]]
  obtain ms where ms: "retry_base_delay c = from_millis ms"
    using worker_from_env_base_millis [OF assms] by blast
  with v(9) have "1 \<le> ms" by (simp add: from_millis_def)
  then have "from_millis 1 \<le> retry_base_delay c" unfolding ms by (rule from_millis_mono)
  then have m: "from_millis 1 * u32_max \<le> retry_base_delay c * u32_max" by (rule mult_le_mono1)
  have "from_secs 3600 \<le> from_millis 1 * u32_max"
    by (simp add: from_secs_def from_millis_def u32_max_def)
  with v(12) m have "retry_max_delay c \<le> retry_base_delay c * u32_max" by (meson order_trans)
  then show "max_delay (worker_retry_policy c) \<le> base_delay (worker_retry_policy c) * u32_max"
    by (simp add: worker_retry_policy_def)
  show "max_delay (worker_retry_policy c) \<le> duration_max"
    using v(12) by (simp add: worker_retry_policy_def duration_max_def from_secs_def)
  show "1 \<le> multiplier (worker_retry_policy c)"
    using v(11) by (simp add: worker_retry_policy_def)
qed

end
