(* ===== verification/System.thy ===== *)
theory System
  imports Worker FakeCharge Api Config
begin

section \<open>The system: services, workers and the network between them\<close>

text \<open>
  The services of the repository running together on one database, as a step relation. A step is one transaction or one
  message: a submission, a claim, a worker posting its charge request, the charge service handling a request it was
  sent, a reply or its loss, a lease renewal, a finaliser, an operator's retry, a crash, an outage. Steps of different workers
  and requests interleave in any order, and every transaction brings its own time. A request that was posted stays in the network: it may be
  handled late, after its worker gave up, or again.
\<close>

datatype 'v stage =
    Claimed
  | Posted charge_post
  | Judged "execution_failure + unit"

record 'v flight =
  fl_claim :: "'v claimed_job"
  fl_stage :: "'v stage"

record ('v, 'r) system_state =
  sys_db :: "'v db"
  sys_chaos :: "'r chaos_state"
  sys_flights :: "'v flight list"
  sys_network :: "charge_post list"

text \<open>
  The packages between the two programs: \<open>mk_headers\<close> and \<open>to_body\<close> are the request as the service receives it, \<open>body_text\<close> the
  response body as the worker reads it.
\<close>

record ('v, 'h, 'r, 'w, 'g) system_lib =
  lib_api :: "'v api_env"
  lib_charge :: "('h, 'v, 'r) charge_env"
  lib_worker :: "('v, 'w, 'g) worker_env"
  lib_headers :: "string \<Rightarrow> string \<Rightarrow> 'h headers"
  lib_body :: "charge_payload \<Rightarrow> 'v"
  lib_body_text :: "charge_error + charge_response \<Rightarrow> string option"
  lib_seed :: "nat \<Rightarrow> 'r"

definition charge_key :: "('v, 'h, 'r, 'w, 'g) system_lib \<Rightarrow> uuid \<Rightarrow> string" where
  "charge_key lib i = charge_idempotency_key (we_show_uuid (lib_worker lib)) i"

definition job_payload :: "('v, 'h, 'r, 'w, 'g) system_lib \<Rightarrow> 'v \<Rightarrow> validation_error + charge_payload" where
  "job_payload lib v = parse_charge_payload (we_from_value (lib_worker lib)) v"

definition fl_job :: "'v flight \<Rightarrow> 'v job_row" where
  "fl_job f = cj_job (fl_claim f)"

definition handle_request ::
    "('v, 'h, 'r, 'w, 'g) system_lib \<Rightarrow> timestamp \<Rightarrow> uuid \<Rightarrow> charge_post \<Rightarrow> 'r chaos_state \<times> 'v db
     \<Rightarrow> (charge_error + (http_status \<times> charge_response)) \<times> 'r chaos_state \<times> 'v db" where
  "handle_request lib now new_id m s =
     create_charge (lib_charge lib) now new_id
       (lib_headers lib (cp_idempotency_key m) (cp_request_id m)) (lib_body lib (cp_body m)) s"

definition wire_reply ::
    "('v, 'h, 'r, 'w, 'g) system_lib \<Rightarrow> charge_error + (http_status \<times> charge_response)
     \<Rightarrow> string + (http_status \<times> string option)" where
  "wire_reply lib r =
     (case r of
        Inl e \<Rightarrow> Inr (ce_status e, lib_body_text lib (Inl e))
      | Inr (code, resp) \<Rightarrow> Inr (code, lib_body_text lib (Inr resp)))"

definition judged :: "('v, 'h, 'r, 'w, 'g) system_lib \<Rightarrow> string + (http_status \<times> string option) \<Rightarrow> 'v stage" where
  "judged lib reply = Judged (fst (judge_reply (lib_worker lib) reply))"

definition replace_flight :: "'v flight \<Rightarrow> 'v stage \<Rightarrow> ('v, 'r) system_state \<Rightarrow> ('v, 'r) system_state" where
  "replace_flight f st s = s\<lparr>sys_flights := f\<lparr>fl_stage := st\<rparr> # remove1 f (sys_flights s)\<rparr>"

definition drop_flight :: "'v flight \<Rightarrow> ('v, 'r) system_state \<Rightarrow> ('v, 'r) system_state" where
  "drop_flight f s = s\<lparr>sys_flights := remove1 f (sys_flights s)\<rparr>"

definition start_flights :: "'v claimed_job list \<Rightarrow> ('v, 'r) system_state \<Rightarrow> ('v, 'r) system_state" where
  "start_flights cs s = s\<lparr>sys_flights := sys_flights s @ map (\<lambda>c. \<lparr>fl_claim = c, fl_stage = Claimed\<rparr>) cs\<rparr>"

text \<open>Injected failures that do not pretend to be a success.\<close>

fun sane_control :: "(nat \<Rightarrow> http_status option) \<Rightarrow> control_request \<Rightarrow> bool" where
  "sane_control u CNormal = True"
| "sane_control u (CFailNext n c) = (\<not> is_success (injected_status u c))"
| "sane_control u CPermanentReject = True"
| "sane_control u (CDelayMs ms) = True"
| "sane_control u (CFailRate rate c seed) = (\<not> is_success (injected_status u c))"

definition init_system :: "'r \<Rightarrow> ('v, 'r) system_state" where
  "init_system entropy =
     \<lparr>sys_db = empty_db, sys_chaos = default_chaos entropy, sys_flights = [], sys_network = []\<rparr>"

inductive sys_step ::
    "('v, 'h, 'r, 'w, 'g) system_lib \<Rightarrow> ('v, 'r) system_state \<Rightarrow> ('v, 'r) system_state \<Rightarrow> bool"
  for lib :: "('v, 'h, 'r, 'w, 'g) system_lib" where
  submit: "submit_job (lib_api lib) now i body (sys_db s) = (res, db') \<Longrightarrow>
    sys_step lib s (s\<lparr>sys_db := db'\<rparr>)"
| replay: "i32 mx \<Longrightarrow> retry_dead_job now i mx (sys_db s) = Inr (found, db') \<Longrightarrow>
    sys_step lib s (s\<lparr>sys_db := db'\<rparr>)"
| claim: "fresh_tokens tok (sys_db s) \<Longrightarrow>
    claim_pending_jobs now locked tok worker limit lease (sys_db s) = Inr (cs, db') \<Longrightarrow>
    sys_step lib s (start_flights cs (s\<lparr>sys_db := db'\<rparr>))"
| invalid: "f \<in> set (sys_flights s) \<Longrightarrow> fl_stage f = Claimed \<Longrightarrow> job_payload lib (payload (fl_job f)) = Inl e \<Longrightarrow>
    sys_step lib s (replace_flight f
      (Judged (Inl \<lparr>ef_class = Permanent, ef_code = ''INVALID_PAYLOAD'', ef_message = validation_error_text e\<rparr>)) s)"
| post: "f \<in> set (sys_flights s) \<Longrightarrow> fl_stage f = Claimed \<Longrightarrow> job_payload lib (payload (fl_job f)) = Inr pl \<Longrightarrow>
    m = charge_request (lib_worker lib) (jid (fl_job f)) pl \<Longrightarrow>
    sys_step lib s (replace_flight f (Posted m) (s\<lparr>sys_network := m # sys_network s\<rparr>))"
| handled: "m \<in> set (sys_network s) \<Longrightarrow>
    handle_request lib now new_id m (sys_chaos s, sys_db s) = (r, chaos', db') \<Longrightarrow>
    sys_step lib s (s\<lparr>sys_chaos := chaos', sys_db := db'\<rparr>)"
| replied: "f \<in> set (sys_flights s) \<Longrightarrow> fl_stage f = Posted m \<Longrightarrow> m \<in> set (sys_network s) \<Longrightarrow>
    handle_request lib now new_id m (sys_chaos s, sys_db s) = (r, chaos', db') \<Longrightarrow>
    sys_step lib s (replace_flight f (judged lib (wire_reply lib r)) (s\<lparr>sys_chaos := chaos', sys_db := db'\<rparr>))"
| unreachable: "f \<in> set (sys_flights s) \<Longrightarrow> fl_stage f = Posted m \<Longrightarrow>
    sys_step lib s (replace_flight f (judged lib (Inl text)) s)"
| gateway: "f \<in> set (sys_flights s) \<Longrightarrow> fl_stage f = Posted m \<Longrightarrow> \<not> is_success code \<Longrightarrow>
    sys_step lib s (replace_flight f (judged lib (Inr (code, body))) s)"
| renewal: "f \<in> set (sys_flights s) \<Longrightarrow> lease_token (fl_job f) = Some tk \<Longrightarrow>
    renew_lease now (jid (fl_job f)) tk lease (sys_db s) = Inr (b, db') \<Longrightarrow>
    sys_step lib s (s\<lparr>sys_db := db'\<rparr>)"
| finalized: "f \<in> set (sys_flights s) \<Longrightarrow> fl_stage f = Judged outcome \<Longrightarrow> lease_token (fl_job f) = Some tk \<Longrightarrow>
    v = fst (choose_verdict (lib_worker lib) (cj_attempt_number (fl_claim f)) (max_attempts (fl_job f)) elapsed rng outcome)
      \<or> v = crash_verdict elapsed outcome \<Longrightarrow>
    sys_step lib s (drop_flight f
      (s\<lparr>sys_db := finalized_db (finalize now (jid (fl_job f)) tk v (sys_db s)) (sys_db s)\<rparr>))"
| crash: "f \<in> set (sys_flights s) \<Longrightarrow> sys_step lib s (drop_flight f s)"
| outage: "sys_step lib s (s\<lparr>sys_db := (sys_db s)\<lparr>db_up := up\<rparr>\<rparr>)"
| control: "sane_control (from_u16 (lib_charge lib)) c \<Longrightarrow>
    set_control (lib_seed lib) c (sys_chaos s) = (ok, chaos') \<Longrightarrow>
    sys_step lib s (s\<lparr>sys_chaos := chaos'\<rparr>)"
| other_client: "(\<And>k i. idempotency_key (to_str (lib_charge lib)) hs = Inr k \<Longrightarrow> k \<noteq> charge_key lib i) \<Longrightarrow>
    create_charge (lib_charge lib) now new_id hs body (sys_chaos s, sys_db s) = (r, chaos', db') \<Longrightarrow>
    sys_step lib s (s\<lparr>sys_chaos := chaos', sys_db := db'\<rparr>)"

definition reachable :: "('v, 'h, 'r, 'w, 'g) system_lib \<Rightarrow> ('v, 'r) system_state \<Rightarrow> bool" where
  "reachable lib s \<longleftrightarrow> (\<exists>entropy. (sys_step lib)\<^sup>*\<^sup>* (init_system entropy) s)"

text \<open>
  What the packages between the programs are relied on for: the service reads back the key and the body the worker sent (a key of a
  job, a body that the worker decoded from a stored payload), both programs decode JSON alike, and UUIDs print as distinct strings of hexadecimal digits and hyphens.
\<close>

definition uuid_chars :: "char set" where
  "uuid_chars = set ''0123456789abcdef-''"

definition wire_ok :: "('v, 'h, 'r, 'w, 'g) system_lib \<Rightarrow> bool" where
  "wire_ok lib \<longleftrightarrow>
     (\<forall>i rid. Option.bind (lib_headers lib (charge_key lib i) rid ''idempotency-key'') (to_str (lib_charge lib)) = Some (charge_key lib i))
     \<and> (\<forall>v pl. we_from_value (lib_worker lib) v = Inr pl \<longrightarrow> from_value (lib_charge lib) (lib_body lib pl) = Inr pl)
     \<and> ae_from_value (lib_api lib) = we_from_value (lib_worker lib)
     \<and> inj (we_show_uuid (lib_worker lib))
     \<and> (\<forall>i. we_show_uuid (lib_worker lib) i \<noteq> [] \<and> set (we_show_uuid (lib_worker lib) i) \<subseteq> uuid_chars)"

text \<open>A JSON text with the character \<open>U+0000\<close> in a string is no \<open>jsonb\<close> value, so the strings of a stored payload can be stored as
  texts.\<close>

definition jsonb_texts_ok :: "('v, 'h, 'r, 'w, 'g) system_lib \<Rightarrow> bool" where
  "jsonb_texts_ok lib \<longleftrightarrow>
     (\<forall>v pl. ae_jsonb (lib_api lib) v \<and> we_from_value (lib_worker lib) v = Inr pl \<longrightarrow> text_ok (customer_id pl))"

end
