(* ===== verification/SystemInv.thy ===== *)
theory SystemInv
  imports System
begin

section \<open>The invariant of the running system\<close>

text \<open>
  What holds in every reachable state of \<open>System\<close>: the tables are consistent, every job's payload is valid, every charge under a
  job's key was made for that job with its payload, a worker that saw a success did so because the charge exists, and so does
  the charge of every succeeded job.
\<close>

subsection \<open>Frames of the job operations\<close>

text \<open>What an operation of the job repository never touches, and that it lets no job succeed.\<close>

definition job_core :: "'v job_row \<Rightarrow> uuid \<times> 'v" where
  "job_core r = (jid r, payload r)"

definition succeeded_ids :: "'v db \<Rightarrow> uuid set" where
  "succeeded_ids db = {jid r |r. r \<in> set (jobs db) \<and> status r = as_db_str Succeeded}"

definition quiet :: "'v db \<Rightarrow> 'v db \<Rightarrow> bool" where
  "quiet db db' \<longleftrightarrow> map job_core (jobs db') = map job_core (jobs db) \<and> charges db' = charges db
     \<and> succeeded_ids db' \<subseteq> succeeded_ids db"

lemma quiet_refl: "quiet db db"
  by (simp add: quiet_def)

lemma quiet_map:
  assumes "jobs db' = map h (jobs db)" "charges db' = charges db"
    and "\<And>r. r \<in> set (jobs db) \<Longrightarrow> job_core (h r) = job_core r"
    and "\<And>r. r \<in> set (jobs db) \<Longrightarrow> status (h r) = as_db_str Succeeded \<Longrightarrow> status r = as_db_str Succeeded"
  shows "quiet db db'"
proof -
  have "map job_core (jobs db') = map job_core (jobs db)" unfolding assms(1) using assms(3) by simp
  moreover have "jid (h r) = jid r" if "r \<in> set (jobs db)" for r using assms(3) [OF that] by (simp add: job_core_def)
  then have "succeeded_ids db' \<subseteq> succeeded_ids db"
    unfolding succeeded_ids_def assms(1) using assms(4) by fastforce
  ultimately show ?thesis using assms(2) by (simp add: quiet_def)
qed

lemma renew_lease_quiet:
  assumes "db_inv db" "renew_lease now i t lease db = Inr (b, db')"
  shows "quiet db db'"
proof -
  have up: "db_up db" using assms(2) by (auto simp: renew_lease_def query_def split: if_splits)
  have "db' = db\<lparr>jobs := map (\<lambda>r. if holds_lease i t r then renew_row now lease r else r) (jobs db)\<rparr>"
    using assms(2) unfolding renew_lease_result [OF assms(1) up] by simp
  then show ?thesis
    by (intro quiet_map [where h = "\<lambda>r. if holds_lease i t r then renew_row now lease r else r"])
      (auto simp: job_core_def renew_row_def split: if_splits)
qed

lemma retry_dead_job_quiet:
  assumes "retry_dead_job now i mx db = Inr (res, db')"
  shows "quiet db db'"
  unfolding retry_dead_job_Inr(2) [OF assms]
  by (intro quiet_map [where h = "\<lambda>s. if dead_job i s then revive_row now mx s else s"])
    (auto simp: job_core_def split: if_splits)

lemma claimed_db_charges: "charges (claimed_db now locked tok worker limit lease db) = charges db"
  by (simp add: claimed_db_def Let_def)

lemma claim_quiet: "quiet db (claimed_db now locked tok worker limit lease db)"
  by (rule quiet_map [OF claimed_db_jobs claimed_db_charges])
    (auto simp: job_core_def cleaned_row_def exhaust_row_def split: if_splits)

lemma verdict_row_core: "job_core (verdict_row now v r) = job_core r"
  using closing_simps(1,4) [OF closing_verdict, of now v r] by (simp add: job_core_def)

lemma verdict_row_succeeded: "status (verdict_row now v r) = as_db_str Succeeded \<longleftrightarrow> is_success_verdict v"
  by (cases v) (simp_all add: succeed_row_def retry_row_def dead_row_def)

lemma verdict_db_succeeded:
  "succeeded_ids (verdict_db now i t v db) \<subseteq> succeeded_ids db \<union> (if is_success_verdict v then {i} else {})"
proof
  fix j assume "j \<in> succeeded_ids (verdict_db now i t v db)"
  then obtain r where r: "r \<in> set (jobs db)"
    "jid (if holds_lease i t r then verdict_row now v r else r) = j"
    "status (if holds_lease i t r then verdict_row now v r else r) = as_db_str Succeeded"
    by (auto simp: succeeded_ids_def)
  show "j \<in> succeeded_ids db \<union> (if is_success_verdict v then {i} else {})"
  proof (cases "holds_lease i t r")
    case True
    then have "jid r = i" by (simp add: holds_lease_def)
    with r True show ?thesis
      using closing_simps(1) [OF closing_verdict, of now v r] by (simp add: verdict_row_succeeded)
  qed (use r in \<open>auto simp: succeeded_ids_def\<close>)
qed

lemma verdict_db_core: "map job_core (jobs (verdict_db now i t v db)) = map job_core (jobs db)"
  by (simp add: verdict_row_core)

lemma finalized_db_cases:
  assumes "db_inv db"
  shows "finalized_db (finalize now i t v db) db = db
    \<or> (owns i t db \<and> finalized_db (finalize now i t v db) db = verdict_db now i t v db)"
  using finalize_owned [OF assms, of i t v now] finalize_stale [of i t db v now] finalize_down [of db now i t v]
    finalize_refused [of v db now i t]
  by (cases "db_up db"; cases "verdict_texts_ok v"; cases "owns i t db") (simp_all add: finalized_db_def)

subsection \<open>What the packages give\<close>

lemma uuid_chars_graphic: "c \<in> uuid_chars \<Longrightarrow> graphic c"
proof -
  have "\<forall>c \<in> uuid_chars. graphic c" by code_simp
  then show "c \<in> uuid_chars \<Longrightarrow> graphic c" by blast
qed

lemma trim_charge_key:
  assumes "wire_ok lib"
  shows "trim (charge_key lib i) = charge_key lib i"
proof -
  let ?u = "we_show_uuid (lib_worker lib) i"
  have u: "?u \<noteq> []" "set ?u \<subseteq> uuid_chars" using assms by (simp_all add: wire_ok_def)
  have k: "charge_key lib i = CHR ''r'' # ''eliableq:charge:'' @ ?u"
    by (simp add: charge_key_def charge_idempotency_key_def)
  have "last (charge_key lib i) = last ?u" using u(1) by (simp add: k)
  moreover have "last ?u \<in> uuid_chars" using u last_in_set by blast
  ultimately have "graphic (last (charge_key lib i))" using uuid_chars_graphic by simp
  moreover have "graphic (hd (charge_key lib i))" by (simp add: k graphic_def)
  ultimately show ?thesis by (intro trim_graphic) (simp_all add: k)
qed

lemma charge_key_inj: "wire_ok lib \<Longrightarrow> charge_key lib i = charge_key lib j \<longleftrightarrow> i = j"
  unfolding charge_key_def by (rule charge_idempotency_key_inj) (simp add: wire_ok_def)

lemma charge_key_nonempty: "charge_key lib i \<noteq> []"
  by (simp add: charge_key_def charge_idempotency_key_def)

lemma received_key:
  assumes "wire_ok lib"
  shows "idempotency_key (to_str (lib_charge lib)) (lib_headers lib (charge_key lib i) rid) = Inr (charge_key lib i)"
proof -
  have "Option.bind (lib_headers lib (charge_key lib i) rid ''idempotency-key'') (to_str (lib_charge lib)) = Some (charge_key lib i)"
    using assms by (simp add: wire_ok_def)
  then obtain h where "lib_headers lib (charge_key lib i) rid ''idempotency-key'' = Some h"
    "to_str (lib_charge lib) h = Some (charge_key lib i)" by (auto simp: bind_eq_Some_conv)
  then show ?thesis by (simp add: idempotency_key_def trim_charge_key [OF assms] charge_key_nonempty Let_def)
qed

lemma received_body:
  assumes "wire_ok lib" "job_payload lib v = Inr pl"
  shows "parse_charge_payload (from_value (lib_charge lib)) (lib_body lib pl) = Inr pl"
  using assms by (auto simp: wire_ok_def job_payload_def parse_charge_payload_ok)

lemma charge_key_text_ok:
  assumes "wire_ok lib"
  shows "text_ok (charge_key lib i)"
proof -
  have "text_ok s" if "set s \<subseteq> uuid_chars" for s
    using that by (auto simp: text_ok_def uuid_chars_def)
  with assms show ?thesis by (simp add: wire_ok_def charge_key_def charge_idempotency_key_def)
qed

lemma currency_text_ok:
  assumes "valid_payload pl"
  shows "text_ok (currency pl)"
  using assms by (auto simp: valid_payload_def text_ok_def less_eq_char_def)

subsection \<open>The invariant\<close>

definition cores :: "'v db \<Rightarrow> (uuid \<times> 'v) set" where
  "cores db = set (map job_core (jobs db))"

definition charge_for :: "charge_payload \<Rightarrow> charge_row \<Rightarrow> bool" where
  "charge_for pl c \<longleftrightarrow> same_semantic_request c (customer_id pl) (amount_cents pl) (currency pl)"

definition charged :: "('v, 'h, 'r, 'w, 'g) system_lib \<Rightarrow> uuid \<Rightarrow> 'v db \<Rightarrow> bool" where
  "charged lib i db \<longleftrightarrow> charge_of (charge_key lib i) db \<noteq> None"

definition data_inv :: "('v, 'h, 'r, 'w, 'g) system_lib \<Rightarrow> 'v db \<Rightarrow> bool" where
  "data_inv lib db \<longleftrightarrow>
     db_inv db \<and> charges_inv db
     \<and> (\<forall>(i, v) \<in> cores db. ae_jsonb (lib_api lib) v \<and> (\<exists>pl. job_payload lib v = Inr pl))
     \<and> (\<forall>c \<in> set (charges db). \<forall>i. ch_idempotency_key c = charge_key lib i \<longrightarrow>
          (\<exists>v pl. (i, v) \<in> cores db \<and> job_payload lib v = Inr pl \<and> charge_for pl c))
     \<and> (\<forall>i \<in> succeeded_ids db. charged lib i db)"

definition flight_inv :: "('v, 'h, 'r, 'w, 'g) system_lib \<Rightarrow> 'v db \<Rightarrow> 'v flight \<Rightarrow> bool" where
  "flight_inv lib db f \<longleftrightarrow>
     job_core (fl_job f) \<in> cores db
     \<and> (case fl_stage f of
          Claimed \<Rightarrow> True
        | Posted m \<Rightarrow> \<exists>pl. job_payload lib (payload (fl_job f)) = Inr pl
                     \<and> m = charge_request (lib_worker lib) (jid (fl_job f)) pl
        | Judged (Inl e) \<Rightarrow> True
        | Judged (Inr u) \<Rightarrow> charged lib (jid (fl_job f)) db)"

definition message_inv :: "('v, 'h, 'r, 'w, 'g) system_lib \<Rightarrow> 'v db \<Rightarrow> charge_post \<Rightarrow> bool" where
  "message_inv lib db m \<longleftrightarrow>
     (\<exists>i v pl. (i, v) \<in> cores db \<and> job_payload lib v = Inr pl \<and> m = charge_request (lib_worker lib) i pl)"

definition sane_mode :: "(nat \<Rightarrow> http_status option) \<Rightarrow> 'r chaos_state \<Rightarrow> bool" where
  "sane_mode u st \<longleftrightarrow>
     (case mode st of
        FailNext n c \<Rightarrow> \<not> is_success (injected_status u c)
      | FailRate r c \<Rightarrow> \<not> is_success (injected_status u c)
      | _ \<Rightarrow> True)"

definition sys_inv :: "('v, 'h, 'r, 'w, 'g) system_lib \<Rightarrow> ('v, 'r) system_state \<Rightarrow> bool" where
  "sys_inv lib s \<longleftrightarrow>
     data_inv lib (sys_db s) \<and> sane_mode (from_u16 (lib_charge lib)) (sys_chaos s)
     \<and> (\<forall>f \<in> set (sys_flights s). flight_inv lib (sys_db s) f)
     \<and> (\<forall>m \<in> set (sys_network s). message_inv lib (sys_db s) m)"

subsection \<open>Growing databases\<close>

definition grows :: "'v db \<Rightarrow> 'v db \<Rightarrow> bool" where
  "grows db db' \<longleftrightarrow> cores db \<subseteq> cores db' \<and> (\<forall>k c. charge_of k db = Some c \<longrightarrow> charge_of k db' = Some c)"

lemma charged_grows: "grows db db' \<Longrightarrow> charged lib i db \<Longrightarrow> charged lib i db'"
  by (auto simp: grows_def charged_def)

lemma flight_grows: "grows db db' \<Longrightarrow> flight_inv lib db f \<Longrightarrow> flight_inv lib db' f"
  using charged_grows [of db db' lib]
  by (auto simp: flight_inv_def grows_def split: stage.splits sum.splits)

lemma message_grows: "grows db db' \<Longrightarrow> message_inv lib db m \<Longrightarrow> message_inv lib db' m"
  unfolding message_inv_def grows_def by blast

lemma sys_inv_grows:
  assumes "sys_inv lib s" "grows (sys_db s) db'" "data_inv lib db'" "sane_mode (from_u16 (lib_charge lib)) chaos'"
  shows "sys_inv lib (s\<lparr>sys_chaos := chaos', sys_db := db'\<rparr>)"
  using assms flight_grows [OF assms(2), of lib] message_grows [OF assms(2), of lib] by (simp add: sys_inv_def)

lemma quiet_cores: "quiet db db' \<Longrightarrow> cores db' = cores db"
  by (simp add: quiet_def cores_def)

lemma quiet_charge_of: "quiet db db' \<Longrightarrow> charge_of k db' = charge_of k db"
  by (simp add: quiet_def charge_of_def)

lemma quiet_grows: "quiet db db' \<Longrightarrow> grows db db'"
  by (simp add: grows_def quiet_cores quiet_charge_of)

lemma data_inv_quiet:
  assumes "data_inv lib db" "quiet db db'" "db_inv db'"
  shows "data_inv lib db'"
proof -
  have "charges db' = charges db" "succeeded_ids db' \<subseteq> succeeded_ids db" using assms(2) by (simp_all add: quiet_def)
  with assms(1,3) quiet_cores [OF assms(2)] quiet_charge_of [OF assms(2)] show ?thesis
    unfolding data_inv_def charged_def charges_inv_def by auto
qed

lemma data_inv_verdict:
  assumes "data_inv lib db" "is_success_verdict v \<Longrightarrow> charged lib i db"
  shows "data_inv lib (finalized_db (finalize now i t v db) db)"
proof -
  have inv: "db_inv db" using assms(1) by (simp add: data_inv_def)
  from finalized_db_cases [OF inv, of now i t v] show ?thesis
  proof
    assume "finalized_db (finalize now i t v db) db = db"
    with assms(1) show ?thesis by simp
  next
    assume *: "owns i t db \<and> finalized_db (finalize now i t v db) db = verdict_db now i t v db"
    let ?db' = "verdict_db now i t v db"
    have inv': "db_inv ?db'" using finalized_db_inv [OF inv, of now i t v] * by simp
    have "cores ?db' = cores db" by (simp only: cores_def verdict_db_core)
    moreover have "charge_of k ?db' = charge_of k db" for k by (simp add: charge_of_def)
    moreover have "charged lib j db" if "j \<in> succeeded_ids ?db'" for j
      using verdict_db_succeeded [of now i t v db] that assms by (auto simp: data_inv_def split: if_splits)
    ultimately have "data_inv lib ?db'"
      using assms(1) inv' by (simp add: data_inv_def charges_inv_def charged_def)
    with * show ?thesis by simp
  qed
qed

lemma finalized_grows:
  assumes "db_inv db"
  shows "grows db (finalized_db (finalize now i t v db) db)"
proof -
  have "cores (verdict_db now i t v db) = cores db" by (simp only: cores_def verdict_db_core)
  with finalized_db_cases [OF assms, of now i t v] show ?thesis
    by (auto simp: grows_def charge_of_def)
qed

subsection \<open>Submission\<close>

lemma submit_job_db:
  assumes "submit_job env now i body db = (res, db')"
  shows "db' = db \<or> (\<exists>r mx pl. insert_job (ae_jsonb env) now i (sr_kind body) (sr_payload body) mx db = Inr (r, db') \<and> 1 \<le> mx \<and> mx \<le> 20
    \<and> parse_charge_payload (ae_from_value env) (sr_payload body) = Inr pl)"
  using assms
  by (auto simp: submit_job_def Let_def res_simps validate_max_attempts_ok split: sum.splits prod.splits)

lemma data_inv_insert:
  assumes inv: "data_inv lib db" and ins: "insert_job (ae_jsonb (lib_api lib)) now i k v mx db = Inr (r, db')" "i32 mx"
    and pl: "job_payload lib v = Inr pl"
  shows "data_inv lib db' \<and> grows db db'"
proof -
  note res = insert_job_Inr [OF ins(1)]
  have core: "job_core r = (i, v)" and st: "status r = as_db_str Pending"
    by (simp_all add: res(4) job_core_def new_job_row_def)
  have cs: "cores db' = insert (i, v) (cores db)" by (simp add: cores_def res(5) core)
  have ch: "charges db' = charges db" by (simp add: res(5))
  then have cof: "charge_of j db' = charge_of j db" for j by (simp add: charge_of_def)
  have suc: "succeeded_ids db' = succeeded_ids db" using st by (auto simp: succeeded_ids_def res(5))
  have "db_inv db'" using inv ins by (auto simp: data_inv_def intro: insert_job_preserves)
  moreover have "\<forall>c \<in> set (charges db'). \<forall>i. ch_idempotency_key c = charge_key lib i \<longrightarrow>
      (\<exists>v pl. (i, v) \<in> cores db' \<and> job_payload lib v = Inr pl \<and> charge_for pl c)"
    using inv unfolding data_inv_def ch cs by blast
  ultimately have "data_inv lib db'"
    using inv pl res(7) unfolding data_inv_def ch cs suc charges_inv_def charged_def cof by auto
  then show ?thesis by (simp add: grows_def cs cof subset_insertI)
qed

subsection \<open>The charge service\<close>

lemma decide_sane:
  assumes "sane_mode u st" "decide g u st = (d, st')"
  shows "sane_mode u st'" "d = Reject code \<Longrightarrow> \<not> is_success code"
  using assms
  by (auto simp: decide_def sane_mode_def Let_def is_success_def split: chaos_mode.splits prod.splits if_splits)

lemma track_sane: "sane_mode u (track_inflight st) = sane_mode u st" "sane_mode u (drop_guard st) = sane_mode u st"
  by (simp_all add: sane_mode_def)

lemma set_control_sane:
  assumes "sane_mode u st" "sane_control u c" "set_control seed c st = (r, st')"
  shows "sane_mode u st'"
  using assms by (cases c) (auto simp: set_control_def sane_mode_def split: if_splits option.splits)

lemma create_charge_sane:
  assumes "sane_mode (from_u16 env) st" "create_charge env now i hs body (st, db) = (r, st', db')"
  shows "sane_mode (from_u16 env) st'" "r = Inl e \<Longrightarrow> \<not> is_success (ce_status e)"
proof -
  obtain d st1 where d: "decide (gen env) (from_u16 env) (track_inflight st) = (d, st1)"
    by (cases "decide (gen env) (from_u16 env) (track_inflight st)")
  have sane: "sane_mode (from_u16 env) st1" "\<And>code. d = Reject code \<Longrightarrow> \<not> is_success code"
    using decide_sane [OF _ d] assms(1) by (simp_all add: track_sane)
  show "sane_mode (from_u16 env) st'"
    using assms d sane(1) by (auto simp: create_charge_def track_sane split: sum.splits prod.splits chaos_decision.splits)
  show "\<not> is_success (ce_status e)" if "r = Inl e"
  proof (cases "idempotency_key (to_str env) hs")
    case (Inl e')
    with assms(2) that idempotency_key_error [OF Inl] show ?thesis by (auto simp: create_charge_def is_success_def)
  next
    case key: (Inr k)
    show ?thesis
    proof (cases "parse_charge_payload (from_value env) body")
      case (Inl e')
      with assms(2) that key show ?thesis by (auto simp: create_charge_def is_success_def charge_error_codes)
    next
      case (Inr pl)
      with assms(2) that key d sane(2) show ?thesis
        by (auto simp: create_charge_def is_success_def charge_error_codes split: chaos_decision.splits sum.splits
            dest!: respond_error)
    qed
  qed
qed

text \<open>A charge stored for a job's payload, or under a key that is no job's, keeps the data consistent.\<close>

lemma data_inv_charge:
  assumes inv: "data_inv lib db"
    and ins: "insert_or_get_charge now c k cust amount cur db = Inr (out, db')"
    and own: "\<And>i. k = charge_key lib i \<Longrightarrow>
      \<exists>v pl. (i, v) \<in> cores db \<and> job_payload lib v = Inr pl \<and> (cust, amount, cur) = (customer_id pl, amount_cents pl, currency pl)"
  shows "data_inv lib db' \<and> grows db db'"
proof -
  note pres = insert_or_get_preserves [OF _ ins]
  have ci: "charges_inv db" and di: "db_inv db" using inv by (simp_all add: data_inv_def)
  note p = pres [OF ci]
  have cs: "cores db' = cores db" "succeeded_ids db' = succeeded_ids db" by (simp_all add: cores_def succeeded_ids_def p)
  have di': "db_inv db'" using di p by (simp add: db_inv_def attempts_of_def)
  note res = insert_or_get_Inr(4) [OF ins]
  have mono: "charge_of j db = Some d \<Longrightarrow> charge_of j db' = Some d" for j d
    using res by (auto simp: charge_of_snoc split: option.splits)
  have grow: "grows db db'" using mono by (simp add: grows_def cs)
  have "\<exists>v pl. (i, v) \<in> cores db' \<and> job_payload lib v = Inr pl \<and> charge_for pl d"
    if d: "d \<in> set (charges db')" "ch_idempotency_key d = charge_key lib i" for d i
  proof (cases "d \<in> set (charges db)")
    case True
    with inv d(2) show ?thesis unfolding data_inv_def cs by blast
  next
    case False
    with res d have "ch_idempotency_key d = k" "same_semantic_request d cust amount cur"
      by (auto split: option.splits)
    with own [of i] d(2) show ?thesis unfolding cs charge_for_def by auto
  qed
  moreover have "charged lib i db'" if "i \<in> succeeded_ids db'" for i
    using inv that charged_grows [OF grow, of lib i] by (auto simp: data_inv_def cs)
  ultimately show ?thesis using inv di' p(1) grow by (simp add: data_inv_def cs)
qed

lemma handle_request_job:
  assumes wire: "wire_ok lib" and inv: "data_inv lib db"
    and core: "(i, v) \<in> cores db" "job_payload lib v = Inr pl"
    and h: "handle_request lib now new_id (charge_request (lib_worker lib) i pl) (st, db) = (r, st', db')"
  shows "data_inv lib db' \<and> grows db db' \<and> (\<forall>x. r = Inr x \<longrightarrow> charged lib i db')"
proof -
  let ?m = "charge_request (lib_worker lib) i pl"
  have k: "cp_idempotency_key ?m = charge_key lib i" "cp_body ?m = pl"
    by (simp_all add: charge_request_def charge_key_def)
  note key = received_key [OF wire, of i "cp_request_id ?m"]
  note body = received_body [OF wire core(2)]
  have refl: "grows db db" by (simp add: grows_def)
  have ok: "data_inv lib db' \<and> grows db db'"
    using create_charge_db [OF h [unfolded handle_request_def k]]
  proof
    assume "\<exists>key' pl' out. idempotency_key (to_str (lib_charge lib)) (lib_headers lib (charge_key lib i) (cp_request_id ?m)) = Inr key'
        \<and> parse_charge_payload (from_value (lib_charge lib)) (lib_body lib pl) = Inr pl'
        \<and> insert_or_get_charge now new_id key' (customer_id pl') (amount_cents pl') (currency pl') db = Inr (out, db')
        \<and> r = respond out key'"
    then obtain out where ins: "insert_or_get_charge now new_id (charge_key lib i) (customer_id pl) (amount_cents pl) (currency pl) db = Inr (out, db')"
      using key body by auto
    show ?thesis
      by (rule data_inv_charge [OF inv ins]) (use core charge_key_inj [OF wire] in auto)
  qed (use inv refl in simp)
  moreover have "charged lib i db'" if "r = Inr x" for x
  proof -
    obtain code resp where x: "x = (code, resp)" by (cases x)
    from create_charge_ok [OF h [unfolded handle_request_def k that x]] key body
    obtain out where "insert_or_get_charge now new_id (charge_key lib i) (customer_id pl) (amount_cents pl) (currency pl) db = Inr (out, db')"
      "respond out (charge_key lib i) = Inr (code, resp)" by auto
    from respond_ok_stored [OF this] show ?thesis by (auto simp: charged_def)
  qed
  ultimately show ?thesis by blast
qed

subsection \<open>Every step keeps it\<close>

lemma sys_inv_init: "sys_inv lib (init_system entropy)"
  by (simp add: sys_inv_def init_system_def data_inv_def empty_db_inv charges_inv_def cores_def succeeded_ids_def
      sane_mode_def default_chaos_def) (simp add: empty_db_def)

lemma sys_inv_db:
  assumes "sys_inv lib s" "grows (sys_db s) db'" "data_inv lib db'"
  shows "sys_inv lib (s\<lparr>sys_db := db'\<rparr>)"
  using assms flight_grows [OF assms(2), of lib] message_grows [OF assms(2), of lib] by (simp add: sys_inv_def)

lemma sys_inv_quiet: "sys_inv lib s \<Longrightarrow> quiet (sys_db s) db' \<Longrightarrow> db_inv db' \<Longrightarrow> sys_inv lib (s\<lparr>sys_db := db'\<rparr>)"
  using quiet_grows data_inv_quiet by (metis sys_inv_db sys_inv_def)

lemma sys_inv_replace:
  assumes "sys_inv lib s" "f \<in> set (sys_flights s)" "flight_inv lib (sys_db s) (f\<lparr>fl_stage := st\<rparr>)"
  shows "sys_inv lib (replace_flight f st s)"
  using assms by (auto simp: sys_inv_def replace_flight_def dest: notin_set_remove1)

lemma sys_inv_drop: "sys_inv lib s \<Longrightarrow> sys_inv lib (drop_flight f s)"
  by (auto simp: sys_inv_def drop_flight_def dest: notin_set_remove1)

lemma flight_judged_failure:
  "flight_inv lib db f \<Longrightarrow> flight_inv lib db (f\<lparr>fl_stage := Judged (Inl e)\<rparr>)"
  by (simp add: flight_inv_def fl_job_def)

lemma judged_cases:
  "judged lib reply = Judged (Inr ()) \<and> (\<exists>code body. reply = Inr (code, body) \<and> is_success code)
   \<or> (\<exists>e. judged lib reply = Judged (Inl e)) \<and> \<not> (\<exists>code body. reply = Inr (code, body) \<and> is_success code)"
  using judge_reply_ok [of "lib_worker lib" reply "()"]
  by (cases "fst (judge_reply (lib_worker lib) reply)") (auto simp: judged_def)

lemma claimed_core:
  assumes "db_inv db" "c \<in> set (claimed_jobs now locked tok limit lease db)"
  shows "job_core (cj_job c) \<in> cores (claimed_db now locked tok worker limit lease db)"
  using claimed_job_mem [OF assms, of worker] by (metis cores_def image_eqI set_map)

lemma sys_inv_claim:
  assumes inv: "sys_inv lib s" and fresh: "fresh_tokens tok (sys_db s)"
    and c: "claim_pending_jobs now locked tok worker limit lease (sys_db s) = Inr (cs, db')"
  shows "sys_inv lib (start_flights cs (s\<lparr>sys_db := db'\<rparr>))"
proof -
  have di: "db_inv (sys_db s)" using inv by (simp add: sys_inv_def data_inv_def)
  note res = claim_Inr [OF di c]
  have "sys_inv lib (s\<lparr>sys_db := db'\<rparr>)"
    unfolding res(4) by (rule sys_inv_quiet [OF inv claim_quiet claimed_db_inv [OF di fresh]])
  moreover have "flight_inv lib db' \<lparr>fl_claim = x, fl_stage = Claimed\<rparr>" if "x \<in> set cs" for x
    using claimed_core [OF di] that unfolding res(3,4) by (simp add: flight_inv_def fl_job_def)
  ultimately show ?thesis by (auto simp: sys_inv_def start_flights_def)
qed

lemma flight_core: "sys_inv lib s \<Longrightarrow> f \<in> set (sys_flights s) \<Longrightarrow> job_core (fl_job f) \<in> cores (sys_db s)"
  by (simp add: sys_inv_def flight_inv_def)

lemma sys_inv_post:
  assumes inv: "sys_inv lib s" and f: "f \<in> set (sys_flights s)"
    and pl: "job_payload lib (payload (fl_job f)) = Inr pl"
  shows "sys_inv lib (replace_flight f (Posted (charge_request (lib_worker lib) (jid (fl_job f)) pl))
           (s\<lparr>sys_network := charge_request (lib_worker lib) (jid (fl_job f)) pl # sys_network s\<rparr>))"
proof (rule sys_inv_replace)
  let ?m = "charge_request (lib_worker lib) (jid (fl_job f)) pl"
  note core = flight_core [OF inv f]
  have "message_inv lib (sys_db s) ?m" unfolding message_inv_def using core pl by (auto simp: job_core_def)
  then show "sys_inv lib (s\<lparr>sys_network := ?m # sys_network s\<rparr>)" using inv by (simp add: sys_inv_def)
  show "flight_inv lib (sys_db (s\<lparr>sys_network := ?m # sys_network s\<rparr>)) (f\<lparr>fl_stage := Posted ?m\<rparr>)"
    using core pl by (simp add: flight_inv_def fl_job_def)
qed (use f in simp)

lemma sys_inv_handled:
  assumes wire: "wire_ok lib" and inv: "sys_inv lib s" and m: "message_inv lib (sys_db s) m"
    and h: "handle_request lib now new_id m (sys_chaos s, sys_db s) = (r, chaos', db')"
  shows "sys_inv lib (s\<lparr>sys_chaos := chaos', sys_db := db'\<rparr>)"
    "\<And>e. r = Inl e \<Longrightarrow> \<not> is_success (ce_status e)"
    "\<And>i pl x. m = charge_request (lib_worker lib) i pl \<Longrightarrow> r = Inr x \<Longrightarrow> charged lib i db'"
proof -
  have data: "data_inv lib (sys_db s)" and sane: "sane_mode (from_u16 (lib_charge lib)) (sys_chaos s)"
    using inv by (simp_all add: sys_inv_def)
  obtain i v pl where core: "(i, v) \<in> cores (sys_db s)" "job_payload lib v = Inr pl"
    and mi: "m = charge_request (lib_worker lib) i pl" using m by (auto simp: message_inv_def)
  note job = handle_request_job [OF wire data core h [unfolded mi]]
  note san = create_charge_sane [OF sane h [unfolded handle_request_def]]
  show "sys_inv lib (s\<lparr>sys_chaos := chaos', sys_db := db'\<rparr>)"
    using sys_inv_grows [OF inv] job san(1) by blast
  show "\<And>e. r = Inl e \<Longrightarrow> \<not> is_success (ce_status e)" by (rule san(2))
  show "charged lib j db'" if "m = charge_request (lib_worker lib) j pl'" "r = Inr x" for j pl' x
  proof -
    have "charge_key lib j = charge_key lib i"
      using that(1) mi by (simp add: charge_request_def charge_key_def)
    then have "j = i" using charge_key_inj [OF wire] by blast
    with job that(2) show ?thesis by blast
  qed
qed

lemma sys_inv_submit:
  assumes wire: "wire_ok lib" and inv: "sys_inv lib s"
    and sub: "submit_job (lib_api lib) now i body (sys_db s) = (res, db')"
  shows "sys_inv lib (s\<lparr>sys_db := db'\<rparr>)"
proof -
  have data: "data_inv lib (sys_db s)" using inv by (simp add: sys_inv_def)
  from submit_job_db [OF sub] show ?thesis
  proof
    assume "\<exists>r mx pl. insert_job (ae_jsonb (lib_api lib)) now i (sr_kind body) (sr_payload body) mx (sys_db s) = Inr (r, db') \<and> 1 \<le> mx \<and> mx \<le> 20
      \<and> parse_charge_payload (ae_from_value (lib_api lib)) (sr_payload body) = Inr pl"
    then obtain r mx pl where "insert_job (ae_jsonb (lib_api lib)) now i (sr_kind body) (sr_payload body) mx (sys_db s) = Inr (r, db')" "i32 mx"
      "job_payload lib (sr_payload body) = Inr pl"
      using wire by (auto simp: i32_def job_payload_def wire_ok_def)
    from data_inv_insert [OF data this] show ?thesis using sys_inv_db [OF inv] by blast
  qed (use inv in simp)
qed

lemma sys_inv_replied:
  assumes wire: "wire_ok lib" and inv: "sys_inv lib s"
    and f: "f \<in> set (sys_flights s)" "fl_stage f = Posted m" and m: "m \<in> set (sys_network s)"
    and h: "handle_request lib now new_id m (sys_chaos s, sys_db s) = (r, chaos', db')"
  shows "sys_inv lib (replace_flight f (judged lib (wire_reply lib r)) (s\<lparr>sys_chaos := chaos', sys_db := db'\<rparr>))"
proof -
  have "message_inv lib (sys_db s) m" using inv m by (simp add: sys_inv_def)
  note h = sys_inv_handled [OF wire inv this h]
  have "flight_inv lib (sys_db s) f" using inv f(1) by (simp add: sys_inv_def)
  then obtain pl where pl: "m = charge_request (lib_worker lib) (jid (fl_job f)) pl"
    using f(2) by (auto simp: flight_inv_def)
  have fi: "flight_inv lib db' f" using h(1) f(1) by (simp add: sys_inv_def)
  have "flight_inv lib db' (f\<lparr>fl_stage := judged lib (wire_reply lib r)\<rparr>)"
  proof (cases r)
    case (Inl e)
    with judged_cases [of lib "wire_reply lib r"] h(2) [OF Inl] obtain e' where
      "judged lib (wire_reply lib r) = Judged (Inl e')" by (auto simp: wire_reply_def)
    with flight_judged_failure [OF fi] show ?thesis by simp
  next
    case (Inr x)
    from judged_cases [of lib "wire_reply lib r"] h(3) [OF pl Inr] fi flight_judged_failure [OF fi] show ?thesis
      by (auto simp: flight_inv_def fl_job_def)
  qed
  then show ?thesis using f(1) by (intro sys_inv_replace [OF h(1)]) simp_all
qed

lemma sys_inv_finalized:
  assumes inv: "sys_inv lib s" and f: "f \<in> set (sys_flights s)" "fl_stage f = Judged outcome"
    and v: "v = fst (choose_verdict (lib_worker lib) k mx elapsed rng outcome) \<or> v = crash_verdict elapsed outcome"
  shows "sys_inv lib (drop_flight f
    (s\<lparr>sys_db := finalized_db (finalize now (jid (fl_job f)) tk v (sys_db s)) (sys_db s)\<rparr>))"
proof -
  have data: "data_inv lib (sys_db s)" and di: "db_inv (sys_db s)" using inv by (simp_all add: sys_inv_def data_inv_def)
  have "flight_inv lib (sys_db s) f" using inv f(1) by (simp add: sys_inv_def)
  moreover have "is_success_verdict v \<longleftrightarrow> (\<exists>u. outcome = Inr u)"
    using v choose_verdict_success [of "lib_worker lib"] by (auto simp: crash_verdict_def split: sum.splits)
  ultimately have "is_success_verdict v \<Longrightarrow> charged lib (jid (fl_job f)) (sys_db s)"
    using f(2) by (auto simp: flight_inv_def)
  from data_inv_verdict [OF data this] finalized_grows [OF di] show ?thesis
    by (intro sys_inv_drop sys_inv_db [OF inv])
qed

lemma sys_inv_other_client:
  assumes inv: "sys_inv lib s"
    and other: "\<And>k i. idempotency_key (to_str (lib_charge lib)) hs = Inr k \<Longrightarrow> k \<noteq> charge_key lib i"
    and c: "create_charge (lib_charge lib) now new_id hs body (sys_chaos s, sys_db s) = (r, chaos', db')"
  shows "sys_inv lib (s\<lparr>sys_chaos := chaos', sys_db := db'\<rparr>)"
proof -
  have data: "data_inv lib (sys_db s)" and sane: "sane_mode (from_u16 (lib_charge lib)) (sys_chaos s)"
    using inv by (simp_all add: sys_inv_def)
  have "data_inv lib db' \<and> grows (sys_db s) db'"
    using create_charge_db [OF c]
  proof
    assume "\<exists>key pl out. idempotency_key (to_str (lib_charge lib)) hs = Inr key
      \<and> parse_charge_payload (from_value (lib_charge lib)) body = Inr pl
      \<and> insert_or_get_charge now new_id key (customer_id pl) (amount_cents pl) (currency pl) (sys_db s) = Inr (out, db')
      \<and> r = respond out key"
    then obtain key and pl :: charge_payload and out where k: "idempotency_key (to_str (lib_charge lib)) hs = Inr key"
      and ins: "insert_or_get_charge now new_id key (customer_id pl) (amount_cents pl) (currency pl) (sys_db s) = Inr (out, db')"
      by blast
    show ?thesis by (rule data_inv_charge [OF data ins]) (use other [OF k] in blast)
  qed (use data in \<open>simp add: grows_def\<close>)
  then show ?thesis using sys_inv_grows [OF inv] create_charge_sane(1) [OF sane c] by blast
qed

lemma sys_inv_outage:
  assumes "sys_inv lib s"
  shows "sys_inv lib (s\<lparr>sys_db := (sys_db s)\<lparr>db_up := up\<rparr>\<rparr>)"
proof (rule sys_inv_quiet [OF assms])
  show "quiet (sys_db s) ((sys_db s)\<lparr>db_up := up\<rparr>)" by (simp add: quiet_def succeeded_ids_def)
  show "db_inv ((sys_db s)\<lparr>db_up := up\<rparr>)"
    using assms by (simp add: sys_inv_def data_inv_def db_inv_def attempts_of_def)
qed

lemma judged_failure:
  assumes "\<not> (\<exists>code body. reply = Inr (code, body) \<and> is_success code)" "sys_inv lib s" "f \<in> set (sys_flights s)"
  shows "sys_inv lib (replace_flight f (judged lib reply) s)"
proof -
  obtain e where e: "judged lib reply = Judged (Inl e)" using judged_cases [of lib reply] assms(1) by auto
  show ?thesis unfolding e
    by (intro sys_inv_replace flight_judged_failure) (use assms(2,3) in \<open>simp_all add: sys_inv_def\<close>)
qed

lemma sys_inv_step:
  assumes wire: "wire_ok lib" and step: "sys_step lib s s'" and inv: "sys_inv lib s"
  shows "sys_inv lib s'"
  using step inv
proof (induction rule: sys_step.induct)
  case (submit now i body s res db')
  from sys_inv_submit [OF wire submit.prems submit.hyps] show ?case .
next
  case (replay mx now i s found db')
  then have "db_inv (sys_db s)" by (simp add: sys_inv_def data_inv_def)
  from retry_dead_job_preserves [OF this replay.hyps] retry_dead_job_quiet [OF replay.hyps(2)] replay.prems
  show ?case by (intro sys_inv_quiet)
next
  case (claim tok s now locked worker limit lease cs db')
  from sys_inv_claim [OF claim.prems claim.hyps] show ?case .
next
  case (invalid f s e)
  then show ?case by (intro sys_inv_replace flight_judged_failure) (simp_all add: sys_inv_def)
next
  case (post f s pl m)
  from sys_inv_post [OF post.prems post.hyps(1,3)] show ?case by (simp add: post.hyps(4))
next
  case (handled m s now new_id r chaos' db')
  then have "message_inv lib (sys_db s) m" by (simp add: sys_inv_def)
  from sys_inv_handled(1) [OF wire handled.prems this handled.hyps(2)] show ?case .
next
  case (replied f s m now new_id r chaos' db')
  from sys_inv_replied [OF wire replied.prems replied.hyps] show ?case .
next
  case (renewal f s tk now lease b db')
  then have "db_inv (sys_db s)" by (simp add: sys_inv_def data_inv_def)
  from renew_lease_preserves [OF this renewal.hyps(3)] renew_lease_quiet [OF this renewal.hyps(3)] renewal.prems
  show ?case by (intro sys_inv_quiet)
next
  case (finalized f s outcome tk v elapsed rng now)
  from sys_inv_finalized [OF finalized.prems finalized.hyps(1,2,4)] show ?case .
next
  case (control c s ok chaos')
  then show ?case using set_control_sane by (auto simp: sys_inv_def)
next
  case (other_client hs now new_id body s r chaos' db')
  from sys_inv_other_client [OF other_client.prems other_client.hyps] show ?case .
qed (auto intro: sys_inv_drop sys_inv_outage judged_failure)

lemma reachable_inv:
  assumes "wire_ok lib" "reachable lib s"
  shows "sys_inv lib s"
proof -
  obtain entropy where "(sys_step lib)\<^sup>*\<^sup>* (init_system entropy) s" using assms(2) by (auto simp: reachable_def)
  then show ?thesis
  proof (induction rule: rtranclp_induct)
    case (step s s')
    from sys_inv_step [OF assms(1) step.hyps(2) step.IH] show ?case .
  qed (rule sys_inv_init)
qed

end
