(* ===== verification/Bench.thy ===== *)
theory Bench
  imports SystemInv
begin

section \<open>The benchmark's correctness gate: reliableq-bench\<close>

text \<open>
  \<open>src/crates/reliableq-bench/src\<close>: the correctness gate that is run against the tables after every scenario, the polling until
  the queue is drained, the percentiles of the reports and the failpoint of the crash scenario. \<open>f64\<close> values are exact
  rationals. The checks of the gate are one definition each, in the order of \<open>run_gate\<close>; a check returns what it inserts into
  the report and the failure it pushes, if any.
\<close>

subsection \<open>correctness.rs\<close>

record gate_input =
  gi_tracked_ids :: "uuid list"
  gi_expect_all_terminal :: bool
  gi_worker_capacity :: "nat option"
  gi_observed_peak_inflight :: "nat option"
  gi_latency_samples_ms :: "rat list"
  gi_measurement_window_secs :: rat

datatype gate_value = BoolValue bool | NumberValue nat

type_synonym gate_check = "(string \<times> gate_value) list \<times> string list"

definition bool_check :: "string \<Rightarrow> bool \<Rightarrow> string \<Rightarrow> gate_check" where
  "bool_check name ok failure = ([(name, BoolValue ok)], if ok then [] else [failure])"

definition gate_found :: "uuid list \<Rightarrow> 'v db \<Rightarrow> (uuid \<times> string \<times> int \<times> int) list" where
  "gate_found ids db =
     (if ids = [] then []
      else map (\<lambda>r. (jid r, status r, attempts r, max_attempts r)) (filter (\<lambda>r. jid r \<in> set ids) (jobs db)))"

definition gate_all_found :: "uuid list \<Rightarrow> (uuid \<times> string \<times> int \<times> int) list \<Rightarrow> gate_check" where
  "gate_all_found ids found =
     bool_check ''all_tracked_jobs_found'' (length found = length ids)
       (''expected '' @ show_nat (length ids) @ '' tracked jobs, found '' @ show_nat (length found)
        @ '' in the database'')"

definition gate_terminal :: "bool \<Rightarrow> (uuid \<times> string \<times> int \<times> int) list \<Rightarrow> gate_check" where
  "gate_terminal expected found =
     (let terminal_count = length (filter (\<lambda>(_, st, _, _). st = ''SUCCEEDED'' \<or> st = ''DEAD'') found);
          non_terminal_count = length found - terminal_count
      in if expected
         then bool_check ''all_tracked_jobs_terminal'' (non_terminal_count = 0)
                (show_nat non_terminal_count @ '' tracked jobs are still PENDING/RUNNING, expected 0'')
         else ([], []))"

definition gate_budget :: "(uuid \<times> string \<times> int \<times> int) list \<Rightarrow> gate_check" where
  "gate_budget found =
     (let over_budget = filter (\<lambda>(_, _, a, m). a > m) found
      in bool_check ''no_job_over_attempt_budget'' (over_budget = [])
           (show_nat (length over_budget) @ '' jobs exceeded their attempt budget''))"

text \<open>\<open>SELECT count(*) FROM (.. GROUP BY k HAVING count(*) > 1)\<close>.\<close>

definition duplicate_groups :: "'k list \<Rightarrow> nat" where
  "duplicate_groups ks = length (filter (\<lambda>k. 1 < length (filter (\<lambda>x. x = k) ks)) (remdups ks))"

definition gate_charges :: "(uuid \<Rightarrow> string) \<Rightarrow> uuid list \<Rightarrow> 'v db \<Rightarrow> gate_check" where
  "gate_charges show_uuid ids db =
     (let duplicate_keys =
        (if ids = [] then 0
         else let keys = map (\<lambda>i. ''reliableq:charge:'' @ show_uuid i) ids
              in duplicate_groups
                   (map ch_idempotency_key (filter (\<lambda>c. ch_idempotency_key c \<in> set keys) (charges db))))
      in bool_check ''at_most_one_charge_per_idempotency_key'' (duplicate_keys = 0)
           (show_nat duplicate_keys @ '' idempotency keys back more than one charge row''))"

definition gate_single_success :: "uuid list \<Rightarrow> 'v db \<Rightarrow> gate_check" where
  "gate_single_success ids db =
     (let jobs_with_multiple_success =
        (if ids = [] then 0
         else duplicate_groups
                (map at_job_id
                  (filter (\<lambda>a. at_job_id a \<in> set ids \<and> at_outcome a = Some ''SUCCEEDED'') (job_attempts db))))
      in bool_check ''no_job_finalized_successful_more_than_once'' (jobs_with_multiple_success = 0)
           (show_nat jobs_with_multiple_success @ '' jobs have more than one SUCCEEDED attempt row''
            @ '' (a stale/reclaimed owner may have finalized after losing its lease)''))"

definition gate_capacity :: "nat option \<Rightarrow> nat option \<Rightarrow> gate_check" where
  "gate_capacity worker_capacity observed =
     (case (worker_capacity, observed) of
        (Some capacity, Some peak) \<Rightarrow>
          ([(''peak_inflight_within_capacity'', BoolValue (peak \<le> capacity)),
            (''observed_peak_inflight'', NumberValue peak), (''configured_capacity'', NumberValue capacity)],
           if peak \<le> capacity then []
           else [''observed peak_inflight '' @ show_nat peak @ '' exceeded configured capacity '' @ show_nat capacity])
      | _ \<Rightarrow> ([], []))"

definition gate_latency :: "(rat \<Rightarrow> string) \<Rightarrow> rat list \<Rightarrow> rat \<Rightarrow> gate_check" where
  "gate_latency show_f0 samples window =
     (if samples \<noteq> [] \<and> 0 < window
      then let threshold_ms = window * 1000 * 2 + 30000;
               max_sample = fold max samples 0
           in bool_check ''latency_samples_within_measurement_window'' (max_sample \<le> threshold_ms)
                (''a latency sample of '' @ show_f0 max_sample @ ''ms far exceeds this run's own measurement window (''
                 @ show_f0 threshold_ms
                 @ ''ms threshold) '' @ [CHR 0xE2, CHR 0x80, CHR 0x94] @ '' likely the host slept/woke mid-run, corrupting wall-clock (not monotonic) timestamps'')
      else ([], []))"

record gate_results =
  gr_passed :: bool
  gr_checks :: "(string \<times> gate_value) list"
  gr_failures :: "string list"

definition run_gate ::
    "(uuid \<Rightarrow> string) \<Rightarrow> (rat \<Rightarrow> string) \<Rightarrow> gate_input \<Rightarrow> 'v db \<Rightarrow> repo_error + gate_results" where
  "run_gate show_uuid show_f0 input db =
     (let ids = gi_tracked_ids input in
      bind_res (if ids = [] then Inr () else query db (Inr ())) (\<lambda>_.
      let found = gate_found ids db;
          results =
            [gate_all_found ids found, gate_terminal (gi_expect_all_terminal input) found, gate_budget found,
             gate_charges show_uuid ids db, gate_single_success ids db,
             gate_capacity (gi_worker_capacity input) (gi_observed_peak_inflight input),
             gate_latency show_f0 (gi_latency_samples_ms input) (gi_measurement_window_secs input)];
          failures = concat (map snd results)
      in Inr \<lparr>gr_passed = (failures = []), gr_checks = concat (map fst results), gr_failures = failures\<rparr>))"

subsection \<open>db.rs\<close>

definition queue_depth :: "'v db \<Rightarrow> repo_error + nat" where
  "queue_depth db =
     query db (Inr (length (filter (\<lambda>r. status r \<in> {''PENDING'', ''RUNNING''}) (jobs db))))"

text \<open>
  The polling loop over the databases it sees, each with the time elapsed since the start; it ends by itself at the deadline,
  and the list ending first stands for a scenario that is stopped.
\<close>

fun wait_for_drain :: "duration \<Rightarrow> (duration \<times> 'v db) list \<Rightarrow> repo_error + bool option" where
  "wait_for_drain deadline [] = Inr None"
| "wait_for_drain deadline ((elapsed, db) # rest) =
     bind_res (queue_depth db) (\<lambda>depth.
     if depth = 0 then Inr (Some True)
     else if deadline \<le> elapsed then Inr (Some False)
     else wait_for_drain deadline rest)"

text \<open>What the loop hands to its callback: the seconds elapsed and the depth it sees at each poll.\<close>

fun drain_samples :: "duration \<Rightarrow> (duration \<times> 'v db) list \<Rightarrow> (rat \<times> nat) list" where
  "drain_samples deadline [] = []"
| "drain_samples deadline ((elapsed, db) # rest) =
     (case queue_depth db of
        Inl e \<Rightarrow> []
      | Inr depth \<Rightarrow>
          (as_secs_f64 elapsed, depth)
          # (if depth = 0 \<or> deadline \<le> elapsed then [] else drain_samples deadline rest))"

definition end_to_end_latencies_ms :: "uuid list \<Rightarrow> 'v db \<Rightarrow> repo_error + rat list" where
  "end_to_end_latencies_ms ids db =
     (if ids = [] then Inr []
      else query db
        (Inr (map (\<lambda>r. of_int (the (finished_at r) - created_at r) / 10 ^ 6 * 1000)
          (filter (\<lambda>r. jid r \<in> set ids \<and> finished_at r \<noteq> None) (jobs db)))))"

definition bench_charge_payload :: "string \<Rightarrow> nat \<Rightarrow> charge_payload" where
  "bench_charge_payload scenario i =
     \<lparr>customer_id = ''bench-'' @ scenario @ ''-'' @ show_nat i, amount_cents = 100 + int (i mod 5000),
      currency = ''INR''\<rparr>"

definition reset_database :: "'v db \<Rightarrow> (unit, 'v) repo_result" where
  "reset_database db = query db (Inr ((), db\<lparr>jobs := [], job_attempts := [], charges := []\<rparr>))"

subsection \<open>stats.rs\<close>

definition percentile :: "rat list \<Rightarrow> rat \<Rightarrow> rat" where
  "percentile srt p =
     (if srt = [] then 0
      else let rank = nat (round (p * (of_nat (length srt) - 1)))
           in srt ! min rank (length srt - 1))"

record latency_percentiles =
  lp_unit :: string
  lp_p50 :: "rat option"
  lp_p95 :: "rat option"
  lp_p99 :: "rat option"
  lp_max :: "rat option"
  lp_count :: nat

definition empty_percentiles :: "string \<Rightarrow> latency_percentiles" where
  "empty_percentiles unit_name =
     \<lparr>lp_unit = unit_name, lp_p50 = None, lp_p95 = None, lp_p99 = None, lp_max = None, lp_count = 0\<rparr>"

definition percentiles_of_samples :: "rat list \<Rightarrow> latency_percentiles" where
  "percentiles_of_samples samples =
     (if samples = [] then empty_percentiles ''ms''
      else let srt = sort samples
           in \<lparr>lp_unit = ''ms'', lp_p50 = Some (percentile srt (1 / 2)), lp_p95 = Some (percentile srt (95 / 100)),
               lp_p99 = Some (percentile srt (99 / 100)), lp_max = Some (last srt), lp_count = length srt\<rparr>)"

definition throughput_per_sec :: "nat \<Rightarrow> rat \<Rightarrow> rat" where
  "throughput_per_sec count elapsed_secs = (if elapsed_secs \<le> 0 then 0 else of_nat count / elapsed_secs)"

subsection \<open>scenarios/crash_recovery.rs\<close>

definition crash_first_attempt ::
    "failpoint_name \<Rightarrow> failpoint_name \<Rightarrow> uuid \<Rightarrow> uuid list \<Rightarrow> bool \<times> uuid list" where
  "crash_first_attempt mine name job_id seen =
     (if name \<noteq> mine then (False, seen)
      else (job_id \<notin> set seen, if job_id \<in> set seen then seen else job_id # seen))"

subsection \<open>The gate on the tables of the system\<close>

lemma duplicate_groups_distinct: "distinct ks \<Longrightarrow> duplicate_groups ks = 0"
proof -
  assume d: "distinct ks"
  have "length (filter (\<lambda>x. x = k) ks) \<le> 1" for k
    using d by (induction ks) (auto simp: filter_empty_conv)
  then have "filter (\<lambda>k. 1 < length (filter (\<lambda>x. x = k) ks)) (remdups ks) = []"
    by (simp add: filter_empty_conv not_less)
  then show ?thesis by (simp add: duplicate_groups_def)
qed

lemma duplicate_groups_zero:
  assumes "\<And>k. length (filter (\<lambda>x. x = k) ks) \<le> 1"
  shows "duplicate_groups ks = 0"
proof -
  have "filter (\<lambda>k. 1 < length (filter (\<lambda>x. x = k) ks)) (remdups ks) = []"
    using assms by (simp add: filter_empty_conv not_less)
  then show ?thesis by (simp add: duplicate_groups_def)
qed

lemma filter_length_mono: "(\<And>x. P x \<Longrightarrow> Q x) \<Longrightarrow> length (filter P xs) \<le> length (filter Q xs)"
  by (induction xs) (auto simp: le_SucI)

lemma bool_check_ok: "snd (bool_check name ok failure) = [] \<longleftrightarrow> ok"
  by (simp add: bool_check_def)

lemma gate_found_length:
  assumes "db_inv db" "distinct ids" "set ids \<subseteq> jid ` set (jobs db)"
  shows "length (gate_found ids db) = length ids"
proof -
  let ?rs = "filter (\<lambda>r. jid r \<in> set ids) (jobs db)"
  have "distinct (map jid ?rs)" using db_inv_distinct [OF assms(1)] by (rule distinct_map_filter)
  then have "length ?rs = card (set (map jid ?rs))" by (metis distinct_card length_map)
  also have "set (map jid ?rs) = set ids" using assms(3) by auto
  also have "card (set ids) = length ids" using assms(2) by (rule distinct_card)
  finally show ?thesis by (auto simp: gate_found_def)
qed

lemma gate_found_budget:
  assumes "db_inv db"
  shows "snd (gate_budget (gate_found ids db)) = []"
proof -
  have "\<not> attempts r > max_attempts r" if "r \<in> set (jobs db)" for r
    using db_inv_job [OF assms that] by (simp add: job_ok_def job_checks_def)
  then have "filter (\<lambda>(_, _, a, m). a > m) (gate_found ids db) = []"
    by (auto simp: gate_found_def filter_empty_conv)
  then show ?thesis by (simp add: gate_budget_def bool_check_ok Let_def)
qed

lemma gate_terminal_ok:
  assumes "expected \<Longrightarrow> \<forall>r \<in> set (jobs db). jid r \<in> set ids \<longrightarrow> status r \<in> {as_db_str Succeeded, as_db_str Dead}"
  shows "snd (gate_terminal expected (gate_found ids db)) = []"
proof (cases expected)
  case True
  from assms [OF True] have "\<forall>x \<in> set (gate_found ids db). (\<lambda>(_, st, _, _). st = ''SUCCEEDED'' \<or> st = ''DEAD'') x"
    by (auto simp: gate_found_def as_db_str.simps split: if_splits)
  then have "filter (\<lambda>(_, st, _, _). st = ''SUCCEEDED'' \<or> st = ''DEAD'') (gate_found ids db) = gate_found ids db"
    by (rule filter_True)
  then show ?thesis by (simp only: gate_terminal_def bool_check_ok Let_def) (simp add: bool_check_def)
qed (simp add: gate_terminal_def)

lemma gate_charges_ok: "charges_inv db \<Longrightarrow> snd (gate_charges show_uuid ids db) = []"
  using duplicate_groups_distinct [OF distinct_map_filter, of ch_idempotency_key "charges db"]
  by (simp add: gate_charges_def bool_check_ok charges_inv_def Let_def)

lemma trail_one_success:
  assumes "job_ok r as"
  shows "length (filter (\<lambda>a. at_outcome a = Some (outcome_db_str AttemptSucceeded)) as) \<le> 1"
proof (cases "as = []")
  case False
  let ?P = "\<lambda>a. at_outcome a = Some (outcome_db_str AttemptSucceeded)"
  have "filter ?P (butlast as) = []"
    using assms by (auto simp: job_ok_def trail_ok_def closed_unsuccessful_def filter_empty_conv)
  then have "filter ?P as = filter ?P [last as]"
    using False by (metis append_Nil append_butlast_last_id filter_append)
  then show ?thesis by simp
qed simp

lemma attempts_of_one_success:
  assumes "db_inv db"
  shows "length (filter (\<lambda>a. at_outcome a = Some (outcome_db_str AttemptSucceeded)) (attempts_of i db)) \<le> 1"
proof (cases "i \<in> jid ` set (jobs db)")
  case True
  then obtain r where "r \<in> set (jobs db)" "jid r = i" by auto
  with trail_one_success [OF db_inv_job [OF assms]] show ?thesis by auto
qed (simp add: attempts_of_unknown [OF assms])

lemma gate_single_success_ok:
  assumes "db_inv db"
  shows "snd (gate_single_success ids db) = []"
proof -
  let ?Q = "\<lambda>a. at_job_id a \<in> set ids \<and> at_outcome a = Some ''SUCCEEDED''"
  have "length (filter (\<lambda>x. x = k) (map at_job_id (filter ?Q (job_attempts db)))) \<le> 1" for k
  proof -
    have "length (filter (\<lambda>x. x = k) (map at_job_id (filter ?Q (job_attempts db))))
        \<le> length (filter (\<lambda>a. at_outcome a = Some (outcome_db_str AttemptSucceeded)) (attempts_of k db))"
      unfolding attempts_of_def filter_map length_map filter_filter outcome_db_str.simps
      by (rule filter_length_mono) simp
    with attempts_of_one_success [OF assms, of k] show ?thesis by linarith
  qed
  then have "duplicate_groups (map at_job_id (filter ?Q (job_attempts db))) = 0" by (rule duplicate_groups_zero)
  then show ?thesis by (simp add: gate_single_success_def bool_check_ok Let_def)
qed

end
