(* ===== verification/Listing.thy ===== *)
theory Listing
  imports Api Interfaces
begin

section \<open>Listing jobs page by page\<close>

text \<open>
  Keyset pagination over \<open>list_jobs\<close> as the model's instance of \<open>keyset_pages\<close>, and over HTTP: a client that follows
  \<open>next_cursor\<close> from the first page gets every matching job exactly once, in order of creation.
\<close>

definition matches :: "job_status option \<Rightarrow> 'v job_row \<Rightarrow> bool" where
  "matches st r \<longleftrightarrow> (case st of None \<Rightarrow> True | Some s \<Rightarrow> status r = as_db_str s)"

definition job_listing :: "job_status option \<times> 'v db \<Rightarrow> 'v job_row list" where
  "job_listing s = sort_key cursor_key (filter (matches (fst s)) (jobs (snd s)))"

definition job_page :: "job_status option \<times> 'v db \<Rightarrow> nat \<Rightarrow> (timestamp \<times> uuid) option \<Rightarrow> 'v job_row list" where
  "job_page s n after = (case list_jobs (fst s) (int n) after (snd s) of Inl e \<Rightarrow> [] | Inr rows \<Rightarrow> rows)"

definition listable :: "job_status option \<times> 'v db \<Rightarrow> bool" where
  "listable s \<longleftrightarrow> db_inv (snd s) \<and> db_up (snd s)"

lemma set_job_listing: "set (job_listing (st, db)) = {r \<in> set (jobs db). matches st r}"
  by (auto simp: job_listing_def)

lemma job_listing_strict:
  assumes "db_inv db"
  shows "sorted_wrt (\<lambda>x y. cursor_key x < cursor_key y) (job_listing (st, db))"
proof -
  let ?xs = "filter (matches st) (jobs db)"
  have "distinct (map jid ?xs)" using db_inv_distinct [OF assms] by (rule distinct_map_filter)
  then have "distinct (map cursor_key ?xs)" by (auto simp: distinct_map inj_on_def cursor_key_def)
  then have "distinct (map cursor_key (sort_key cursor_key ?xs))"
    by (simp add: distinct_map)
  moreover have "sorted (map cursor_key (sort_key cursor_key ?xs))" by simp
  ultimately have "sorted_wrt (<) (map cursor_key (sort_key cursor_key ?xs))"
    by (simp only: strict_sorted_iff)
  then show ?thesis by (simp add: job_listing_def sorted_wrt_map)
qed

lemma list_jobs_result:
  assumes "db_up db" "0 \<le> limit"
  shows "list_jobs st limit after db =
    Inr (take (nat limit) (filter (\<lambda>r. case after of None \<Rightarrow> True | Some c \<Rightarrow> c < cursor_key r) (job_listing (st, db))))"
  using assms
  by (simp add: list_jobs_def query_def job_listing_def filter_sort matches_def conj_commute)

interpretation job_pages: keyset_pages job_page cursor_key job_listing listable
proof
  fix s :: "job_status option \<times> 'v db" and n after
  assume g: "listable s"
  obtain st db where s: "s = (st, db)" by (cases s)
  show "sorted_wrt (\<lambda>x y. cursor_key x < cursor_key y) (job_listing s)"
    using g unfolding s listable_def by (intro job_listing_strict) simp
  show "job_page s n after = take n (filter (\<lambda>x. case after of None \<Rightarrow> True | Some c \<Rightarrow> c < cursor_key x) (job_listing s))"
    using g list_jobs_result [of db "int n" st after] unfolding s job_page_def listable_def by simp
qed

subsection \<open>Views of consistent rows\<close>

definition view :: "'v job_row \<Rightarrow> 'v job_summary" where
  "view r =
     \<lparr>js_id = jid r, js_kind = kind r, js_payload = payload r, js_status = the (parse_db_str (status r)),
      js_attempts = attempts r, js_max_attempts = max_attempts r, js_next_attempt_at = next_attempt_at r,
      js_last_error_code = last_error_code r, js_last_error_message = last_error_message r,
      js_created_at = created_at r, js_updated_at = updated_at r, js_started_at = started_at r,
      js_finished_at = finished_at r, js_version = version r\<rparr>"

lemma row_status_ok: "job_checks r \<Longrightarrow> row_status_api r = Inr (the (parse_db_str (status r)))"
  by (cases "parse_db_str (status r)") (auto simp: job_checks_def row_status_api_def row_status_def)

lemma summary_ok: "job_checks r \<Longrightarrow> summary_of_row r = Inr (view r)"
  by (simp add: summary_of_row_def row_status_ok view_def)

lemma collect_summaries:
  "(\<And>r. r \<in> set rs \<Longrightarrow> job_checks r) \<Longrightarrow> collect_res (map summary_of_row rs) = Inr (map view rs)"
  by (induction rs) (simp_all add: summary_ok)

lemma db_inv_checks: "db_inv db \<Longrightarrow> r \<in> set (jobs db) \<Longrightarrow> job_checks r"
  using db_inv_job by (auto simp: job_ok_def)

subsection \<open>Cursors\<close>

text \<open>
  What the cursors rely on: base64, RFC 3339 and UUID text can be read back, RFC 3339 text of the years 0 to 9999 has no
  bar in it, and all of it is UTF-8.
\<close>

definition rfc_range :: "timestamp \<Rightarrow> bool" where
  "rfc_range t \<longleftrightarrow> - 62167219200000000 \<le> t \<and> t < 253402300800000000"

definition cursor_text_ok :: "'v api_env \<Rightarrow> bool" where
  "cursor_text_ok env \<longleftrightarrow>
     (\<forall>s. ae_b64_decode env (ae_b64_encode env s) = Some s)
     \<and> (\<forall>t. rfc_range t \<longrightarrow> ae_parse_rfc3339 env (ae_to_rfc3339 env t) = Some t \<and> CHR ''|'' \<notin> set (ae_to_rfc3339 env t))
     \<and> (\<forall>i. ae_parse_uuid env (ae_show_uuid env i) = Some i)
     \<and> (\<forall>t i. ae_utf8 env (ae_to_rfc3339 env t @ ''|'' @ ae_show_uuid env i))"

lemma split_once_append: "sep \<notin> set a \<Longrightarrow> split_once sep (a @ sep # b) = Some (a, b)"
  by (induction a) auto

lemma split_once_sound: "split_once sep s = Some (a, b) \<Longrightarrow> s = a @ sep # b \<and> sep \<notin> set a"
  by (induction s arbitrary: a) (auto split: if_splits)

lemma decode_encode_cursor:
  assumes "cursor_text_ok env" "rfc_range (fst c)"
  shows "decode_cursor env (encode_cursor env c) = Inr c"
proof -
  obtain t i where c: "c = (t, i)" by (cases c)
  have "split_once CHR ''|'' (ae_to_rfc3339 env t @ ''|'' @ ae_show_uuid env i)
      = Some (ae_to_rfc3339 env t, ae_show_uuid env i)"
    using assms c split_once_append [of "CHR ''|''" "ae_to_rfc3339 env t"] by (simp add: cursor_text_ok_def)
  with assms c show ?thesis by (simp add: encode_cursor_def decode_cursor_def cursor_text_ok_def Let_def)
qed

lemma decode_cursor_error: "decode_cursor env c = Inl e \<Longrightarrow> e = invalid_argument (Text ''invalid cursor'')"
  by (auto simp: decode_cursor_def Let_def res_simps split: prod.splits)

subsection \<open>Following the cursors over HTTP\<close>

definition page_query :: "int \<Rightarrow> string option \<Rightarrow> list_query" where
  "page_query limit cursor = \<lparr>lq_status = None, lq_limit = Some limit, lq_cursor = cursor\<rparr>"

fun follow_cursors ::
    "'v api_env \<Rightarrow> job_status option \<Rightarrow> nat \<Rightarrow> int \<Rightarrow> string option \<Rightarrow> 'v db \<Rightarrow> api_error + 'v job_summary list" where
  "follow_cursors env st 0 limit cursor db = Inr []"
| "follow_cursors env st (Suc fuel) limit cursor db =
     bind_res (list_jobs_with_status env st (page_query limit cursor) db) (\<lambda>(items, next_cursor).
     case next_cursor of
       None \<Rightarrow> Inr items
     | Some c \<Rightarrow> bind_res (follow_cursors env st fuel limit (Some c) db) (\<lambda>rest. Inr (items @ rest)))"

lemma job_page_subset:
  assumes "db_inv db" "db_up db"
  shows "set (job_page (st, db) n after) \<subseteq> set (jobs db)"
proof -
  have "job_page (st, db) n after
      = take n (filter (\<lambda>r. case after of None \<Rightarrow> True | Some c \<Rightarrow> c < cursor_key r) (job_listing (st, db)))"
    using job_pages.page_eq [of "(st, db)"] assms by (simp add: listable_def)
  also have "set \<dots> \<subseteq> set (job_listing (st, db))" by (rule subset_trans [OF set_take_subset filter_is_subset])
  finally show ?thesis using set_job_listing [of st db] by blast
qed

lemma list_jobs_with_status_page:
  assumes inv: "db_inv db" and up: "db_up db" and lim: "1 \<le> limit" "limit \<le> max_list_limit"
    and cur: "(case cursor of None \<Rightarrow> Inr None | Some c \<Rightarrow> bind_res (decode_cursor env c) (\<lambda>k. Inr (Some k))) = Inr after"
  shows "list_jobs_with_status env st (page_query limit cursor) db =
    (let p = job_page (st, db) (nat limit) after
     in Inr (map view p,
             if p \<noteq> [] \<and> length p = nat limit then Some (encode_cursor env (cursor_key (last p))) else None))"
proof -
  let ?p = "job_page (st, db) (nat limit) after"
  have l: "list_jobs st limit after db = Inr ?p"
    using list_jobs_result [OF up, of limit st after] lim by (simp add: job_page_def)
  have "set ?p \<subseteq> set (jobs db)" by (rule job_page_subset [OF inv up])
  then have "collect_res (map summary_of_row ?p) = Inr (map view ?p)"
    using db_inv_checks [OF inv] by (intro collect_summaries) blast
  moreover have "int (length ?p) = limit \<longleftrightarrow> length ?p = nat limit" using lim by auto
  ultimately show ?thesis
    using lim l cur
    by (simp add: list_jobs_with_status_def page_query_def Let_def cursor_key_def)
qed

lemma follow_read_pages:
  assumes inv: "db_inv db" and up: "db_up db" and lim: "1 \<le> limit" "limit \<le> max_list_limit"
    and lib: "cursor_text_ok env" and rng: "\<And>r. r \<in> set (jobs db) \<Longrightarrow> rfc_range (created_at r)"
    and cur: "(case cursor of None \<Rightarrow> Inr None | Some c \<Rightarrow> bind_res (decode_cursor env c) (\<lambda>k. Inr (Some k))) = Inr after"
  shows "follow_cursors env st fuel limit cursor db =
    Inr (map view (read_pages (job_page (st, db)) cursor_key fuel (nat limit) after))"
  using cur
proof (induction fuel arbitrary: cursor after)
  case (Suc fuel)
  let ?p = "job_page (st, db) (nat limit) after"
  note page = list_jobs_with_status_page [OF inv up lim Suc.prems, of st]
  show ?case
  proof (cases "?p \<noteq> [] \<and> length ?p = nat limit")
    case True
    have "set ?p \<subseteq> set (jobs db)" by (rule job_page_subset [OF inv up])
    then have "rfc_range (created_at (last ?p))" using rng True last_in_set by blast
    then have "decode_cursor env (encode_cursor env (cursor_key (last ?p))) = Inr (cursor_key (last ?p))"
      by (intro decode_encode_cursor [OF lib]) (simp add: cursor_key_def)
    then have "follow_cursors env st fuel limit (Some (encode_cursor env (cursor_key (last ?p)))) db =
        Inr (map view (read_pages (job_page (st, db)) cursor_key fuel (nat limit) (Some (cursor_key (last ?p)))))"
      by (intro Suc.IH) simp
    with True show ?thesis by (simp add: page Let_def)
  next
    case False
    then show ?thesis by (simp only: follow_cursors.simps page Let_def bind_res.simps prod.case if_False
          read_pages.simps option.case)
  qed
qed simp

end
