(* ===== verification/Poll.thy ===== *)
theory Poll
  imports Worker Config
begin

section \<open>The poll loop: reliableq-worker poll\<close>

text \<open>
  \<open>src/crates/reliableq-worker/src/poll.rs\<close> and \<open>spawn_bounded_batch\<close> of \<open>lib.rs\<close>: when the loop claims, how
  many jobs it asks for, how the spawned tasks share the semaphore, and how shutdown ends it. The loop and its tasks
  are a step relation: the tasks of a batch wait for a permit, run, and give it back, in any order.
\<close>

definition claim_batch_max :: int where
  "claim_batch_max = 10"

definition batch_size :: "nat \<Rightarrow> int" where
  "batch_size available = min (int available) claim_batch_max"

text \<open>The wait after an empty claim: the poll interval plus a jitter of up to as much again.\<close>

definition idle_wait :: "('g \<Rightarrow> nat \<Rightarrow> nat \<times> 'g) \<Rightarrow> duration \<Rightarrow> 'g \<Rightarrow> duration \<times> 'g" where
  "idle_wait gen_range poll rng =
     (case gen_range rng (as_millis poll mod 2 ^ 64) of
        (jitter_ms, rng') \<Rightarrow> (poll + from_millis jitter_ms, rng'))"

datatype poll_phase =
    Polling
  | NoPermits
  | Idle
  | Batch
  | Draining
  | Stopped

record poll_state =
  phase :: poll_phase
  permits :: nat
  waiting :: "uuid list"
  running :: "uuid list"

definition poll_init :: "nat \<Rightarrow> poll_state" where
  "poll_init n = \<lparr>phase = Polling, permits = n, waiting = [], running = []\<rparr>"

text \<open>What a step does, as functions of the state.\<close>

definition no_permits :: "poll_state \<Rightarrow> poll_state" where
  "no_permits s = s\<lparr>phase := NoPermits\<rparr>"

definition claim_returned :: "uuid list \<Rightarrow> poll_state \<Rightarrow> poll_state" where
  "claim_returned claimed s =
     (if claimed = [] then s\<lparr>phase := Idle\<rparr> else s\<lparr>phase := Batch, waiting := claimed\<rparr>)"

definition acquire_permit :: "uuid \<Rightarrow> poll_state \<Rightarrow> poll_state" where
  "acquire_permit j s = s\<lparr>permits := permits s - 1, waiting := remove1 j (waiting s), running := j # running s\<rparr>"

definition task_done :: "uuid \<Rightarrow> poll_state \<Rightarrow> poll_state" where
  "task_done j s = s\<lparr>permits := permits s + 1, running := remove1 j (running s)\<rparr>"

inductive poll_step :: "poll_state \<Rightarrow> poll_state \<Rightarrow> bool" where
  full: "phase s = Polling \<Longrightarrow> batch_size (permits s) = 0 \<Longrightarrow> poll_step s (no_permits s)"
| claim: "phase s = Polling \<Longrightarrow> batch_size (permits s) \<noteq> 0 \<Longrightarrow> int (length claimed) \<le> batch_size (permits s) \<Longrightarrow>
    poll_step s (claim_returned claimed s)"
| claim_failed: "phase s = Polling \<Longrightarrow> batch_size (permits s) \<noteq> 0 \<Longrightarrow> poll_step s (claim_returned [] s)"
| wake: "phase s = NoPermits \<or> phase s = Idle \<Longrightarrow> poll_step s (s\<lparr>phase := Polling\<rparr>)"
| shutdown_waiting: "phase s = NoPermits \<or> phase s = Idle \<Longrightarrow> poll_step s (s\<lparr>phase := Stopped\<rparr>)"
| acquire: "j \<in> set (waiting s) \<Longrightarrow> 0 < permits s \<Longrightarrow> poll_step s (acquire_permit j s)"
| task_ends: "j \<in> set (running s) \<Longrightarrow> poll_step s (task_done j s)"
| batch_done: "phase s = Batch \<Longrightarrow> waiting s = [] \<Longrightarrow> running s = [] \<Longrightarrow> poll_step s (s\<lparr>phase := Polling\<rparr>)"
| shutdown_batch: "phase s = Batch \<Longrightarrow> poll_step s (s\<lparr>phase := Draining\<rparr>)"
| drained: "phase s = Draining \<Longrightarrow> waiting s = [] \<Longrightarrow> running s = [] \<Longrightarrow> poll_step s (s\<lparr>phase := Stopped\<rparr>)"
| grace_over: "phase s = Draining \<Longrightarrow> poll_step s (s\<lparr>phase := Stopped\<rparr>)"

inductive_cases poll_stepE: "poll_step s s'"

subsection \<open>The invariant of the loop\<close>

definition poll_inv :: "nat \<Rightarrow> poll_state \<Rightarrow> bool" where
  "poll_inv n s \<longleftrightarrow>
     permits s + length (running s) = n
     \<and> length (waiting s) \<le> permits s
     \<and> int (length (waiting s) + length (running s)) \<le> claim_batch_max
     \<and> (phase s \<in> {Polling, NoPermits, Idle} \<longrightarrow> waiting s = [] \<and> running s = [])"

lemma poll_inv_init: "poll_inv n (poll_init n)"
  by (simp add: poll_inv_def poll_init_def claim_batch_max_def)

lemma poll_inv_step:
  assumes "poll_step s s'" "poll_inv n s"
  shows "poll_inv n s'"
  using assms
proof (induction rule: poll_step.induct)
  case (claim s claimed)
  then show ?case by (auto simp: poll_inv_def claim_returned_def batch_size_def)
next
  case (acquire j s)
  then have "length (remove1 j (waiting s)) = length (waiting s) - 1" "1 \<le> length (waiting s)"
    by (auto simp: length_remove1 Suc_le_eq)
  with acquire show ?case by (auto simp: poll_inv_def acquire_permit_def)
next
  case (task_ends j s)
  then have "length (remove1 j (running s)) = length (running s) - 1" "1 \<le> length (running s)"
    by (auto simp: length_remove1 Suc_le_eq)
  with task_ends show ?case by (auto simp: poll_inv_def task_done_def)
qed (auto simp: poll_inv_def no_permits_def claim_returned_def)

lemma poll_reachable_inv: "poll_step\<^sup>*\<^sup>* (poll_init n) s \<Longrightarrow> poll_inv n s"
proof (induction rule: rtranclp_induct)
  case base
  show ?case by (rule poll_inv_init)
next
  case (step s s')
  from poll_inv_step [OF step.hyps(2) step.IH] show ?case .
qed

text \<open>Once stopped, the loop claims nothing: the tasks it left behind can only run out.\<close>

lemma stopped_stays:
  assumes "poll_step s s'" "phase s = Stopped"
  shows "phase s' = Stopped \<and> length (waiting s') + length (running s') \<le> length (waiting s) + length (running s)"
  using assms
  by (induction rule: poll_step.induct)
    (auto simp: acquire_permit_def task_done_def length_remove1 dest: length_pos_if_in_set)

lemma draining_claims_nothing:
  assumes "poll_step s s'" "phase s = Draining"
  shows "phase s' \<in> {Draining, Stopped}"
  using assms by (induction rule: poll_step.induct) (auto simp: acquire_permit_def task_done_def)

text \<open>What is left to happen after shutdown: it falls with every step.\<close>

definition shutdown_left :: "poll_state \<Rightarrow> nat" where
  "shutdown_left s = 2 * length (waiting s) + length (running s) + (if phase s = Draining then 1 else 0)"

lemma shutdown_step:
  assumes "poll_step s s'" "phase s \<in> {Draining, Stopped}"
  shows "phase s' \<in> {Draining, Stopped}
    \<and> length (waiting s') + length (running s') \<le> length (waiting s) + length (running s)
    \<and> shutdown_left s' < shutdown_left s"
  using assms
proof (induction rule: poll_step.induct)
  case (acquire j s)
  then have "length (remove1 j (waiting s)) < length (waiting s)" using length_pos_if_in_set [of j "waiting s"] by (simp add: length_remove1)
  with acquire show ?case by (auto simp: acquire_permit_def shutdown_left_def)
next
  case (task_ends j s)
  then have "length (remove1 j (running s)) < length (running s)" using length_pos_if_in_set [of j "running s"] by (simp add: length_remove1)
  with task_ends show ?case by (auto simp: task_done_def shutdown_left_def)
qed (auto simp: shutdown_left_def)

lemma shutdown_steps:
  assumes "(poll_step ^^ k) s s'" "phase s \<in> {Draining, Stopped}"
  shows "phase s' \<in> {Draining, Stopped}
    \<and> length (waiting s') + length (running s') \<le> length (waiting s) + length (running s)
    \<and> shutdown_left s' + k \<le> shutdown_left s"
  using assms(1)
proof (induction k arbitrary: s')
  case (Suc k)
  from Suc.prems obtain y where y: "(poll_step ^^ k) s y" "poll_step y s'" by auto
  from Suc.IH [OF y(1)] shutdown_step [OF y(2)] show ?case by auto
qed (use assms(2) in simp)

text \<open>Only a loop that has stopped, with no task left, can do nothing more.\<close>

lemma shutdown_stuck:
  assumes "poll_inv n s" "phase s \<in> {Draining, Stopped}" "\<And>s'. \<not> poll_step s s'"
  shows "phase s = Stopped" "waiting s = []" "running s = []"
proof -
  show "phase s = Stopped" using assms(2,3) poll_step.grace_over by blast
  show none: "running s = []" using assms(3) poll_step.task_ends by (metis list.set_intros(1) neq_Nil_conv)
  have "waiting s = [] \<or> permits s = 0" using assms(3) poll_step.acquire by (metis gr_zeroI list.set_intros(1) neq_Nil_conv)
  with assms(1) show "waiting s = []" by (auto simp: poll_inv_def)
qed

lemma idle_wait_bounds:
  assumes "gen_range_within gen_range"
  shows "poll \<le> fst (idle_wait gen_range poll rng)" "fst (idle_wait gen_range poll rng) \<le> 2 * poll"
proof -
  let ?m = "as_millis poll mod 2 ^ 64"
  have "fst (gen_range rng ?m) \<le> ?m" using assms unfolding gen_range_within_def by blast
  also have "?m \<le> as_millis poll" by (rule mod_less_eq_dividend)
  finally have "from_millis (fst (gen_range rng ?m)) \<le> from_millis (as_millis poll)" by (rule from_millis_mono)
  then have "from_millis (fst (gen_range rng ?m)) \<le> poll" using from_millis_as_millis_le order_trans by blast
  then show "fst (idle_wait gen_range poll rng) \<le> 2 * poll"
    by (simp add: idle_wait_def case_prod_beta)
  show "poll \<le> fst (idle_wait gen_range poll rng)" by (simp add: idle_wait_def case_prod_beta)
qed

end
