(* ===== verification/Budget.thy ===== *)
theory Budget
  imports JobsFencing
begin

section \<open>How often jobs can be executed\<close>

text \<open>
  Every execution of a job begins with a claim that returns it. Claims use up the attempt budgets and nothing but a submission or
  a replay gives any back, so over any interleaving of claims, renewals and finalisers the number of executions is bounded, and
  claiming comes to an end.
\<close>

definition remaining :: "'v db \<Rightarrow> int" where
  "remaining db = sum_list (map (\<lambda>r. max_attempts r - attempts r) (jobs db))"

text \<open>\<open>works n db db'\<close>: calls of workers lead from \<open>db\<close> to \<open>db'\<close>, with \<open>n\<close> executions started.\<close>

inductive works :: "nat \<Rightarrow> 'v db \<Rightarrow> 'v db \<Rightarrow> bool" where
  start: "works 0 db db"
| claim: "works n db db1 \<Longrightarrow> fresh_tokens tok db1 \<Longrightarrow>
    claim_pending_jobs now locked tok worker limit lease db1 = Inr (cs, db2) \<Longrightarrow> works (n + length cs) db db2"
| finalize: "works n db db1 \<Longrightarrow> finalize now i t v db1 = Inr (b, db2) \<Longrightarrow> works n db db2"
| renew: "works n db db1 \<Longrightarrow> renew_lease now i t lease db1 = Inr (b, db2) \<Longrightarrow> works n db db2"
| failed: "works n db db1 \<Longrightarrow> works n db (db1\<lparr>db_up := up\<rparr>)"

lemma remaining_nonneg:
  assumes "db_inv db"
  shows "0 \<le> remaining db"
  unfolding remaining_def
  using db_inv_job [OF assms] by (intro sum_list_nonneg) (auto simp: job_ok_def job_checks_def)

lemma remaining_map:
  assumes "jobs db' = map h (jobs db)" "\<And>r. max_attempts (h r) - attempts (h r) = max_attempts r - attempts r"
  shows "remaining db' = remaining db"
  by (simp add: remaining_def assms comp_def)

lemma sum_list_count:
  assumes "\<And>r. f (h r) = f r - (if P r then 1 else (0 :: int))"
  shows "sum_list (map (\<lambda>r. f (h r)) rs) = sum_list (map f rs) - int (length (filter P rs))"
  by (induction rs) (simp_all add: assms)

lemma cleaned_row_budget [simp]:
  "max_attempts (cleaned_row now locked r) = max_attempts r" "attempts (cleaned_row now locked r) = attempts r"
  by (simp_all add: cleaned_row_def exhaust_row_def)

lemma remaining_claimed:
  "remaining (claimed_db now locked tok worker limit lease db)
     = remaining db - int (length (claimed_jobs now locked tok limit lease db))"
proof -
  let ?due = "\<lambda>r. jid r \<in> claimed_ids now locked limit db"
  let ?h = "\<lambda>r. if ?due r then claim_row now lease (tok (jid r)) (cleaned_row now locked r) else cleaned_row now locked r"
  have "length (claimed_jobs now locked tok limit lease db) = length (filter ?due (map (cleaned_row now locked) (jobs db)))"
    by (simp add: claimed_jobs_def)
  also have "\<dots> = length (filter ?due (jobs db))" by (simp add: filter_map comp_def)
  finally have len: "length (claimed_jobs now locked tok limit lease db) = length (filter ?due (jobs db))" .
  have "max_attempts (?h r) - attempts (?h r) = max_attempts r - attempts r - (if ?due r then 1 else 0)" for r
    by (simp add: finished_rows_phase)
  from sum_list_count [of "\<lambda>r. max_attempts r - attempts r", OF this] show ?thesis
    by (simp add: remaining_def claimed_db_jobs len comp_def)
qed

lemma works_budget:
  assumes "works n db db'" "db_inv db"
  shows "db_inv db' \<and> int n + remaining db' = remaining db"
  using assms
proof (induction rule: works.induct)
  case (claim n db db1 tok now locked worker limit lease cs db2)
  then have inv: "db_inv db1" by simp
  note res = claim_Inr [OF inv claim.hyps(3)]
  have "db_inv db2" unfolding res(4) by (rule claimed_db_inv [OF inv claim.hyps(2)])
  with claim show ?case unfolding res(3,4) by (simp add: remaining_claimed)
next
  case (finalize n db db1 now i t v b db2)
  then have inv: "db_inv db1" by simp
  from inv finalize.hyps(2) have "remaining db2 = remaining db1"
  proof (cases rule: finalize_Inr_cases)
    case 1: owned
    have same: "attempts (verdict_row now v r) = attempts r" "max_attempts (verdict_row now v r) = max_attempts r"
      for r :: "'a job_row"
      by (rule closing_simps(3) [OF closing_verdict]) (rule verdict_phase [THEN conjunct2])
    show ?thesis
      by (intro remaining_map [where h = "\<lambda>r. if holds_lease i t r then verdict_row now v r else r"]) (simp_all add: 1 same)
  qed simp
  with finalize finalize_preserves [OF inv finalize.hyps(2)] show ?case by simp
next
  case (renew n db db1 now i t lease b db2)
  then have inv: "db_inv db1" by simp
  have up: "db_up db1" using renew.hyps(2) by (auto simp: renew_lease_def query_def split: if_splits)
  have "jobs db2 = map (\<lambda>r. if holds_lease i t r then renew_row now lease r else r) (jobs db1)"
    using renew.hyps(2) unfolding renew_lease_result [OF inv up] by auto
  then have "remaining db2 = remaining db1"
    by (rule remaining_map) (simp add: finished_rows_phase)
  with renew renew_lease_preserves [OF inv renew.hyps(2)] show ?case by simp
next
  case (failed n db db1 up)
  then show ?case by (simp add: remaining_def db_inv_def attempts_of_def)
qed simp

end
