(* ===== verification/Heartbeat.thy ===== *)
theory Heartbeat
  imports Worker
begin

section \<open>What the heartbeat guarantees\<close>

text \<open>
  While a job runs, \<open>spawn_heartbeat\<close> renews its lease. Other workers claim in the meantime, any number of them and any number of
  times; as long as each wake-up comes before the lease that is running then expires, none of them gets the job.
\<close>

record claim_call =
  cl_now :: timestamp
  cl_locked :: "uuid \<Rightarrow> bool"
  cl_tok :: "uuid \<Rightarrow> uuid"
  cl_worker :: string
  cl_limit :: int
  cl_lease :: duration

definition do_claim :: "claim_call \<Rightarrow> 'v db \<Rightarrow> 'v db" where
  "do_claim c db =
     (case claim_pending_jobs (cl_now c) (cl_locked c) (cl_tok c) (cl_worker c) (cl_limit c) (cl_lease c) db of
        Inl e \<Rightarrow> db
      | Inr (cs, db') \<Rightarrow> db')"

fun fresh_claims :: "claim_call list \<Rightarrow> 'v db \<Rightarrow> bool" where
  "fresh_claims [] db = True"
| "fresh_claims (c # cs) db = (fresh_tokens (cl_tok c) db \<and> fresh_claims cs (do_claim c db))"

text \<open>The wake-ups are on time: the claims of a sleep are over when it ends, and it ends before the lease does.\<close>

fun timely :: "uuid \<Rightarrow> uuid \<Rightarrow> duration \<Rightarrow> timestamp \<Rightarrow> (claim_call list \<times> timestamp) list \<Rightarrow> 'v db \<Rightarrow> bool" where
  "timely i t lease last_renewal [] db = True"
| "timely i t lease last_renewal ((cs, now) # ticks) db =
     (now < last_renewal + interval_us (as_secs_f64 lease) \<and> (\<forall>c \<in> set cs. cl_now c \<le> now) \<and> fresh_claims cs db
      \<and> timely i t lease now ticks (snd (heartbeat i t lease [(fold do_claim cs, now)] db)))"

definition leased_until :: "uuid \<Rightarrow> uuid \<Rightarrow> timestamp \<Rightarrow> 'v db \<Rightarrow> bool" where
  "leased_until i t e db \<longleftrightarrow> (\<exists>r \<in> set (jobs db). holds_lease i t r \<and> lease_expires_at r = Some e)"

lemma leased_until_owns: "leased_until i t e db \<Longrightarrow> owns i t db"
  by (auto simp: leased_until_def owns_def)

lemma do_claim_keeps:
  assumes "db_inv db" "db_up db" "fresh_tokens (cl_tok c) db" "leased_until i t e db" "cl_now c < e"
  shows "db_inv (do_claim c db) \<and> db_up (do_claim c db) \<and> leased_until i t e (do_claim c db)"
proof (cases "claim_pending_jobs (cl_now c) (cl_locked c) (cl_tok c) (cl_worker c) (cl_limit c) (cl_lease c) db")
  case (Inl x)
  with assms show ?thesis by (simp add: do_claim_def)
next
  case (Inr p)
  obtain cs db' where p: "p = (cs, db')" by (cases p)
  note ok = Inr [unfolded p]
  obtain r where r: "r \<in> set (jobs db)" "holds_lease i t r" "lease_expires_at r = Some e"
    using assms(4) by (auto simp: leased_until_def)
  have "status r = as_db_str Running" using r(2) by (simp add: holds_lease_def)
  note kept = leased_row_kept(1) [OF assms(1) ok r(1) this r(3) assms(5)]
  have "db_inv db'" unfolding claim_Inr(4) [OF assms(1) ok] by (rule claimed_db_inv [OF assms(1,3)])
  with claim_db_up [OF assms(1) ok] kept r show ?thesis by (auto simp: do_claim_def ok leased_until_def)
qed

lemma claims_keep:
  assumes "db_inv db" "db_up db" "fresh_claims cs db" "leased_until i t e db" "\<forall>c \<in> set cs. cl_now c < e"
  shows "db_inv (fold do_claim cs db) \<and> db_up (fold do_claim cs db) \<and> leased_until i t e (fold do_claim cs db)"
  using assms
proof (induction cs arbitrary: db)
  case (Cons c cs)
  with do_claim_keeps [of db c i t e] show ?case by simp
qed simp

lemma renewed:
  assumes "db_inv db" "db_up db" "leased_until i t e db"
  shows "\<exists>db'. renew_lease now i t lease db = Inr (True, db') \<and> db_inv db' \<and> db_up db'
    \<and> leased_until i t (now + interval_us (as_secs_f64 lease)) db'"
proof -
  let ?db' = "db\<lparr>jobs := map (\<lambda>r. if holds_lease i t r then renew_row now lease r else r) (jobs db)\<rparr>"
  have own: "owns i t db" using assms(3) by (rule leased_until_owns)
  then have ok: "renew_lease now i t lease db = Inr (True, ?db')" using renew_lease_result [OF assms(1,2)] by simp
  obtain r where r: "r \<in> set (jobs db)" "holds_lease i t r" using own by (auto simp: owns_def)
  then have "renew_row now lease r \<in> set (jobs ?db')" by force
  moreover have "holds_lease i t (renew_row now lease r)" using r(2) by (simp add: holds_lease_def renew_row_def)
  moreover have "lease_expires_at (renew_row now lease r) = Some (now + interval_us (as_secs_f64 lease))" by (simp add: renew_row_def)
  ultimately have "leased_until i t (now + interval_us (as_secs_f64 lease)) ?db'" unfolding leased_until_def by blast
  with ok renew_lease_preserves [OF assms(1) ok] assms(2) show ?thesis by simp
qed

lemma heartbeat_keeps:
  assumes "db_inv db" "db_up db" "leased_until i t (last_renewal + interval_us (as_secs_f64 lease)) db"
    and "timely i t lease last_renewal ticks db"
  shows "fst (heartbeat i t lease (map (\<lambda>(cs, now). (fold do_claim cs, now)) ticks) db)
      = replicate (length ticks) (renewal_metric ''ok'')
    \<and> owns i t (snd (heartbeat i t lease (map (\<lambda>(cs, now). (fold do_claim cs, now)) ticks) db))"
  using assms
proof (induction ticks arbitrary: db last_renewal)
  case Nil
  then show ?case by (simp add: leased_until_owns)
next
  case (Cons tick ticks)
  obtain cs now where tick: "tick = (cs, now)" by (cases tick)
  let ?e = "last_renewal + interval_us (as_secs_f64 lease)"
  have time: "now < ?e" "\<forall>c \<in> set cs. cl_now c < ?e" "fresh_claims cs db" using Cons.prems(4) tick by auto
  let ?db1 = "fold do_claim cs db"
  from claims_keep [OF Cons.prems(1,2) time(3) Cons.prems(3) time(2)] renewed [of ?db1 i t ?e now lease]
  obtain db2 where db2: "renew_lease now i t lease ?db1 = Inr (True, db2)" "db_inv db2" "db_up db2"
    "leased_until i t (now + interval_us (as_secs_f64 lease)) db2" by blast
  have "timely i t lease now ticks db2" using Cons.prems(4) tick db2(1) by simp
  from Cons.IH [OF db2(2-4) this] show ?case by (simp add: tick db2(1) case_prod_beta)
qed

end
