(* ===== verification/ApiRoutes.thy ===== *)
theory ApiRoutes
  imports Api JobsWrite
begin

section \<open>The routes of the job API\<close>

text \<open>
  \<open>build_app\<close> of \<open>src/crates/reliableq-api/src/lib.rs\<close> merges the routes of \<open>health.rs\<close>, \<open>jobs.rs\<close> and \<open>metrics.rs\<close>. A request is what
  the extractors of axum hand to a handler; the rendering of the metrics exporter is a parameter.
\<close>

datatype 'v api_request =
    PostJob "'v submit_request"
  | GetJobs list_query
  | GetJob uuid
  | PostRetry uuid "int option"
  | GetDeadJobs list_query
  | GetLive
  | GetReady
  | GetMetrics

datatype 'v api_reply =
    SubmitReply http_status submit_response
  | DetailReply "'v job_summary" "attempt_summary list"
  | ListReply "'v job_summary list" "string option"
  | SummaryReply "'v job_summary"
  | HealthReply http_status string
  | MetricsReply string
  | RefusalReply api_error

definition answer :: "api_error + 'a \<Rightarrow> ('a \<Rightarrow> 'v api_reply) \<Rightarrow> 'v api_reply" where
  "answer r f = (case r of Inl e \<Rightarrow> RefusalReply e | Inr x \<Rightarrow> f x)"

definition render_metrics :: "string \<Rightarrow> 'v api_reply" where
  "render_metrics rendered = MetricsReply rendered"

fun api_app ::
    "'v api_env \<Rightarrow> string \<Rightarrow> timestamp \<Rightarrow> uuid \<Rightarrow> ('v db \<Rightarrow> 'v db) \<Rightarrow> 'v api_request \<Rightarrow> 'v db \<Rightarrow> 'v api_reply \<times> 'v db" where
  "api_app env rendered now new_id others (PostJob body) db =
     (case submit_job env now new_id body db of
        (r, db') \<Rightarrow> (answer r (\<lambda>(code, resp). SubmitReply code resp), db'))"
| "api_app env rendered now new_id others (GetJobs q) db =
     (answer (list_jobs_handler env q db) (\<lambda>(items, next_cursor). ListReply items next_cursor), db)"
| "api_app env rendered now new_id others (GetJob i) db =
     (answer (get_job env i db) (\<lambda>(js, as). DetailReply js as), db)"
| "api_app env rendered now new_id others (PostRetry i requested) db =
     (case retry_job env now i requested others db of (r, db') \<Rightarrow> (answer r SummaryReply, db'))"
| "api_app env rendered now new_id others (GetDeadJobs q) db =
     (answer (list_dead_jobs env q db) (\<lambda>(items, next_cursor). ListReply items next_cursor), db)"
| "api_app env rendered now new_id others GetLive db = (HealthReply (fst live) (snd live), db)"
| "api_app env rendered now new_id others GetReady db = (HealthReply (fst (ready db)) (snd (ready db)), db)"
| "api_app env rendered now new_id others GetMetrics db = (render_metrics rendered, db)"

fun reply_status :: "'v api_reply \<Rightarrow> http_status" where
  "reply_status (SubmitReply code resp) = code"
| "reply_status (HealthReply code body) = code"
| "reply_status (RefusalReply e) = er_status e"
| "reply_status (DetailReply js as) = 200"
| "reply_status (ListReply items next_cursor) = 200"
| "reply_status (SummaryReply js) = 200"
| "reply_status (MetricsReply body) = 200"

subsection \<open>What an answer says of the database\<close>

lemma submit_job_error:
  assumes "submit_job env now i body db = (Inl e, db')"
  shows "db' = db"
proof (rule ccontr)
  assume changed: "db' \<noteq> db"
  then obtain r mx where ins: "insert_job (ae_jsonb env) now i (sr_kind body) (sr_payload body) mx db = Inr (r, db')"
    "row_status_api r = Inl e \<or> (\<exists>st. row_status_api r = Inr st \<and> False)"
    using assms by (auto simp: submit_job_def Let_def res_simps split: sum.splits prod.splits)
  have "status r = as_db_str Pending" using insert_job_Inr(4) [OF ins(1)] by (simp add: new_job_row_def)
  then show False using ins(2) by (simp add: row_status_api_def row_status_def)
qed

lemma retry_dead_job_result:
  assumes "db_inv db" "retry_dead_job now i mx db = Inr (revived, db')"
  shows "case revived of None \<Rightarrow> db' = db | Some s \<Rightarrow> status s = as_db_str Pending"
proof (cases "\<exists>r \<in> set (jobs db). dead_job i r")
  case True
  then obtain r where r: "r \<in> set (jobs db)" "dead_job i r" by blast
  note res = retry_dead_job_Inr [OF assms(2)]
  from retry_dead_job_found [OF assms(1) res(1) r] res(3) [OF r] assms(2) show ?thesis by fastforce
next
  case False
  with retry_dead_job_missing [of db i now mx] retry_dead_job_Inr(1) [OF assms(2)] assms(2) show ?thesis by auto
qed

lemma retry_job_error:
  assumes "db_inv (others db)" "retry_job env now i requested others db = (Inl e, db')"
  shows "db' = db \<or> db' = others db"
proof (rule ccontr)
  assume changed: "\<not> (db' = db \<or> db' = others db)"
  obtain mx revived where r: "retry_dead_job now i mx (others db) = Inr (revived, db')"
    and e: "revived = None \<or> (\<exists>s. revived = Some s \<and> summary_of_row s = Inl e)"
    using assms(2) changed by (auto simp: retry_job_def Let_def res_simps split: sum.splits prod.splits)
  from retry_dead_job_result [OF assms(1) r] changed obtain s where "revived = Some s" "status s = as_db_str Pending"
    by (cases revived) auto
  with e show False by (simp add: summary_of_row_def row_status_api_def row_status_def)
qed

end
