(* ===== verification/Samples.thy ===== *)
theory Samples
  imports Bench Listing Poll Budget Heartbeat ApiRoutes
begin

section \<open>Concrete instances\<close>

text \<open>
  Instances of the parameters and small concrete tables, on which the theorems with hypotheses are applied. JSON values
  are charge payloads themselves, header values are strings, UUIDs and timestamps print in decimal; one run of the
  system goes from a submission to a succeeded job.
\<close>

subsection \<open>Decimal text\<close>

definition sample_show_uuid :: "uuid \<Rightarrow> string" where
  "sample_show_uuid i = show_nat (unat i)"

definition sample_parse_uuid :: "string \<Rightarrow> uuid option" where
  "sample_parse_uuid s = map_option of_nat (parse_uint (2 ^ 128 - 1) s)"

lemma sample_uuid_roundtrip: "sample_parse_uuid (sample_show_uuid i) = Some i"
proof -
  have "unat i < 2 ^ LENGTH(128)" by (rule unsigned_less)
  then have "unat i \<le> 2 ^ 128 - 1" by simp
  then show ?thesis by (simp only: sample_parse_uuid_def sample_show_uuid_def parse_uint_show_nat option.map) simp
qed

definition sample_parse_time :: "string \<Rightarrow> timestamp option" where
  "sample_parse_time s =
     (case s of
        [] \<Rightarrow> None
      | c # cs \<Rightarrow>
          if c = CHR ''-'' then map_option (\<lambda>n. - int n) (parse_uint (10 ^ 30) cs)
          else map_option int (parse_uint (10 ^ 30) s))"

lemma sample_time_roundtrip:
  assumes "rfc_range t"
  shows "sample_parse_time (show_int t) = Some t"
proof (cases "t < 0")
  case True
  then have "nat (- t) \<le> 10 ^ 30" using assms by (simp add: rfc_range_def)
  with True show ?thesis by (simp add: show_int_def sample_parse_time_def parse_uint_show_nat)
next
  case False
  then have le: "nat t \<le> 10 ^ 30" using assms by (simp add: rfc_range_def)
  obtain c cs where c: "show_nat (nat t) = c # cs" using show_nat_nonempty by (cases "show_nat (nat t)") auto
  then have "c \<in> set ''0123456789''" using show_nat_chars [of "nat t"] by auto
  then have "c \<noteq> CHR ''-''" by auto
  with False c have "sample_parse_time (show_int t) = map_option int (parse_uint (10 ^ 30) (show_nat (nat t)))"
    by (simp add: show_int_def sample_parse_time_def)
  with False le show ?thesis by (simp add: parse_uint_show_nat)
qed

lemma no_bar_in_time: "CHR ''|'' \<notin> set (show_int t)"
  using show_nat_chars [of "nat t"] show_nat_chars [of "nat (- t)"] by (auto simp: show_int_def)

subsection \<open>Instances of the packages\<close>

definition sample_api :: "charge_payload api_env" where
  "sample_api =
     \<lparr>ae_from_value = Inr, ae_show_uuid = sample_show_uuid, ae_parse_uuid = sample_parse_uuid,
      ae_to_rfc3339 = show_int, ae_parse_rfc3339 = sample_parse_time, ae_b64_encode = (\<lambda>s. s),
      ae_b64_decode = Some, ae_utf8 = (\<lambda>s. True),
      ae_jsonb = (\<lambda>pl. text_ok (customer_id pl) \<and> text_ok (currency pl))\<rparr>"

lemma sample_cursor_text_ok: "cursor_text_ok sample_api"
  by (simp add: cursor_text_ok_def sample_api_def sample_uuid_roundtrip sample_time_roundtrip no_bar_in_time)

definition sample_gen :: "nat \<Rightarrow> nat \<Rightarrow> nat \<times> nat" where
  "sample_gen g n = (min g n, g)"

lemma sample_gen_within: "gen_range_within sample_gen"
  by (simp add: gen_range_within_def sample_gen_def)

definition sample_charge :: "(string, charge_payload, nat) charge_env" where
  "sample_charge =
     \<lparr>to_str = Some, from_value = Inr, gen = (\<lambda>g. (1 / 2, g)),
      from_u16 = (\<lambda>n. if 100 \<le> n \<and> n \<le> 999 then Some n else None), show_status = show_nat\<rparr>"

definition sample_worker :: "(charge_payload, 'w, nat) worker_env" where
  "sample_worker =
     \<lparr>we_from_value = Inr, we_show_uuid = sample_show_uuid, we_show_status = show_nat,
      we_send = (\<lambda>m w. (Inr (201, None), w)), we_gen_range = sample_gen, we_url = ''http://c'',
      we_policy = default_policy\<rparr>"

definition sample_lib :: "(charge_payload, string, nat, unit, nat) system_lib" where
  "sample_lib =
     \<lparr>lib_api = sample_api, lib_charge = sample_charge, lib_worker = sample_worker,
      lib_headers = (\<lambda>k rid n. if n = ''idempotency-key'' then Some k else Some rid),
      lib_body = (\<lambda>pl. pl), lib_body_text = (\<lambda>r. None), lib_seed = (\<lambda>n. n)\<rparr>"

lemma sample_show_uuid_inj: "inj sample_show_uuid"
  by (metis injI option.inject sample_uuid_roundtrip)

lemma sample_lib_simps: "lib_api sample_lib = sample_api"
  by (simp add: sample_lib_def)

lemma sample_jsonb_texts_ok: "jsonb_texts_ok sample_lib"
  by (simp add: jsonb_texts_ok_def sample_lib_def sample_api_def sample_worker_def)

lemma sample_wire_ok: "wire_ok sample_lib"
proof -
  have "set ''0123456789'' \<subseteq> uuid_chars" by (auto simp: uuid_chars_def)
  then have "set (sample_show_uuid i) \<subseteq> uuid_chars" for i
    using show_nat_chars [of "unat i"] by (auto simp: sample_show_uuid_def)
  then show ?thesis
    by (simp add: wire_ok_def sample_lib_def sample_api_def sample_charge_def sample_worker_def sample_show_uuid_inj)
      (simp add: sample_show_uuid_def show_nat_nonempty)
qed

subsection \<open>A run of the system\<close>

definition sample_payload :: charge_payload where
  "sample_payload = \<lparr>customer_id = ''c1'', amount_cents = 250, currency = ''EUR''\<rparr>"

lemma sample_payload_ok: "job_payload sample_lib sample_payload = Inr sample_payload"
proof -
  have "trim ''c1'' \<noteq> []" using trim_graphic [of "''c1''"] by (simp add: graphic_def)
  then show ?thesis
    by (simp add: job_payload_def parse_charge_payload_ok sample_lib_def sample_worker_def sample_payload_def
        valid_payload_def less_eq_char_def)
qed

definition sample_pending :: "charge_payload job_row" where
  "sample_pending = new_job_row 100 7 ''charge'' sample_payload 3"

definition sample_running :: "charge_payload job_row" where
  "sample_running = claim_row 200 (from_secs 30) 55 sample_pending"

definition sample_claim :: "charge_payload claimed_job" where
  "sample_claim = \<lparr>cj_job = sample_running, cj_attempt_number = 1, cj_was_reclaimed = False\<rparr>"

definition sample_pending_db :: "charge_payload db" where
  "sample_pending_db = empty_db\<lparr>jobs := [sample_pending]\<rparr>"

definition sample_running_db :: "charge_payload db" where
  "sample_running_db = empty_db\<lparr>jobs := [sample_running], job_attempts := [new_attempt 200 ''w'' sample_running]\<rparr>"

definition sample_charge_row :: charge_row where
  "sample_charge_row =
     \<lparr>ch_id = 9, ch_idempotency_key = charge_key sample_lib 7, ch_customer_id = ''c1'', ch_amount_cents = 250,
      ch_currency = ''EUR'', ch_created_at = 300\<rparr>"

definition sample_charged_db :: "charge_payload db" where
  "sample_charged_db = sample_running_db\<lparr>charges := [sample_charge_row]\<rparr>"

definition sample_done_db :: "charge_payload db" where
  "sample_done_db = verdict_db 400 7 55 (Success 5) sample_charged_db"

lemma empty_db_simps [simp]: "jobs empty_db = []" "job_attempts empty_db = []" "charges empty_db = []" "db_up empty_db"
  by (simp_all add: empty_db_def)

lemma sample_rows [simp]:
  "jid sample_pending = 7" "status sample_pending = as_db_str Pending" "payload sample_pending = sample_payload"
  "attempts sample_pending = 0" "max_attempts sample_pending = 3" "next_attempt_at sample_pending = 100"
  "created_at sample_pending = 100" "kind sample_pending = ''charge''"
  "jid sample_running = 7" "status sample_running = as_db_str Running" "payload sample_running = sample_payload"
  "attempts sample_running = 1" "max_attempts sample_running = 3" "lease_token sample_running = Some 55"
  "kind sample_running = ''charge''" "created_at sample_running = 100"
  "lease_expires_at sample_running = Some 30000200"
  by (simp_all add: sample_pending_def sample_running_def new_job_row_def claim_row_def interval_us_secs)

lemma sample_payload_texts [simp]: "text_ok (customer_id sample_payload)" "text_ok (currency sample_payload)"
  by (simp_all add: sample_payload_def)

lemma sample_insert: "insert_job (ae_jsonb sample_api) 100 7 ''charge'' sample_payload 3 empty_db = Inr (sample_pending, sample_pending_db)"
  by (simp add: insert_job_result sample_pending_def sample_pending_db_def sample_api_def)

lemma sample_pending_inv: "db_inv sample_pending_db"
  by (rule insert_job_preserves [OF empty_db_inv _ sample_insert]) (simp add: i32_def)

lemma sample_fresh: "fresh_tokens (\<lambda>i. 55) sample_pending_db"
  by (simp add: fresh_tokens_def sample_pending_db_def issued_tokens_def)

lemma sample_claims:
  "claim_pending_jobs 200 (\<lambda>i. False) (\<lambda>i. 55) ''w'' 10 (from_secs 30) sample_pending_db
     = Inr ([sample_claim], sample_running_db)"
proof -
  have due: "due_rows 200 (\<lambda>i. False) 10 sample_pending_db = [sample_pending]"
    by (simp add: due_rows_def sample_pending_db_def claimable_def due_pending_def)
  have clean: "close_expired_attempts 200 sample_pending_db = sample_pending_db"
    by (simp add: close_expired_attempts_def update_attempts_def sample_pending_db_def)
  have bury: "bury_exhausted 200 (\<lambda>i. False) sample_pending_db = Inr (0, sample_pending_db)"
    by (simp add: bury_exhausted_def update_jobs_def sample_pending_db_def exhausted_def expired_running_def)
  have checks: "job_checks sample_running"
    by (simp add: job_checks_def)
  show ?thesis
    by (simp add: claim_pending_jobs_def query_def clean bury due)
      (simp add: sample_pending_db_def update_jobs_def insert_attempt_row_def new_attempt_def checks
        sample_running_def [symmetric] sample_claim_def sample_running_db_def)
qed

lemma sample_running_inv: "db_inv sample_running_db"
proof -
  have "db_inv (claimed_db 200 (\<lambda>i. False) (\<lambda>i. 55) ''w'' (nat 10) (from_secs 30) sample_pending_db)"
    by (rule claimed_db_inv [OF sample_pending_inv sample_fresh])
  then show ?thesis using claim_Inr(4) [OF sample_pending_inv sample_claims] by simp
qed

lemma sample_owned: "owns 7 55 sample_running_db"
  by (simp add: owns_def holds_lease_def sample_running_db_def)

lemma sample_fresh_77: "fresh_tokens (\<lambda>i. 77) sample_running_db"
  by (simp add: fresh_tokens_def sample_running_db_def issued_tokens_def new_attempt_def)

text \<open>The steps of the run.\<close>

definition run_submitted :: "(charge_payload, nat) system_state" where
  "run_submitted = (init_system 0)\<lparr>sys_db := sample_pending_db\<rparr>"

definition run_claimed :: "(charge_payload, nat) system_state" where
  "run_claimed = start_flights [sample_claim] (run_submitted\<lparr>sys_db := sample_running_db\<rparr>)"

definition sample_message :: charge_post where
  "sample_message = charge_request (lib_worker sample_lib) 7 sample_payload"

definition sample_flight :: "charge_payload stage \<Rightarrow> charge_payload flight" where
  "sample_flight st = \<lparr>fl_claim = sample_claim, fl_stage = st\<rparr>"

definition run_posted :: "(charge_payload, nat) system_state" where
  "run_posted = replace_flight (sample_flight Claimed) (Posted sample_message)
     (run_claimed\<lparr>sys_network := sample_message # sys_network run_claimed\<rparr>)"

definition sample_chaos :: "nat chaos_state" where
  "sample_chaos = drop_guard (track_inflight (default_chaos 0))"

definition run_judged :: "(charge_payload, nat) system_state" where
  "run_judged = replace_flight (sample_flight (Posted sample_message)) (Judged (Inr ()))
     (run_posted\<lparr>sys_chaos := sample_chaos, sys_db := sample_charged_db\<rparr>)"

definition run_done :: "(charge_payload, nat) system_state" where
  "run_done = drop_flight (sample_flight (Judged (Inr ()))) (run_judged\<lparr>sys_db := sample_done_db\<rparr>)"

lemma sample_submits:
  "submit_job (lib_api sample_lib) 100 7 \<lparr>sr_kind = ''charge'', sr_payload = sample_payload, sr_max_attempts = Some 3\<rparr> empty_db
     = (Inr (202, \<lparr>sub_id = 7, sub_status = Pending, sub_attempts = 0, sub_max_attempts = 3, sub_created_at = 100\<rparr>),
        sample_pending_db)"
proof -
  have "validate_kind ''charge'' = Inr ()"
  proof -
    have "trim ''charge'' \<noteq> []" using trim_graphic [of "''charge''"] by (simp add: graphic_def)
    then show ?thesis by (simp add: validate_kind_ok)
  qed
  moreover have "parse_charge_payload (ae_from_value (lib_api sample_lib)) sample_payload = Inr sample_payload"
    using sample_payload_ok sample_wire_ok by (simp add: job_payload_def wire_ok_def)
  ultimately show ?thesis
    by (simp add: submit_job_def validate_max_attempts_def min_max_attempts_def max_max_attempts_def sample_insert sample_lib_simps
        row_status_api_def row_status_def)
qed

lemma sample_handled:
  "handle_request sample_lib 300 9 sample_message (default_chaos 0, sample_running_db)
     = (Inr (201, charge_response_from_row sample_charge_row False), sample_chaos, sample_charged_db)"
proof -
  have k: "cp_idempotency_key sample_message = charge_key sample_lib 7" "cp_body sample_message = sample_payload"
    by (simp_all add: sample_message_def charge_request_def charge_key_def)
  have "insert_or_get_charge 300 9 (charge_key sample_lib 7) (customer_id sample_payload) (amount_cents sample_payload)
      (currency sample_payload) sample_running_db = Inr (Created sample_charge_row, sample_charged_db)"
    using insert_or_get_new [of "charge_key sample_lib 7" "customer_id sample_payload" "currency sample_payload" sample_running_db
        "amount_cents sample_payload" 9] charge_key_text_ok [OF sample_wire_ok, of 7]
    by (simp add: charge_texts_ok_def sample_running_db_def charge_of_def sample_payload_def sample_charge_row_def sample_charged_db_def Let_def)
  then show ?thesis
    by (simp add: handle_request_def create_charge_def k received_key [OF sample_wire_ok]
        received_body [OF sample_wire_ok sample_payload_ok] decide_normal default_chaos_def sample_chaos_def respond_def)
qed

lemma run_fields [simp]:
  "sys_db run_submitted = sample_pending_db" "sys_db run_claimed = sample_running_db"
  "sys_db run_posted = sample_running_db" "sys_db run_judged = sample_charged_db" "sys_db run_done = sample_done_db"
  "sys_flights run_claimed = [sample_flight Claimed]" "sys_flights run_posted = [sample_flight (Posted sample_message)]"
  "sys_flights run_judged = [sample_flight (Judged (Inr ()))]" "sys_network run_posted = [sample_message]"
  "sys_chaos run_posted = default_chaos 0"
  by (simp_all add: run_submitted_def run_claimed_def run_posted_def run_judged_def run_done_def start_flights_def
      replace_flight_def drop_flight_def init_system_def sample_flight_def)

lemma sample_flight_simps [simp]:
  "fl_job (sample_flight st) = sample_running" "fl_stage (sample_flight st) = st" "fl_claim (sample_flight st) = sample_claim"
  by (simp_all add: sample_flight_def fl_job_def sample_claim_def)

lemma sample_finalize: "finalize 400 7 55 (Success 5) sample_charged_db = Inr (True, sample_done_db)"
proof -
  have "db_inv sample_charged_db"
    using sample_running_inv by (simp add: sample_charged_db_def db_inv_def attempts_of_def)
  moreover have "owns 7 55 sample_charged_db" using sample_owned by (simp add: sample_charged_db_def owns_def)
  ultimately show ?thesis unfolding sample_done_db_def
    by (intro finalize_owned) (simp_all add: sample_charged_db_def sample_running_db_def)
qed

lemma run_steps:
  "sys_step sample_lib (init_system 0) run_submitted" "sys_step sample_lib run_submitted run_claimed"
  "sys_step sample_lib run_claimed run_posted" "sys_step sample_lib run_posted run_judged"
  "sys_step sample_lib run_judged run_done"
proof -
  have "sys_db (init_system (0 :: nat)) = empty_db" by (simp add: init_system_def)
  note init = sample_submits [folded this]
  show "sys_step sample_lib (init_system 0) run_submitted"
    unfolding run_submitted_def using sys_step.submit [of sample_lib 100 7 _ "init_system 0", OF init]
    by simp
  show "sys_step sample_lib run_submitted run_claimed"
    unfolding run_claimed_def
    by (rule sys_step.claim [where tok = "\<lambda>i. 55" and now = 200 and locked = "\<lambda>i. False" and worker = "''w''"
          and limit = 10 and lease = "from_secs 30"]) (simp_all add: sample_fresh sample_claims)
  show "sys_step sample_lib run_claimed run_posted"
    unfolding run_posted_def
    by (rule sys_step.post [where pl = sample_payload]) (simp_all add: sample_payload_ok sample_message_def)
  have "judged sample_lib (wire_reply sample_lib (Inr (201, charge_response_from_row sample_charge_row False))) = Judged (Inr ())"
    by (simp add: judged_def wire_reply_def judge_reply_def is_success_def)
  then show "sys_step sample_lib run_posted run_judged"
    unfolding run_judged_def
    using sys_step.replied [of "sample_flight (Posted sample_message)" run_posted sample_message sample_lib 300 9] sample_handled
    by simp
  have "sample_done_db = finalized_db (finalize 400 (jid (fl_job (sample_flight (Judged (Inr ()))))) 55 (Success 5) (sys_db run_judged)) (sys_db run_judged)"
    by (simp add: sample_finalize finalized_db_def del: finalize.simps)
  moreover have "crash_verdict (from_millis 5) (Inr ()) = Success 5"
    by (simp add: crash_verdict_def duration_ms_def as_millis_from_millis i64_max_def)
  ultimately show "sys_step sample_lib run_judged run_done"
    unfolding run_done_def
    using sys_step.finalized [of "sample_flight (Judged (Inr ()))" run_judged "Inr ()" 55 "Success 5" sample_lib "from_millis 5" 0 400]
    by (simp only: run_fields sample_flight_simps sample_rows list.set insert_iff) simp
qed

lemma run_reachable: "reachable sample_lib run_done"
proof -
  have "(sys_step sample_lib)\<^sup>*\<^sup>* (init_system 0) run_done"
    using run_steps by (meson converse_rtranclp_into_rtranclp rtranclp.rtrancl_refl)
  then show ?thesis unfolding reachable_def by blast
qed

lemma run_posted_reachable: "reachable sample_lib run_posted"
proof -
  have "(sys_step sample_lib)\<^sup>*\<^sup>* (init_system 0) run_posted"
    using run_steps by (meson converse_rtranclp_into_rtranclp rtranclp.rtrancl_refl)
  then show ?thesis unfolding reachable_def by blast
qed

lemma run_claimed_reachable: "reachable sample_lib run_claimed"
proof -
  have "(sys_step sample_lib)\<^sup>*\<^sup>* (init_system 0) run_claimed"
    using run_steps by (meson converse_rtranclp_into_rtranclp rtranclp.rtrancl_refl)
  then show ?thesis unfolding reachable_def by blast
qed

lemma run_submitted_reachable: "reachable sample_lib run_submitted"
  unfolding reachable_def using run_steps(1) by blast

lemma run_judged_reachable: "reachable sample_lib run_judged"
proof -
  have "(sys_step sample_lib)\<^sup>*\<^sup>* run_posted run_judged" using run_steps(4) by (rule r_into_rtranclp)
  with run_posted_reachable show ?thesis unfolding reachable_def by (meson rtranclp_trans)
qed

text \<open>The succeeded job of the run.\<close>

definition sample_done :: "charge_payload job_row" where
  "sample_done = verdict_row 400 (Success 5) sample_running"

lemma sample_done_jobs: "jobs (sys_db run_done) = [sample_done]"
  by (simp add: sample_done_db_def sample_charged_db_def sample_running_db_def sample_done_def holds_lease_def)

lemma sample_done_fields [simp]:
  "jid sample_done = 7" "status sample_done = as_db_str Succeeded" "payload sample_done = sample_payload"
  "attempts sample_done = 1" "max_attempts sample_done = 3"
  by (simp_all add: sample_done_def succeed_row_def)

lemma sample_done_row: "sample_done \<in> set (jobs (sys_db run_done))"
  by (simp add: sample_done_jobs del: run_fields)

end
