(* ===== verification/CoreProps.thy ===== *)
theory CoreProps
  imports Samples
begin

section \<open>Properties of the core crate\<close>

text \<open>
  What configuration, backoff, validation and the text encodings promise to the services, each with a concrete instance.
\<close>

definition sample_vars :: env where
  "sample_vars k =
     (if k = ''WORKER_CHARGE_SERVICE_URL'' then Present ''http://c''
      else if k = ''WORKER_RETRY_BASE_DELAY_MS'' then Present ''+250''
      else NotPresent)"

definition sample_config :: "string worker_config" where
  "sample_config =
     \<lparr>concurrency = 10, poll_interval = from_millis 250, lease_duration = from_secs 30,
      charge_service_url = ''http://c'', charge_request_timeout = from_secs 10,
      retry_base_delay = from_millis 250, retry_multiplier = 2, retry_max_delay = from_secs 60,
      shutdown_grace = from_secs 30, metrics_bind_addr = ''0.0.0.0:9091''\<rparr>"

lemma sample_config_read: "worker_from_env Some sample_vars = Inr sample_config"
proof -
  have t: "trim ''+250'' = ''+250''" by (rule trim_graphic) (simp_all add: graphic_def)
  have "parse_uint u64_max (trim ''+250'') = Some 250"
    unfolding t by (simp add: parse_uint_def Let_def u64_max_def digit_of_def)
  moreover have "worker_validate sample_config = Inr ()"
  proof -
    have "starts_with ''http://c'' ''http://''" by (simp add: starts_with_def)
    then show ?thesis
      by (simp add: worker_validate_def sample_config_def is_zero_def from_millis_def from_secs_def
          max_allowed_concurrency_def max_allowed_poll_interval_ms_def max_allowed_lease_duration_secs_def
          max_allowed_charge_request_timeout_secs_def max_allowed_retry_max_delay_secs_def
          max_allowed_shutdown_grace_secs_def)
  qed
  ultimately show ?thesis
    by (simp add: worker_from_env_def sample_vars_def parse_env_def Let_def sample_config_def [symmetric]
        default_concurrency_def default_poll_interval_ms_def default_lease_duration_secs_def
        default_charge_request_timeout_secs_def default_retry_multiplier_def default_retry_max_delay_secs_def
        default_shutdown_grace_secs_def default_metrics_bind_addr_def cong: bind_res_weak_cong)
qed

text \<open>C25. For a worker whose settings were read from the environment, the cap of the \<open>n\<close>-th retry is the documented
  \<open>min (max_delay, base_delay * multiplier ^ (n - 1))\<close> in spite of the 32-bit saturation of the factor, it never falls from
  one attempt to the next, and the jittered delay lies between zero and the cap, which is at most an hour.\<close>

theorem configured_backoff:
  assumes "worker_from_env parse_addr env = Inr c" "gen_range_within gen_range"
  shows "cap (worker_retry_policy c) n = min (retry_max_delay c) (retry_base_delay c * retry_multiplier c ^ (n - 1))
    \<and> cap (worker_retry_policy c) n \<le> cap (worker_retry_policy c) (n + 1)
    \<and> fst (delay gen_range (worker_retry_policy c) n rng) \<le> cap (worker_retry_policy c) n
    \<and> cap (worker_retry_policy c) n \<le> from_secs 3600"
proof (intro conjI)
  note p = worker_policy_reaches_cap [OF assms(1)]
  note v = worker_validate_bounds [OF worker_from_env_validated [OF assms(1)]]
  show "cap (worker_retry_policy c) n = min (retry_max_delay c) (retry_base_delay c * retry_multiplier c ^ (n - 1))"
    using cap_closed_form [OF p(3,2,1), of n] by (simp add: worker_retry_policy_def)
  show "cap (worker_retry_policy c) n \<le> cap (worker_retry_policy c) (n + 1)" by (rule cap_mono [OF p(3)]) simp
  show "fst (delay gen_range (worker_retry_policy c) n rng) \<le> cap (worker_retry_policy c) n" by (rule delay_le_cap [OF assms(2)])
  show "cap (worker_retry_policy c) n \<le> from_secs 3600"
    using cap_le_max_delay [of "worker_retry_policy c" n] v(12) by (simp add: worker_retry_policy_def)
qed

theorem configured_backoff_witness:
  "cap (worker_retry_policy sample_config) 9 = from_secs 60
    \<and> fst (delay sample_gen (worker_retry_policy sample_config) 3 700) \<le> from_secs 1"
proof -
  have "cap (worker_retry_policy sample_config) 3 = from_secs 1"
    using configured_backoff [OF sample_config_read sample_gen_within, of 3 0]
    by (simp add: sample_config_def from_millis_def from_secs_def)
  then show ?thesis
    using configured_backoff [OF sample_config_read sample_gen_within, of 9 0]
      configured_backoff [OF sample_config_read sample_gen_within, of 3 700]
    by (simp add: sample_config_def from_millis_def from_secs_def)
qed

text \<open>The settings a worker starts with are within their bounds, and with them the heartbeat beats at exactly a third of the
  lease: the 100 ms floor of the interval never applies.\<close>

theorem worker_settings_bounds:
  assumes "worker_from_env parse_addr env = Inr c"
  shows "1 \<le> concurrency c \<and> concurrency c \<le> 1000 \<and> 0 < poll_interval c \<and> poll_interval c \<le> from_secs 60
    \<and> from_secs 1 \<le> lease_duration c \<and> lease_duration c \<le> from_secs 3600
    \<and> heartbeat_interval (lease_duration c) = lease_duration c div 3
    \<and> 0 < retry_base_delay c \<and> retry_base_delay c \<le> retry_max_delay c \<and> shutdown_grace c \<le> from_secs 3600"
proof -
  note v = worker_validate_bounds [OF worker_from_env_validated [OF assms]]
  obtain s where s: "lease_duration c = from_secs s"
    using assms unfolding worker_from_env_def Let_def by (auto simp: res_simps)
  then have lease: "from_secs 1 \<le> lease_duration c" using v(5) by (simp add: from_secs_def)
  then have "from_millis 300 \<le> lease_duration c" by (simp add: from_secs_def from_millis_def)
  from heartbeat_interval_third(1) [OF this] v lease show ?thesis by simp
qed

theorem worker_settings_bounds_witness: "heartbeat_interval (lease_duration sample_config) = from_secs 10"
  using worker_settings_bounds [OF sample_config_read] by (simp add: sample_config_def from_secs_def)

text \<open>The validation of the worker's settings accepts exactly the configurations within the documented ranges.\<close>

theorem worker_validate_accepts:
  "worker_validate c = Inr () \<longleftrightarrow>
     1 \<le> concurrency c \<and> concurrency c \<le> 1000
     \<and> 0 < poll_interval c \<and> poll_interval c \<le> from_millis 60000
     \<and> 0 < lease_duration c \<and> lease_duration c \<le> from_secs 3600
     \<and> (starts_with (charge_service_url c) ''http://'' \<or> starts_with (charge_service_url c) ''https://'')
     \<and> 0 < charge_request_timeout c \<and> charge_request_timeout c \<le> from_secs 120
     \<and> 0 < retry_base_delay c \<and> 1 \<le> retry_multiplier c
     \<and> 0 < retry_max_delay c \<and> retry_max_delay c \<le> from_secs 3600
     \<and> retry_base_delay c \<le> retry_max_delay c \<and> shutdown_grace c \<le> from_secs 3600"
  by (auto simp: worker_validate_def is_zero_def max_allowed_concurrency_def
      max_allowed_poll_interval_ms_def max_allowed_lease_duration_secs_def
      max_allowed_charge_request_timeout_secs_def max_allowed_retry_max_delay_secs_def
      max_allowed_shutdown_grace_secs_def)

text \<open>A payload is accepted exactly when it decodes, names a customer in at most 128 bytes, charges a positive amount
  and gives a currency of three capital letters; a charge made of it then satisfies the check of the charges table.\<close>

theorem payload_accepted_iff:
  "(parse_charge_payload decode v = Inr p \<longleftrightarrow>
     decode v = Inr p \<and> trim (customer_id p) \<noteq> [] \<and> length (customer_id p) \<le> 128 \<and> 0 < amount_cents p
     \<and> length (currency p) = 3 \<and> (\<forall>c \<in> set (currency p). CHR ''A'' \<le> c \<and> c \<le> CHR ''Z''))
   \<and> (parse_charge_payload decode v = Inr p \<longrightarrow>
     charge_checks \<lparr>ch_id = i, ch_idempotency_key = k, ch_customer_id = customer_id p, ch_amount_cents = amount_cents p,
       ch_currency = currency p, ch_created_at = now\<rparr>)"
  by (auto simp: parse_charge_payload_ok valid_payload_def charge_checks_def)

theorem payload_accepted_iff_witness:
  "charge_checks \<lparr>ch_id = 1, ch_idempotency_key = ''k'', ch_customer_id = ''c1'', ch_amount_cents = 250,
     ch_currency = ''EUR'', ch_created_at = 0\<rparr>"
proof -
  have "parse_charge_payload Inr sample_payload = Inr sample_payload"
    using sample_payload_ok by (simp add: job_payload_def sample_lib_def sample_worker_def)
  with payload_accepted_iff [of Inr sample_payload sample_payload 1 "''k''" 0] show ?thesis
    by (simp add: sample_payload_def)
qed

text \<open>The status column can be read back, and nothing but the four spellings is read as a status.\<close>

theorem status_column_codec:
  "parse_db_str (as_db_str st) = Some st \<and> (parse_db_str s = Some st \<longleftrightarrow> s = as_db_str st)"
  using status_text.dec_Some_iff by (simp add: status_text.dec_enc)

text \<open>What is logged of a lease token is twelve hexadecimal characters, and two tokens have the same fingerprint
  exactly when the first six bytes of their digests agree. The digest is relied on for its 32 bytes only.\<close>

theorem token_fingerprint:
  assumes "\<And>t. length (sha256 t) = 32"
  shows "length (lease_token_hash sha256 t) = 12
    \<and> (lease_token_hash sha256 t = lease_token_hash sha256 u \<longleftrightarrow> take 6 (sha256 t) = take 6 (sha256 u))"
proof
  show "length (lease_token_hash sha256 t) = 12" using assms by (simp add: lease_token_hash_def hex_encode_length)
  show "lease_token_hash sha256 t = lease_token_hash sha256 u \<longleftrightarrow> take 6 (sha256 t) = take 6 (sha256 u)"
    unfolding lease_token_hash_def by (auto dest: hex_encode_inj)
qed

theorem token_fingerprint_witness:
  "length (lease_token_hash (\<lambda>t. replicate 32 (ucast t)) 55) = 12
    \<and> lease_token_hash (\<lambda>t. replicate 32 (ucast t)) 55 \<noteq> lease_token_hash (\<lambda>t. replicate 32 (ucast t)) 56"
  using token_fingerprint [of "\<lambda>t :: uuid. replicate 32 (ucast t)" 55 56] by simp

end
