(* ===== verification/RepoProps.thy ===== *)
theory RepoProps
  imports Samples
begin

section \<open>Properties of the repositories\<close>

text \<open>
  What a claim, the finalisers, the renewal, the replay and the charge table promise, over the definitions of
  \<open>JobsRepo\<close> and \<open>ChargesRepo\<close>.
\<close>

subsection \<open>Lemmas\<close>

lemma sample_claim_again: "claim_pending_jobs 250 (\<lambda>i. False) (\<lambda>i. 77) ''x'' 10 (from_secs 30) sample_running_db
    = Inr (claimed_jobs 250 (\<lambda>i. False) (\<lambda>i. 77) 10 (from_secs 30) sample_running_db,
           claimed_db 250 (\<lambda>i. False) (\<lambda>i. 77) ''x'' 10 (from_secs 30) sample_running_db)"
  using claim_result [OF sample_running_inv, of 10] by (simp add: sample_running_db_def)

lemma sample_reclaim: "claim_pending_jobs 30000300 (\<lambda>i. False) (\<lambda>i. 77) ''x'' 10 (from_secs 30) sample_running_db
    = Inr (claimed_jobs 30000300 (\<lambda>i. False) (\<lambda>i. 77) 10 (from_secs 30) sample_running_db,
           claimed_db 30000300 (\<lambda>i. False) (\<lambda>i. 77) ''x'' 10 (from_secs 30) sample_running_db)"
  using claim_result [OF sample_running_inv, of 10] by (simp add: sample_running_db_def)

lemma sample_reclaimed: "7 \<in> (\<lambda>c. jid (cj_job c)) ` set (claimed_jobs 30000300 (\<lambda>i. False) (\<lambda>i. 77) 10 (from_secs 30) sample_running_db)"
  unfolding claimed_ids_iff [OF sample_running_inv]
  by (simp add: claimed_ids_def due_rows_def sample_running_db_def cleaned_row_def exhausted_def claimable_def
      expired_running_def)

subsection \<open>Claiming\<close>

text \<open>C7. A claim on consistent tables with fresh tokens always goes through: it keeps the tables consistent, returns at most
  \<open>limit\<close> jobs, no job twice, and every job it returns was due (pending and scheduled, or running with an expired lease),
  had attempts left and was not locked; it is now running under its new token, with one attempt more.\<close>

theorem claim_returns_due_jobs:
  assumes "db_inv db" "db_up db" "0 \<le> limit" "fresh_tokens tok db"
  shows "\<exists>cs db'. claim_pending_jobs now locked tok worker limit lease db = Inr (cs, db')
    \<and> db_inv db' \<and> int (length cs) \<le> limit \<and> distinct (map (\<lambda>c. jid (cj_job c)) cs)
    \<and> (\<forall>c \<in> set cs. \<exists>r \<in> set (jobs db). claimable now r \<and> \<not> locked (jid r)
         \<and> cj_job c = claim_row now lease (tok (jid r)) r \<and> cj_attempt_number c = attempts r + 1
         \<and> cj_job c \<in> set (jobs db') \<and> owns (jid r) (tok (jid r)) db')"
proof -
  let ?cs = "claimed_jobs now locked tok (nat limit) lease db"
  let ?db' = "claimed_db now locked tok worker (nat limit) lease db"
  have "\<exists>r \<in> set (jobs db). claimable now r \<and> \<not> locked (jid r) \<and> cj_job c = claim_row now lease (tok (jid r)) r
      \<and> cj_attempt_number c = attempts r + 1 \<and> cj_job c \<in> set (jobs ?db') \<and> owns (jid r) (tok (jid r)) ?db'"
    if "c \<in> set ?cs" for c
    using claimed_row_before [OF assms(1) that] claimed_owner [OF assms(1)] by metis
  moreover have "int (length ?cs) \<le> limit"
    using claimed_jobs_length [OF assms(1), of now locked tok "nat limit" lease] assms(3) by linarith
  moreover note claim_result [OF assms(1-3), of now locked tok worker lease]
    claimed_db_inv [OF assms(1,4)] claimed_jobs_distinct [OF assms(1)]
  ultimately show ?thesis by blast
qed

theorem claim_returns_due_jobs_witness:
  "\<exists>cs db'. claim_pending_jobs 200 (\<lambda>i. False) (\<lambda>i. 55) ''w'' 10 (from_secs 30) sample_pending_db = Inr (cs, db')
     \<and> db_inv db'"
  using claim_returns_due_jobs [OF sample_pending_inv _ _ sample_fresh, of 10 200 "\<lambda>i. False" "''w''" "from_secs 30"]
  by (fastforce simp: sample_pending_db_def)

text \<open>The rows a claim selects, in the order it selects them, from the tables it finds.\<close>

definition due_order :: "timestamp \<Rightarrow> (uuid \<Rightarrow> bool) \<Rightarrow> 'v db \<Rightarrow> 'v job_row list" where
  "due_order now locked db =
     sort_key (\<lambda>r. (next_attempt_at r, created_at r)) (filter (\<lambda>r. claimable now r \<and> \<not> locked (jid r)) (jobs db))"

lemma due_rows_order: "due_rows now locked n (cleaned_db now locked db) = take n (due_order now locked db)"
proof -
  have same: "cleaned_row now locked r = r" if "claimable now (cleaned_row now locked r)" for r :: "'a job_row"
    using cleaned_claimable that .
  have keep: "claimable now r \<Longrightarrow> cleaned_row now locked r = r" for r :: "'a job_row"
    by (auto simp: cleaned_row_def claimable_def exhausted_def)
  have "filter (claimable now) (map (cleaned_row now locked) xs) = filter (claimable now) xs" for xs :: "'a job_row list"
    using same keep by (induction xs) (auto, metis+)
  then show ?thesis by (simp add: due_rows_def due_order_def filter_sort conj_commute)
qed

lemma due_order_distinct: "db_inv db \<Longrightarrow> distinct (map jid (due_order now locked db))"
  using distinct_map_filter [OF db_inv_distinct] by (simp add: due_order_def distinct_map)

lemma claimed_count:
  assumes "db_inv db" "claim_pending_jobs now locked tok worker limit lease db = Inr (cs, db')"
  shows "length cs = min (nat limit) (length (due_order now locked db))"
proof -
  note cs = claim_Inr(3) [OF assms]
  have "length cs = card (set (map (\<lambda>c. jid (cj_job c)) cs))"
    using claimed_jobs_distinct [OF assms(1)] unfolding cs by (metis distinct_card length_map)
  also have "set (map (\<lambda>c. jid (cj_job c)) cs) = claimed_ids now locked (nat limit) db"
    unfolding cs set_map using claimed_ids_iff [OF assms(1)] by (intro set_eqI)
  also have "\<dots> = set (map jid (take (nat limit) (due_order now locked db)))"
    by (simp only: claimed_ids_def due_rows_order set_map)
  also have "card \<dots> = length (take (nat limit) (due_order now locked db))"
    using distinct_take [OF due_order_distinct [OF assms(1)]] by (metis distinct_card length_map take_map)
  finally show ?thesis by (simp add: min.commute)
qed

text \<open>C16. A claim takes as many jobs as it may, the longest due first: it returns \<open>limit\<close> jobs or all the due, unlocked ones
  with attempts left, and none it leaves behind was scheduled before one it takes.\<close>

theorem claim_takes_earliest:
  assumes "db_inv db" "claim_pending_jobs now locked tok worker limit lease db = Inr (cs, db')"
  shows "length cs = min (nat limit) (length (filter (\<lambda>r. claimable now r \<and> \<not> locked (jid r)) (jobs db)))
    \<and> (\<forall>c \<in> set cs. \<forall>r \<in> set (jobs db).
         claimable now r \<and> \<not> locked (jid r) \<and> jid r \<notin> (\<lambda>c. jid (cj_job c)) ` set cs \<longrightarrow>
         (next_attempt_at (cj_job c), created_at (cj_job c)) \<le> (next_attempt_at r, created_at r))"
proof -
  note cs = claim_Inr(3) [OF assms]
  let ?n = "nat limit" and ?key = "\<lambda>r. (next_attempt_at r, created_at r)" and ?all = "due_order now locked db"
  have "?key (cj_job c) \<le> ?key r"
    if c: "c \<in> set cs" and r: "r \<in> set (jobs db)" "claimable now r" "\<not> locked (jid r)"
      "jid r \<notin> (\<lambda>c. jid (cj_job c)) ` set cs" for c r
  proof -
    obtain q where q: "q \<in> set (jobs db)" "jid q \<in> claimed_ids now locked ?n db"
      "cj_job c = claim_row now lease (tok (jid q)) q"
      using claimed_row_before [OF assms(1) c [unfolded cs]] by metis
    obtain q' where q': "q' \<in> set (take ?n ?all)" "jid q' = jid q" using q(2) by (auto simp: claimed_ids_def due_rows_order)
    then have "q' \<in> set (jobs db)" by (auto simp: due_order_def dest: in_set_takeD)
    with q' have "q \<in> set (take ?n ?all)" using db_inv_same_id [OF assms(1) _ q(1)] by blast
    moreover have "r \<in> set ?all" using r by (simp add: due_order_def)
    moreover have "jid r \<notin> claimed_ids now locked ?n db"
      using r(4) claimed_ids_iff [OF assms(1)] unfolding cs by blast
    then have "r \<notin> set (take ?n ?all)" by (auto simp: claimed_ids_def due_rows_order)
    moreover have "sorted (map ?key ?all)" by (simp add: due_order_def)
    ultimately have "?key q \<le> ?key r" using sorted_take_le [of ?key ?all q ?n r] by blast
    then show ?thesis using q(3) by (simp add: claim_row_def)
  qed
  moreover have "length ?all = length (filter (\<lambda>r. claimable now r \<and> \<not> locked (jid r)) (jobs db))" by (simp add: due_order_def)
  ultimately show ?thesis using claimed_count [OF assms] by auto
qed

theorem claim_takes_earliest_witness: "length [sample_claim] = min (nat 10) (length [sample_pending])"
  using claim_takes_earliest [OF sample_pending_inv sample_claims]
  by (simp add: sample_pending_db_def claimable_def due_pending_def)

text \<open>A job that runs under an unexpired lease is left alone by every claim: its row and its attempts are the same
  afterwards, and the claim does not return it.\<close>

theorem claim_spares_leased_jobs:
  assumes "db_inv db" "claim_pending_jobs now locked tok worker limit lease db = Inr (cs, db')"
    and "r \<in> set (jobs db)" "status r = as_db_str Running" "lease_expires_at r = Some e" "now < e"
  shows "r \<in> set (jobs db') \<and> attempts_of (jid r) db' = attempts_of (jid r) db
    \<and> jid r \<notin> (\<lambda>c. jid (cj_job c)) ` set cs"
  using leased_row_kept [OF assms] by blast

theorem claim_spares_leased_jobs_witness:
  "sample_running \<in> set (jobs (claimed_db 250 (\<lambda>i. False) (\<lambda>i. 77) ''x'' 10 (from_secs 30) sample_running_db))"
  using claim_spares_leased_jobs [OF sample_running_inv sample_claim_again, of sample_running 30000200]
  by (simp add: sample_running_db_def)

text \<open>C8. Once a job was taken over by a claim, its former owner can do nothing to it any more: whatever it tries to finalise the
  job with, and when, it is told that the lease is gone (or that its error message is no text the database can hold), no row
  changes, and it cannot renew.\<close>

theorem reclaimed_owner_is_fenced:
  assumes "db_inv db" "fresh_tokens tok db"
    and "claim_pending_jobs now locked tok worker limit lease db = Inr (cs, db')"
    and "owns i t db" "i \<in> (\<lambda>c. jid (cj_job c)) ` set cs"
  shows "finalize later i t v db' = (if verdict_texts_ok v then Inr (False, db') else Inl (Database InvalidText))
    \<and> (\<exists>db''. renew_lease later i t lease' db' = Inr (False, db''))"
proof -
  note res = claim_Inr [OF assms(1,3)]
  have ids: "i \<in> claimed_ids now locked (nat limit) db"
    using assms(5) claimed_ids_iff [OF assms(1)] unfolding res(3) by blast
  obtain r where r: "r \<in> set (jobs db)" "jid r = i" "status r = as_db_str Running" "lease_token r = Some t"
    using assms(4) by (auto simp: owns_def holds_lease_def)
  have new: "owns i (tok i) db'" using claimed_owner(2) [OF assms(1) r(1)] ids r(2) unfolding res(4) by simp
  have inv': "db_inv db'" unfolding res(4) by (rule claimed_db_inv [OF assms(1,2)])
  have up': "db_up db'" using res(1) unfolding res(4) by (simp add: claimed_db_def Let_def)
  have "t \<in> issued_tokens db" using running_token_issued [OF assms(1) r(1,3)] r(4) by auto
  moreover have "tok i \<notin> issued_tokens db" using assms(2) r(1,2) by (auto simp: fresh_tokens_def)
  ultimately have "\<not> owns i t db'" using owns_same_token [OF inv' new] by blast
  then show ?thesis using finalize_stale [OF _ up'] finalize_refused [OF _ up'] renew_lease_result [OF inv' up'] by simp
qed

theorem reclaimed_owner_is_fenced_witness:
  "finalize 30000400 7 55 (Success 3) (claimed_db 30000300 (\<lambda>i. False) (\<lambda>i. 77) ''x'' 10 (from_secs 30) sample_running_db)
     = Inr (False, claimed_db 30000300 (\<lambda>i. False) (\<lambda>i. 77) ''x'' 10 (from_secs 30) sample_running_db)"
  using reclaimed_owner_is_fenced [OF sample_running_inv sample_fresh_77 sample_reclaim sample_owned sample_reclaimed,
      where later = 30000400 and v = "Success 3"]
  by (simp del: finalize.simps)

text \<open>A claim buries every unlocked job whose lease expired on its last attempt: it ends DEAD, without a lease and with the
  code that says so, its attempts are all closed, and it is not handed out.\<close>

theorem claim_buries_exhausted:
  assumes "db_inv db" "claim_pending_jobs now locked tok worker limit lease db = Inr (cs, db')"
    and "r \<in> set (jobs db)" "exhausted now r" "\<not> locked (jid r)"
  shows "(\<exists>r' \<in> set (jobs db'). jid r' = jid r \<and> status r' = as_db_str Dead \<and> lease_token r' = None
      \<and> finished_at r' = Some now \<and> last_error_code r' = Some ''LEASE_EXPIRED_BUDGET_EXHAUSTED'')
    \<and> (\<forall>a \<in> set (attempts_of (jid r) db'). at_outcome a \<noteq> None)
    \<and> jid r \<notin> (\<lambda>c. jid (cj_job c)) ` set cs"
proof -
  note res = claim_Inr [OF assms(1,2)]
  have row: "cleaned_row now locked r = exhaust_row now r" using assms(4,5) by (simp add: cleaned_row_def)
  have "\<not> claimable now r" using assms(4) by (auto simp: claimable_def exhausted_def)
  then have ids: "jid r \<notin> claimed_ids now locked (nat limit) db" using claimed_is_claimable(1) [OF assms(1,3)] by blast
  have "expired_running now r" using assms(4) by (simp add: exhausted_def)
  from expired_trail_closed [OF db_inv_job [OF assms(1,3)] this]
  have "\<forall>a \<in> set (attempts_of (jid r) db'). at_outcome a \<noteq> None"
    using claimed_trail [OF assms(1,3)] ids unfolding res(4) by (auto simp: closed_unsuccessful_def)
  moreover have "exhaust_row now r \<in> set (jobs db')" using unclaimed_row [OF assms(3) ids] unfolding res(4) row .
  ultimately show ?thesis using ids claimed_ids_iff [OF assms(1)] unfolding res(3)
    by (auto simp: exhaust_row_def intro!: bexI [of _ "exhaust_row now r"])
qed

definition sample_last_row :: "charge_payload job_row" where
  "sample_last_row = sample_running\<lparr>max_attempts := 1\<rparr>"

definition sample_last_db :: "charge_payload db" where
  "sample_last_db = sample_running_db\<lparr>jobs := [sample_last_row]\<rparr>"

lemma sample_last_inv: "db_inv sample_last_db"
  using sample_running_inv
  by (simp add: db_inv_def sample_last_db_def sample_last_row_def sample_running_db_def job_ok_def job_checks_def
      trail_ok_def attempts_of_def i32_def new_attempt_def open_or_lost_def)

theorem claim_buries_exhausted_witness:
  "\<exists>r' \<in> set (jobs (claimed_db 30000300 (\<lambda>i. False) (\<lambda>i. 77) ''x'' 10 (from_secs 30) sample_last_db)).
     jid r' = 7 \<and> status r' = as_db_str Dead"
proof -
  have "claim_pending_jobs 30000300 (\<lambda>i. False) (\<lambda>i. 77) ''x'' 10 (from_secs 30) sample_last_db
    = Inr (claimed_jobs 30000300 (\<lambda>i. False) (\<lambda>i. 77) 10 (from_secs 30) sample_last_db,
           claimed_db 30000300 (\<lambda>i. False) (\<lambda>i. 77) ''x'' 10 (from_secs 30) sample_last_db)"
    using claim_result [OF sample_last_inv, of 10] by (simp add: sample_last_db_def sample_running_db_def)
  from claim_buries_exhausted [OF sample_last_inv this, of sample_last_row] show ?thesis
    by (auto simp: sample_last_db_def sample_last_row_def exhausted_def expired_running_def)
qed

subsection \<open>Finalising\<close>

text \<open>C9. Whatever sequence of finaliser calls is made with whatever leases, and whichever of them fail, at most one call per
  lease takes effect; and none does when the job was not running under that lease to begin with.\<close>

theorem one_finalization_per_lease:
  assumes "db_inv db"
  shows "length (filter (\<lambda>(c, done_it). fc_lease c = (i, t) \<and> done_it) (fst (run_calls finalize_act calls db)))
    \<le> (if owns i t db then 1 else 0)"
  using finalizers.leases.effects_bound [OF assms, of "(i, t)" calls] by (simp add: holds_def split: if_splits)

definition sample_calls :: "finalize_call list" where
  "sample_calls =
     [\<lparr>fc_now = 400, fc_lease = (7, 55), fc_verdict = Success 5\<rparr>,
      \<lparr>fc_now = 410, fc_lease = (7, 55), fc_verdict = Bury ''X'' ''again'' 5\<rparr>]"

theorem one_finalization_per_lease_witness:
  "length (filter (\<lambda>(c, done_it). fc_lease c = (7, 55) \<and> done_it)
     (fst (run_calls finalize_act sample_calls sample_running_db))) \<le> 1"
  using one_finalization_per_lease [OF sample_running_inv, of 7 55 sample_calls] sample_owned by simp

text \<open>C13. For the owner of the lease a finaliser writes exactly its verdict: the job row is the verdict's, the last attempt
  records it, the other jobs and their attempts are untouched, and the lease is over. A verdict whose error texts the database cannot
  hold is refused, and nothing is written.\<close>

theorem finalize_writes_the_verdict:
  assumes "db_inv db" "db_up db" "r \<in> set (jobs db)" "holds_lease i t r"
  shows "if verdict_texts_ok v
    then \<exists>db'. finalize now i t v db = Inr (True, db') \<and> db_inv db' \<and> \<not> owns i t db'
      \<and> verdict_row now v r \<in> set (jobs db')
      \<and> attempts_of i db' = butlast (attempts_of i db) @ [verdict_attempt now v (last (attempts_of i db))]
      \<and> (\<forall>s \<in> set (jobs db). jid s \<noteq> i \<longrightarrow> s \<in> set (jobs db') \<and> attempts_of (jid s) db' = attempts_of (jid s) db)
    else finalize now i t v db = Inl (Database InvalidText)"
proof (cases "verdict_texts_ok v")
  case texts: True
  let ?db' = "verdict_db now i t v db"
  have own: "owns i t db" using assms(3,4) by (auto simp: owns_def)
  note fin = finalize_owned [OF assms(1) own assms(2) texts, of now]
  have att: "attempts_of j ?db' = map (\<lambda>a. if attempt_of_lease i t a then verdict_attempt now v a else a) (attempts_of j db)" for j
    unfolding verdict_db_def by (simp add: attempts_of_update_attempts closing_simps [OF closing_verdict])
  have "attempts_of i ?db' = butlast (attempts_of i db) @ [verdict_attempt now v (last (attempts_of i db))]"
    unfolding att by (rule finalized_trail [OF assms(1,3,4)])
  moreover have "verdict_row now v r \<in> set (jobs ?db')" using assms(3,4) by force
  moreover have "s \<in> set (jobs ?db')" "attempts_of (jid s) ?db' = attempts_of (jid s) db"
    if "s \<in> set (jobs db)" "jid s \<noteq> i" for s
  proof -
    have "\<not> holds_lease i t s" using that(2) by (simp add: holds_lease_def)
    with that(1) show "s \<in> set (jobs ?db')" by force
    show "attempts_of (jid s) ?db' = attempts_of (jid s) db" unfolding att by (rule other_trail_unchanged [OF that(2)])
  qed
  ultimately show ?thesis
    using texts fin finalize_preserves [OF assms(1) fin] owns_verdict_db [OF assms(1) own] by auto
qed (simp add: finalize_refused [OF _ assms(2)] del: finalize.simps)

theorem finalize_writes_the_verdict_witness:
  "\<exists>db'. finalize 400 7 55 (Success 5) sample_running_db = Inr (True, db') \<and> succeed_row 400 sample_running \<in> set (jobs db')"
  using finalize_writes_the_verdict [OF sample_running_inv, of sample_running 7 55 "Success 5" 400]
  by (fastforce simp: sample_running_db_def holds_lease_def simp del: finalize.simps)

text \<open>Expiry is recorded before the lease is really gone: a claim closes the attempt of an expired job as LEASE_LOST even when
  it does not take the job over (another transaction holds the row, or the limit is reached); the owner can then still
  finalise, and the attempt is rewritten from LEASE_LOST to SUCCEEDED.\<close>

theorem lost_attempt_may_still_succeed:
  assumes "db_inv db" "fresh_tokens tok db"
    and "claim_pending_jobs now locked tok worker limit lease db = Inr (cs, db')"
    and "r \<in> set (jobs db)" "holds_lease i t r" "expired_running now r" "attempts r < max_attempts r"
    and "i \<notin> (\<lambda>c. jid (cj_job c)) ` set cs"
  shows "at_outcome (last (attempts_of i db')) = Some (outcome_db_str LeaseLost)
    \<and> (\<exists>db''. finalize_success later i t ms db' = Inr (True, db'')
          \<and> at_outcome (last (attempts_of i db'')) = Some (outcome_db_str AttemptSucceeded))"
proof -
  note res = claim_Inr [OF assms(1,3)]
  have i: "jid r = i" using assms(5) by (simp add: holds_lease_def)
  have ids: "jid r \<notin> claimed_ids now locked (nat limit) db"
    using assms(8) claimed_ids_iff [OF assms(1)] unfolding res(3) i by blast
  have row: "cleaned_row now locked r = r" using assms(7) by (simp add: cleaned_row_def exhausted_def)
  have r': "r \<in> set (jobs db')" using unclaimed_row [OF assms(4) ids] unfolding res(4) row .
  have inv': "db_inv db'" unfolding res(4) by (rule claimed_db_inv [OF assms(1,2)])
  have up': "db_up db'" using res(1) unfolding res(4) by (simp add: claimed_db_def Let_def)
  have trail: "attempts_of i db' = cleaned_trail now r (attempts_of i db)"
    using claimed_trail [OF assms(1,4)] ids unfolding res(4) i by simp
  have ne: "attempts_of i db \<noteq> []" "open_or_lost (last (attempts_of i db))"
    using db_inv_job [OF assms(1,4)] assms(5) i by (auto simp: job_ok_def trail_ok_def holds_lease_def)
  then have lost: "at_outcome (last (attempts_of i db')) = Some (outcome_db_str LeaseLost)"
    unfolding trail last_cleaned_trail [OF ne(1) assms(6)] by (auto simp: open_or_lost_def)
  have own: "owns i t db'" using r' assms(5) by (auto simp: owns_def)
  have fin: "finalize_success later i t ms db' = Inr (True, verdict_db later i t (Success ms) db')"
    using finalize_owned [OF inv' own up', of "Success ms" later] by simp
  have "attempts_of i (verdict_db later i t (Success ms) db')
      = map (\<lambda>a. if attempt_of_lease i t a then verdict_attempt later (Success ms) a else a) (attempts_of i db')"
    unfolding verdict_db_def by (simp only: attempts_of_update_attempts closing_simps [OF closing_verdict] attempts_of_jobs_update)
  also have "\<dots> = butlast (attempts_of i db') @ [succeed_attempt later ms (last (attempts_of i db'))]"
    using finalized_trail [OF inv' r' assms(5)] by simp
  finally have "at_outcome (last (attempts_of i (verdict_db later i t (Success ms) db'))) = Some (outcome_db_str AttemptSucceeded)"
    by (simp add: succeed_attempt_def)
  with lost fin show ?thesis by blast
qed

lemma sample_locked_claim: "claim_pending_jobs 30000300 (\<lambda>i. True) (\<lambda>i. 77) ''x'' 10 (from_secs 30) sample_running_db
    = Inr (claimed_jobs 30000300 (\<lambda>i. True) (\<lambda>i. 77) 10 (from_secs 30) sample_running_db,
           claimed_db 30000300 (\<lambda>i. True) (\<lambda>i. 77) ''x'' 10 (from_secs 30) sample_running_db)"
  using claim_result [OF sample_running_inv, of 10] by (simp add: sample_running_db_def)

lemma sample_locked_none: "7 \<notin> (\<lambda>c. jid (cj_job c)) ` set (claimed_jobs 30000300 (\<lambda>i. True) (\<lambda>i. 77) 10 (from_secs 30) sample_running_db)"
  unfolding claimed_ids_iff [OF sample_running_inv] by (simp add: claimed_ids_def due_rows_def)

theorem lost_attempt_may_still_succeed_witness:
  "at_outcome (last (attempts_of 7 (claimed_db 30000300 (\<lambda>i. True) (\<lambda>i. 77) ''x'' 10 (from_secs 30) sample_running_db)))
     = Some (outcome_db_str LeaseLost)"
proof -
  have "sample_running \<in> set (jobs sample_running_db)" "holds_lease 7 55 sample_running"
    "expired_running 30000300 sample_running" "attempts sample_running < max_attempts sample_running"
    by (simp_all add: sample_running_db_def holds_lease_def expired_running_def)
  from lost_attempt_may_still_succeed [OF sample_running_inv sample_fresh_77 sample_locked_claim this sample_locked_none]
  show ?thesis by blast
qed

subsection \<open>Renewal and replay\<close>

text \<open>A successful renewal protects the job until its new deadline: a claim at any earlier time, by anyone, leaves the job with its
  owner.\<close>

theorem renewal_protects:
  assumes "db_inv db" "renew_lease now i t lease db = Inr (True, db1)"
    and "claim_pending_jobs later locked tok worker limit lease' db1 = Inr (cs, db2)"
    and "later < now + interval_us (as_secs_f64 lease)"
  shows "owns i t db2 \<and> i \<notin> (\<lambda>c. jid (cj_job c)) ` set cs"
proof -
  have inv1: "db_inv db1" by (rule renew_lease_preserves [OF assms(1,2)])
  have up: "db_up db" using assms(2) by (auto simp: renew_lease_def query_def split: if_splits)
  have "owns i t db" using assms(2) renew_lease_result [OF assms(1) up] by auto
  then obtain s where s: "s \<in> set (jobs db)" "holds_lease i t s" by (auto simp: owns_def)
  have "renew_row now lease s \<in> set (jobs db1)" using s assms(2) renew_lease_result [OF assms(1) up] by force
  moreover have "jid (renew_row now lease s) = i" using s(2) by (simp add: renew_row_jid holds_lease_def)
  moreover have "holds_lease i t (renew_row now lease s)" using s(2) by (simp add: holds_lease_def renew_row_def)
  moreover have "lease_expires_at (renew_row now lease s) = Some (now + interval_us (as_secs_f64 lease))"
    by (simp add: renew_row_def)
  ultimately obtain r where r: "r \<in> set (jobs db1)" "jid r = i" "holds_lease i t r"
    "lease_expires_at r = Some (now + interval_us (as_secs_f64 lease))" by blast
  have "status r = as_db_str Running" using r(3) by (simp add: holds_lease_def)
  from leased_row_kept [OF inv1 assms(3) r(1) this r(4) assms(4)] r(2,3) show ?thesis by (auto simp: owns_def)
qed

lemma sample_renewal: "renew_lease 20000000 7 55 (from_secs 30) sample_running_db
   = Inr (True, sample_running_db\<lparr>jobs := [renew_row 20000000 (from_secs 30) sample_running]\<rparr>)"
  using renew_lease_result [OF sample_running_inv, of 20000000 7 55 "from_secs 30"] sample_owned
  by (simp add: sample_running_db_def holds_lease_def)

theorem renewal_protects_witness:
  "\<exists>cs db2. claim_pending_jobs 40000000 (\<lambda>i. False) (\<lambda>i. 77) ''x'' 10 (from_secs 30)
       (sample_running_db\<lparr>jobs := [renew_row 20000000 (from_secs 30) sample_running]\<rparr>) = Inr (cs, db2) \<and> owns 7 55 db2"
proof -
  let ?db = "sample_running_db\<lparr>jobs := [renew_row 20000000 (from_secs 30) sample_running]\<rparr>"
  have inv: "db_inv ?db" by (rule renew_lease_preserves [OF sample_running_inv sample_renewal])
  have up: "db_up ?db" by (simp add: sample_running_db_def)
  note c = claim_result [OF inv up, of 10 40000000 "\<lambda>i. False" "\<lambda>i. 77" "''x''" "from_secs 30", simplified]
  from renewal_protects [OF sample_running_inv sample_renewal c] c show ?thesis by (simp add: interval_us_secs)
qed

text \<open>C11. Executions are bounded: over any interleaving of claims, renewals, finalisers and outages each execution uses up one
  attempt of the budgets of the jobs, so that no more executions begin than the budgets had left, and what is left is known.\<close>

theorem executions_are_bounded:
  assumes "works n db db'" "db_inv db"
  shows "int n = remaining db - remaining db' \<and> 0 \<le> remaining db' \<and> int n \<le> remaining db"
proof -
  note b = works_budget [OF assms]
  then have "0 \<le> remaining db'" using remaining_nonneg by blast
  with b show ?thesis by simp
qed

theorem executions_are_bounded_witness: "works 1 sample_pending_db sample_running_db \<and> remaining sample_running_db = 2"
proof -
  have w: "works 1 sample_pending_db sample_running_db"
    using works.claim [OF works.start sample_fresh sample_claims] by simp
  have "remaining sample_pending_db = 3" by (simp add: remaining_def sample_pending_db_def)
  with w executions_are_bounded [OF w sample_pending_inv] show ?thesis by simp
qed

text \<open>The replay of a job, on every branch: an unknown job or one that is not DEAD is not touched and reported as missing; a DEAD
  job gets the new budget and waits again with its errors cleared, unless the budget is below one or below the
  attempts it has used, which the table refuses.\<close>

theorem retry_dead_job_cases:
  assumes "db_inv db" "db_up db"
  shows "retry_dead_job now i mx db =
    (case find_job i db of
       None \<Rightarrow> Inr (None, db)
     | Some r \<Rightarrow>
         if status r \<noteq> as_db_str Dead then Inr (None, db)
         else if mx < 1 \<or> mx < attempts r then Inl (Database CheckViolation)
         else Inr (Some (revive_row now mx r),
                   db\<lparr>jobs := map (\<lambda>s. if jid s = i then revive_row now mx s else s) (jobs db)\<rparr>))"
  by (rule retry_dead_job_exact [OF assms])

theorem retry_dead_job_cases_witness:
  "retry_dead_job 500 7 9 sample_running_db = Inr (None, sample_running_db)
    \<and> retry_dead_job 500 8 9 sample_running_db = Inr (None, sample_running_db)"
  using retry_dead_job_cases [OF sample_running_inv, of 500 7 9] retry_dead_job_cases [OF sample_running_inv, of 500 8 9]
  by (simp add: sample_running_db_def find_job_def)

subsection \<open>Charges\<close>

text \<open>C14. Over any sequence of charge requests, with any of them failing, at most one creates a charge for a given idempotency key, and none
  does when the key already has one.\<close>

theorem one_charge_created_per_key:
  "length (filter (\<lambda>(c, out). cc_key c = k \<and> is_created out) (fst (run_calls put_charge calls db)))
     \<le> (if stored_payload k db = None then 1 else 0)"
  using charge_store.writes.effects_bound [where s = db and k = k and cs = calls] by (simp split: if_splits)

text \<open>The first request that goes through decides: what is stored under its key, after any further requests, is its own payload.\<close>

theorem first_charge_decides:
  assumes "stored_payload k db = None" "fst (run_calls put_charge calls db) = (c, out) # outs" "cc_key c = k"
  shows "stored_payload k (snd (run_calls put_charge calls db)) = Some (cc_payload c) \<and> is_created out"
  by (rule charge_store.first_write_wins [OF assms])

definition sample_charges :: "charge_call list" where
  "sample_charges =
     [\<lparr>cc_now = 1, cc_id = 1, cc_key = ''k'', cc_payload = (''c1'', 0, ''EUR'')\<rparr>,
      \<lparr>cc_now = 2, cc_id = 2, cc_key = ''k'', cc_payload = (''c1'', 250, ''EUR'')\<rparr>,
      \<lparr>cc_now = 3, cc_id = 3, cc_key = ''k'', cc_payload = (''c2'', 250, ''EUR'')\<rparr>]"

definition sample_first_charge :: charge_row where
  "sample_first_charge =
     \<lparr>ch_id = 2, ch_idempotency_key = ''k'', ch_customer_id = ''c1'', ch_amount_cents = 250, ch_currency = ''EUR'', ch_created_at = 2\<rparr>"

lemma sample_charges_run:
  "run_calls put_charge sample_charges (empty_db :: charge_payload db) =
     ([(sample_charges ! 1, Created sample_first_charge), (sample_charges ! 2, Conflict sample_first_charge)],
      empty_db\<lparr>charges := [sample_first_charge]\<rparr>)"
  by (simp add: sample_charges_def put_charge_def insert_or_get_charge_def query_def insert_charge_row_def charge_checks_def
      result_option_def find_by_idempotency_key_def same_semantic_request_def sample_first_charge_def)

theorem first_charge_decides_witness:
  "stored_payload ''k'' (snd (run_calls put_charge sample_charges (empty_db :: charge_payload db))) = Some (''c1'', 250, ''EUR'')"
proof -
  have "stored_payload ''k'' (empty_db :: charge_payload db) = None" by (simp add: stored_payload_def charge_of_def)
  from first_charge_decides [OF this, of sample_charges] sample_charges_run show ?thesis
    by (simp add: sample_charges_def)
qed

text \<open>A charge request, on every branch: texts the table cannot hold are refused; a positive amount under a new key creates the charge, under a known key it returns the
  stored charge as a replay when customer, amount and currency are the same and as a conflict when not, an amount that is not
  positive is refused by the table; it never reports that the charge disappeared.\<close>

theorem insert_or_get_charge_cases:
  assumes "db_up db" "i \<notin> ch_id ` set (charges db)"
  shows "insert_or_get_charge now i k cust amount cur db =
    (if \<not> charge_texts_ok k cust cur then Inl (Database InvalidText)
     else if amount \<le> 0 then Inl (Database CheckViolation)
     else case charge_of k db of
       Some c \<Rightarrow> Inr (if ch_customer_id c = cust \<and> ch_amount_cents c = amount \<and> ch_currency c = cur
                      then Replayed c else Conflict c, db)
     | None \<Rightarrow>
         (let c = \<lparr>ch_id = i, ch_idempotency_key = k, ch_customer_id = cust, ch_amount_cents = amount, ch_currency = cur,
                   ch_created_at = now\<rparr>
          in Inr (Created c, db\<lparr>charges := charges db @ [c]\<rparr>)))"
proof (cases "charge_texts_ok k cust cur \<and> 0 < amount")
  case False
  then show ?thesis using assms(1) insert_or_get_refused [OF assms(1), of k cust cur]
    by (auto simp: insert_or_get_charge_def query_def insert_charge_row_def charge_checks_def charge_texts_ok_def)
next
  case True
  then have fit: "charge_texts_ok k cust cur" and pos: "0 < amount" by simp_all
  show ?thesis
  proof (cases "charge_of k db")
    case None
    from insert_or_get_new [OF fit assms(1) pos None assms(2), of now] fit pos None show ?thesis by simp
  next
    case (Some c)
    from insert_or_get_known [OF fit assms(1) pos Some, of now i] fit pos Some show ?thesis
      by (simp add: outcome_for_def same_semantic_request_def)
  qed
qed

theorem insert_or_get_charge_cases_witness:
  "insert_or_get_charge 9 4 ''k'' ''c1'' 250 ''EUR'' (empty_db\<lparr>charges := [sample_first_charge]\<rparr>)
     = Inr (Replayed sample_first_charge, empty_db\<lparr>charges := [sample_first_charge]\<rparr>)"
  using insert_or_get_charge_cases [of "empty_db\<lparr>charges := [sample_first_charge]\<rparr>" 4 9 "''k''" "''c1''" 250 "''EUR''"]
  by (simp add: sample_first_charge_def charge_of_def charge_texts_ok_def)

end
