(* ===== verification/ApiResults.thy ===== *)
theory ApiResults
  imports ApiRoutes Listing
begin

section \<open>The answers of the job API on consistent tables\<close>

text \<open>
  What each handler of \<open>src/crates/reliableq-api/src/jobs.rs\<close> answers on tables that satisfy \<open>db_inv\<close>, branch by branch, and the
  statuses a route is documented to answer with.
\<close>

subsection \<open>Submission\<close>

definition submit_budget :: "'v submit_request \<Rightarrow> int" where
  "submit_budget body = (case sr_max_attempts body of None \<Rightarrow> 5 | Some m \<Rightarrow> m)"

definition submittable :: "'v api_env \<Rightarrow> 'v submit_request \<Rightarrow> bool" where
  "submittable env body \<longleftrightarrow>
     trim (sr_kind body) \<noteq> [] \<and> length (sr_kind body) \<le> 64 \<and> 1 \<le> submit_budget body \<and> submit_budget body \<le> 20
     \<and> (\<exists>p. ae_from_value env (sr_payload body) = Inr p \<and> valid_payload p)"

text \<open>Whether the database takes the texts and the JSON of a submission: \<open>validation.rs\<close> does not look.\<close>

definition storable :: "'v api_env \<Rightarrow> 'v submit_request \<Rightarrow> bool" where
  "storable env body \<longleftrightarrow> text_ok (sr_kind body) \<and> ae_jsonb env (sr_payload body)"

definition submitted_row :: "timestamp \<Rightarrow> uuid \<Rightarrow> 'v submit_request \<Rightarrow> 'v job_row" where
  "submitted_row now i body = new_job_row now i (sr_kind body) (sr_payload body) (submit_budget body)"

lemma budget_default:
  "(case sr_max_attempts body of None \<Rightarrow> default_max_attempts | Some m \<Rightarrow> m) = submit_budget body"
  by (simp add: submit_budget_def default_max_attempts_def split: option.split)

lemma submit_job_checked:
  assumes "submittable env body"
  shows "\<exists>p. bind_res (validate_kind (sr_kind body)) (\<lambda>_. bind_res (validate_max_attempts (submit_budget body)) (\<lambda>_.
      parse_charge_payload (ae_from_value env) (sr_payload body))) = Inr p"
  using assms by (auto simp: submittable_def res_simps validate_kind_ok validate_max_attempts_ok parse_charge_payload_ok)

lemma submit_job_accepted:
  assumes "db_up db" "i \<notin> jid ` set (jobs db)" "submittable env body" "storable env body"
  shows "submit_job env now i body db =
      (Inr (202, \<lparr>sub_id = i, sub_status = Pending, sub_attempts = 0, sub_max_attempts = submit_budget body,
                  sub_created_at = now\<rparr>), db\<lparr>jobs := jobs db @ [submitted_row now i body]\<rparr>)"
proof -
  obtain p where p: "bind_res (validate_kind (sr_kind body)) (\<lambda>_. bind_res (validate_max_attempts (submit_budget body)) (\<lambda>_.
      parse_charge_payload (ae_from_value env) (sr_payload body))) = Inr p"
    using submit_job_checked [OF assms(3)] by blast
  have mx: "1 \<le> submit_budget body" using assms(3) by (simp add: submittable_def)
  have "text_ok (sr_kind body)" "ae_jsonb env (sr_payload body)" using assms(4) by (simp_all add: storable_def)
  note ins = insert_job_result [where jsonb = "ae_jsonb env", OF assms(1) mx assms(2) this, of now]
  show ?thesis
    unfolding submit_job_def Let_def budget_default
    by (simp add: p ins row_status_api_def row_status_def submitted_row_def) (simp add: new_job_row_def)
qed

lemma submit_job_unstorable:
  assumes "db_up db" "submittable env body" "\<not> storable env body"
  shows "submit_job env now i body db = (Inl (internal_error (Text ''internal error'')), db)"
proof -
  obtain p where p: "bind_res (validate_kind (sr_kind body)) (\<lambda>_. bind_res (validate_max_attempts (submit_budget body)) (\<lambda>_.
      parse_charge_payload (ae_from_value env) (sr_payload body))) = Inr p"
    using submit_job_checked [OF assms(2)] by blast
  note ins = insert_job_refused [OF assms(1), of "sr_kind body" "ae_jsonb env" "sr_payload body"]
  show ?thesis
    using assms(3) unfolding submit_job_def Let_def budget_default by (simp add: p ins storable_def error_of_repo_def)
qed

lemma submit_job_refused:
  assumes "\<not> submittable env body"
  shows "\<exists>e. submit_job env now i body db = (Inl e, db) \<and> er_status e = 400 \<and> er_code e = ''INVALID_ARGUMENT''"
proof -
  let ?checked = "bind_res (validate_kind (sr_kind body)) (\<lambda>_. bind_res (validate_max_attempts (submit_budget body)) (\<lambda>_.
      parse_charge_payload (ae_from_value env) (sr_payload body)))"
  have "?checked \<noteq> Inr p" for p
    using assms by (auto simp: submittable_def res_simps validate_kind_ok validate_max_attempts_ok parse_charge_payload_ok)
  then obtain e where "?checked = Inl e" by (cases ?checked) auto
  then have "submit_job env now i body db = (Inl (error_of_validation e), db)"
    unfolding submit_job_def Let_def budget_default by simp
  then show ?thesis by (simp add: error_of_validation_def invalid_argument_def)
qed

lemma submitted_row_checks: "submittable env body \<Longrightarrow> job_checks (submitted_row now i body)"
  unfolding submitted_row_def by (rule new_job_checks) (simp add: submittable_def)

lemma submitted_row_insert:
  assumes "db_up db" "i \<notin> jid ` set (jobs db)" "submittable env body" "storable env body"
  shows "insert_job (ae_jsonb env) now i (sr_kind body) (sr_payload body) (submit_budget body) db =
    Inr (submitted_row now i body, db\<lparr>jobs := jobs db @ [submitted_row now i body]\<rparr>)"
  using assms(3,4) insert_job_result [where jsonb = "ae_jsonb env", OF assms(1) _ assms(2)] by (simp add: submittable_def storable_def submitted_row_def)

subsection \<open>Reading one job\<close>

lemma get_job_found:
  assumes "db_up db" "find_job i db = Some r" "job_checks r"
  shows "get_job env i db =
    Inr (view r, map attempt_summary_of_row (sort_key at_number (attempts_of i db)))"
  using assms by (simp add: get_job_def get_job_by_id_def list_for_job_def query_def summary_ok)

lemma get_job_missing:
  assumes "db_up db" "find_job i db = None"
  shows "\<exists>e. get_job env i db = Inl e \<and> er_status e = 404"
  using assms by (simp add: get_job_def get_job_by_id_def query_def not_found_def)

subsection \<open>Retry\<close>

definition retry_target :: "int \<Rightarrow> int option \<Rightarrow> int option" where
  "retry_target used requested =
     (case requested of
        None \<Rightarrow> Some (used + 5)
      | Some m \<Rightarrow> if 1 \<le> m \<and> m \<le> 20 \<and> used < m then Some m else None)"

lemma retry_budget_target:
  assumes "0 \<le> used" "used \<le> 2 ^ 31 - 6"
  shows "case retry_target used requested of
      Some m \<Rightarrow> retry_budget used requested = Inr m \<and> used < m \<and> i32 m
    | None \<Rightarrow> \<exists>e. retry_budget used requested = Inl e \<and> er_status e = 400"
proof (cases requested)
  case None
  with assms show ?thesis
    by (simp add: retry_target_def retry_budget_def default_retry_budget_increment_def wrap_i32_id i32_def)
next
  case (Some m)
  show ?thesis
  proof (cases "validate_max_attempts m")
    case (Inl v)
    then have "\<not> (1 \<le> m \<and> m \<le> 20)" using validate_max_attempts_ok [of m "()"] by auto
    with Some Inl show ?thesis by (auto simp: retry_target_def retry_budget_def error_of_validation_def invalid_argument_def)
  next
    case (Inr u)
    then have "1 \<le> m \<and> m \<le> 20" by (simp add: validate_max_attempts_ok)
    with Some Inr show ?thesis by (simp add: retry_target_def retry_budget_def invalid_argument_def i32_def)
  qed
qed

lemma found_status:
  assumes "db_inv db" "db_up db" "find_job i db = Some r"
  shows "\<exists>st. get_job_by_id i db = Inr (Some r) \<and> row_status_api r = Inr st \<and> status r = as_db_str st
    \<and> r \<in> set (jobs db) \<and> jid r = i \<and> job_checks r"
proof -
  have r: "r \<in> set (jobs db)" "jid r = i" using find_job_Some [OF assms(3)] by blast+
  have checks: "job_checks r" by (rule db_inv_checks [OF assms(1) r(1)])
  then obtain st where "parse_db_str (status r) = Some st" "status r = as_db_str st"
    by (auto simp: job_checks_def status_text.dec_Some_iff)
  with r checks assms(2,3) show ?thesis
    by (simp add: get_job_by_id_def query_def row_status_ok)
qed

lemma retry_job_down: "\<not> db_up db \<Longrightarrow> retry_job env now i requested others db = (Inl (internal_error (Text ''internal error'')), db)"
  by (simp add: retry_job_def Let_def get_job_by_id_def query_def error_of_repo_def)

lemma retry_job_missing:
  assumes "db_up db" "find_job i db = None"
  shows "\<exists>e. retry_job env now i requested others db = (Inl e, db) \<and> er_status e = 404"
  using assms by (simp add: retry_job_def Let_def get_job_by_id_def query_def not_found_def)

lemma retry_job_not_dead:
  assumes "db_inv db" "db_up db" "find_job i db = Some r" "status r \<noteq> as_db_str Dead"
  shows "\<exists>e. retry_job env now i requested others db = (Inl e, db) \<and> er_status e = 409"
proof -
  obtain st where "get_job_by_id i db = Inr (Some r)" "row_status_api r = Inr st" "st \<noteq> Dead"
    using found_status [OF assms(1-3)] assms(4) by auto
  then show ?thesis by (simp add: retry_job_def Let_def invalid_state_def)
qed

lemma retry_job_dead:
  assumes "db_inv db" "db_up db" "find_job i db = Some r" "status r = as_db_str Dead" "attempts r \<le> 2 ^ 31 - 6"
  shows "case retry_target (attempts r) requested of
      None \<Rightarrow> \<exists>e. retry_job env now i requested others db = (Inl e, db) \<and> er_status e = 400
    | Some mx \<Rightarrow> attempts r < mx \<and> i32 mx
        \<and> (case retry_dead_job now i mx (others db) of
             Inl e \<Rightarrow> retry_job env now i requested others db = (Inl (error_of_repo e), others db)
           | Inr (None, db') \<Rightarrow> \<exists>e. retry_job env now i requested others db = (Inl e, db') \<and> er_status e = 409
           | Inr (Some s, db') \<Rightarrow> retry_job env now i requested others db = (summary_of_row s, db'))"
proof -
  obtain st where f: "get_job_by_id i db = Inr (Some r)" "row_status_api r = Inr st" "status r = as_db_str st" "job_checks r"
    using found_status [OF assms(1-3)] by blast
  have dead: "st = Dead" using f(3) assms(4) by (metis status_text.dec_enc option.inject)
  have "0 \<le> attempts r" using f(4) by (simp add: job_checks_def)
  note budget = retry_budget_target [OF this assms(5), of requested]
  show ?thesis
  proof (cases "retry_target (attempts r) requested")
    case None
    with budget f dead show ?thesis by (auto simp: retry_job_def Let_def)
  next
    case (Some mx)
    with budget f dead show ?thesis
      by (auto simp: retry_job_def Let_def invalid_state_def split: sum.split prod.split option.split)
  qed
qed

subsection \<open>The statuses of the routes\<close>

text \<open>What the handlers are written to answer, apart from an internal error.\<close>

fun documented :: "'v api_request \<Rightarrow> http_status set" where
  "documented (PostJob body) = {202, 400}"
| "documented (GetJobs q) = {200, 400}"
| "documented (GetJob i) = {200, 404}"
| "documented (PostRetry i requested) = {200, 400, 404, 409}"
| "documented (GetDeadJobs q) = {200, 400}"
| "documented GetLive = {200}"
| "documented GetReady = {200}"
| "documented GetMetrics = {200}"

text \<open>The submissions that pass the validation and that the database refuses.\<close>

fun unstorable :: "'v api_env \<Rightarrow> 'v api_request \<Rightarrow> bool" where
  "unstorable env (PostJob body) \<longleftrightarrow> submittable env body \<and> \<not> storable env body"
| "unstorable env req \<longleftrightarrow> False"

lemma listing_status:
  assumes "db_inv db" "db_up db"
  shows "list_jobs_with_status env st q db = Inl e \<Longrightarrow> er_status e = 400"
proof -
  have rows: "collect_res (map summary_of_row (take n (filter P (job_listing (st, db))))) \<noteq> Inl e" for n P e
  proof -
    have "set (take n (filter P (job_listing (st, db)))) \<subseteq> set (jobs db)"
      by (auto simp: job_listing_def dest!: in_set_takeD)
    then have "\<forall>r \<in> set (take n (filter P (job_listing (st, db)))). job_checks r" using db_inv_checks [OF assms(1)] by blast
    then show ?thesis by (simp add: collect_summaries)
  qed
  have cursor: "decode_cursor env c = Inl e \<Longrightarrow> er_status e = 400" for c e
    by (auto simp: decode_cursor_def Let_def res_simps invalid_argument_def split: sum.splits)
  define limit where "limit = (case lq_limit q of None \<Rightarrow> default_list_limit | Some l \<Rightarrow> l)"
  define after where "after = (case lq_cursor q of None \<Rightarrow> Inr None | Some c \<Rightarrow> bind_res (decode_cursor env c) (\<lambda>k. Inr (Some k)))"
  have after: "after = Inl e \<Longrightarrow> er_status e = 400" for e
    using cursor by (auto simp: after_def res_simps split: option.splits)
  assume err: "list_jobs_with_status env st q db = Inl e"
  show "er_status e = 400"
  proof (cases "1 \<le> limit \<and> limit \<le> max_list_limit")
    case True
    then have "list_jobs st limit k db
        = Inr (take (nat limit) (filter (\<lambda>r. case k of None \<Rightarrow> True | Some c \<Rightarrow> c < cursor_key r) (job_listing (st, db))))" for k
      by (intro list_jobs_result [OF assms(2)]) simp
    with True err rows have "after = Inl e"
      unfolding list_jobs_with_status_def Let_def limit_def [symmetric] after_def [symmetric]
      by (auto simp: res_simps)
    then show ?thesis by (rule after)
  next
    case False
    with err show ?thesis
      unfolding list_jobs_with_status_def Let_def limit_def [symmetric] by (auto simp: invalid_argument_def)
  qed
qed

lemma listing_answer_typed:
  assumes "db_inv db" "db_up db"
  shows "list_jobs_handler env q db = Inl e \<Longrightarrow> er_status e = 400"
    "list_dead_jobs env q db = Inl e \<Longrightarrow> er_status e = 400"
  using listing_status [OF assms]
  by (auto simp: list_jobs_handler_def list_dead_jobs_def res_simps invalid_argument_def split: option.splits sum.splits)

lemma retry_answer_typed:
  assumes "db_inv db" "db_up db" "\<And>r. r \<in> set (jobs db) \<Longrightarrow> attempts r \<le> 2 ^ 31 - 6"
  shows "case retry_job env now i requested (\<lambda>d. d) db of
      (Inl e, db') \<Rightarrow> er_status e \<in> {400, 404, 409} \<and> db' = db
    | (Inr js, db') \<Rightarrow> db_inv db'"
proof (cases "find_job i db")
  case None
  from retry_job_missing [OF assms(2) None, of env now requested "\<lambda>d. d"] show ?thesis by auto
next
  case (Some r)
  then have r: "r \<in> set (jobs db)" "jid r = i" using find_job_Some by blast+
  show ?thesis
  proof (cases "status r = as_db_str Dead")
    case False
    from retry_job_not_dead [OF assms(1,2) Some False, of env now requested "\<lambda>d. d"] show ?thesis by auto
  next
    case True
    note dead = retry_job_dead [OF assms(1,2) Some True assms(3) [OF r(1)], where requested = requested and env = env and now = now and others = "\<lambda>d. d"]
    show ?thesis
    proof (cases "retry_target (attempts r) requested")
      case (Some mx)
      have "0 \<le> attempts r" using db_inv_checks [OF assms(1) r(1)] by (simp add: job_checks_def)
      then have res: "retry_dead_job now i mx db = Inr (Some (revive_row now mx r),
          db\<lparr>jobs := map (\<lambda>s. if jid s = i then revive_row now mx s else s) (jobs db)\<rparr>)"
        using retry_dead_job_exact [OF assms(1,2), of now i mx] \<open>find_job i db = Some r\<close> True dead Some by simp
      have "i32 mx" "job_checks (revive_row now mx r)"
        using dead Some \<open>0 \<le> attempts r\<close> by (simp_all add: revive_row_checks)
      with retry_dead_job_preserves [OF assms(1) _ res] dead Some res show ?thesis by (simp add: summary_ok)
    qed (use dead in auto)
  qed
qed

subsection \<open>Which requests write\<close>

lemma api_app_writes:
  assumes "db_inv db" "api_app env rendered now i (\<lambda>d. d) req db = (reply, db')"
  shows "db' = db \<or> (\<exists>b a. req = PostJob b \<and> reply = SubmitReply 202 a) \<or> (\<exists>j m a. req = PostRetry j m \<and> reply = SummaryReply a)"
proof (cases req)
  case (PostJob b)
  obtain r where r: "submit_job env now i b db = (r, db')" "reply = answer r (\<lambda>(code, resp). SubmitReply code resp)"
    using assms(2) PostJob by (auto split: prod.splits)
  show ?thesis
  proof (cases r)
    case (Inl e)
    with r submit_job_error show ?thesis by blast
  next
    case (Inr x)
    then have "fst x = 202" using r(1) by (auto simp: submit_job_def Let_def res_simps split: sum.splits prod.splits)
    with PostJob Inr r(2) show ?thesis by (simp add: answer_def case_prod_beta)
  qed
next
  case (PostRetry j m)
  obtain r where r: "retry_job env now j m (\<lambda>d. d) db = (r, db')" "reply = answer r SummaryReply"
    using assms(2) PostRetry by (auto split: prod.splits)
  with retry_job_error [of "\<lambda>d. d" db] assms(1) PostRetry show ?thesis by (cases r) (auto simp: answer_def)
qed (use assms(2) in auto)

end
