(* ===== verification/Startup.thy ===== *)
theory Startup
  imports Config FakeCharge ApiRoutes Poll
begin

section \<open>The entry points of the services\<close>

text \<open>
  The \<open>main\<close> functions of \<open>fake-charge\<close>, \<open>reliableq-api\<close> and \<open>reliableq-worker\<close> (\<open>src/crates/*/src/main.rs\<close>) with \<open>create_pool\<close> and
  \<open>run_migrations\<close> of \<open>src/crates/reliableq-db/src/lib.rs\<close>: what a process reads from its environment, in which order, where it
  gives up, and the service it runs then. What the process asks of the outside is the record \<open>platform\<close>: parsing an address,
  connecting the pool, migrating, binding a listener, building an HTTP client. Logging and signals are left out.
\<close>

record ('addr, 'v) platform =
  pf_parse_addr :: "string \<Rightarrow> 'addr option"
  pf_connect :: "string \<Rightarrow> nat \<Rightarrow> duration \<Rightarrow> string + 'v db"
  pf_migrate :: "'v db \<Rightarrow> string + 'v db"
  pf_bind :: "'addr \<Rightarrow> string + unit"
  pf_client :: "duration \<Rightarrow> duration \<Rightarrow> string + unit"

text \<open>A process ends before it serves: with a setting it cannot use, or with an error of the outside.\<close>

datatype startup_error =
    BadSetting config_error
  | StartFailed string

definition create_pool :: "('addr, 'v) platform \<Rightarrow> database_config \<Rightarrow> string + 'v db" where
  "create_pool pf c = pf_connect pf (url c) (max_connections c) (connect_timeout c)"

definition run_migrations :: "('addr, 'v) platform \<Rightarrow> 'v db \<Rightarrow> string + 'v db" where
  "run_migrations pf db = pf_migrate pf db"

definition or_exit :: "config_error + 'a \<Rightarrow> startup_error + 'a" where
  "or_exit r = map_err BadSetting r"

definition or_fail :: "string + 'a \<Rightarrow> startup_error + 'a" where
  "or_fail r = map_err StartFailed r"

subsection \<open>fake-charge\<close>

definition test_control_enabled :: "env \<Rightarrow> bool" where
  "test_control_enabled env =
     (case var_ok (env ''FAKE_CHARGE_ENABLE_TEST_CONTROL'') of
        Some v \<Rightarrow> v = ''true'' \<or> v = ''1''
      | None \<Rightarrow> False)"

record ('addr, 'v, 'r) charge_server =
  csv_log :: log_format
  csv_db :: "'v db"
  csv_chaos :: "'r chaos_state"
  csv_http :: "'addr http_config"
  csv_control :: bool

definition charge_main ::
    "('addr, 'v) platform \<Rightarrow> 'r \<Rightarrow> env \<Rightarrow> startup_error + ('addr, 'v, 'r) charge_server" where
  "charge_main pf entropy env =
     bind_res (or_exit (log_format_from_env env)) (\<lambda>log.
     bind_res (or_exit (database_from_env env)) (\<lambda>db_config.
     bind_res (or_exit (http_from_env (pf_parse_addr pf) env ''FAKE_CHARGE'' ''0.0.0.0:8081'')) (\<lambda>http.
     bind_res (or_fail (create_pool pf db_config)) (\<lambda>db0.
     bind_res (or_fail (run_migrations pf db0)) (\<lambda>db.
     bind_res (or_fail (pf_bind pf (bind_addr http))) (\<lambda>_.
     Inr \<lparr>csv_log = log, csv_db = db, csv_chaos = default_chaos entropy, csv_http = http,
          csv_control = test_control_enabled env\<rparr>))))))"

text \<open>The process serving requests, from the state it starts with.\<close>

definition run_charge_server ::
    "('h, 'v, 'r) charge_env \<Rightarrow> (nat \<Rightarrow> 'r) \<Rightarrow> ('addr, 'v, 'r) charge_server
     \<Rightarrow> (timestamp \<times> uuid \<times> ('h, 'v) charge_request) list \<Rightarrow> charge_reply list \<times> 'r chaos_state \<times> 'v db" where
  "run_charge_server env seed sv reqs = serve_charges env seed (csv_control sv) reqs (csv_chaos sv, csv_db sv)"

subsection \<open>reliableq-api\<close>

record ('addr, 'v) api_server =
  asv_log :: log_format
  asv_db :: "'v db"
  asv_http :: "'addr http_config"

definition api_main :: "('addr, 'v) platform \<Rightarrow> env \<Rightarrow> startup_error + ('addr, 'v) api_server" where
  "api_main pf env =
     bind_res (or_exit (log_format_from_env env)) (\<lambda>log.
     bind_res (or_exit (database_from_env env)) (\<lambda>db_config.
     bind_res (or_exit (http_from_env (pf_parse_addr pf) env ''API'' ''0.0.0.0:8080'')) (\<lambda>http.
     bind_res (or_fail (create_pool pf db_config)) (\<lambda>db0.
     bind_res (or_fail (run_migrations pf db0)) (\<lambda>db.
     bind_res (or_fail (pf_bind pf (bind_addr http))) (\<lambda>_.
     Inr \<lparr>asv_log = log, asv_db = db, asv_http = http\<rparr>))))))"

subsection \<open>reliableq-worker\<close>

text \<open>
  The metrics listener is bound by a task of its own, whose failure does not end the process. \<open>worker_poll\<close> is the
  state in which \<open>run_worker_loop\<close> enters its loop.
\<close>

record ('addr, 'v) worker_process =
  wp_log :: log_format
  wp_db :: "'v db"
  wp_worker_id :: string
  wp_config :: "'addr worker_config"

definition worker_main ::
    "('addr, 'v) platform \<Rightarrow> (uuid \<Rightarrow> string) \<Rightarrow> uuid \<Rightarrow> env \<Rightarrow> startup_error + ('addr, 'v) worker_process" where
  "worker_main pf show_uuid new_id env =
     bind_res (or_exit (log_format_from_env env)) (\<lambda>log.
     bind_res (or_exit (database_from_env env)) (\<lambda>db_config.
     bind_res (or_exit (worker_from_env (pf_parse_addr pf) env)) (\<lambda>c.
     bind_res (or_fail (create_pool pf db_config)) (\<lambda>db0.
     bind_res (or_fail (run_migrations pf db0)) (\<lambda>db.
     bind_res (or_fail (pf_client pf (charge_request_timeout c) (charge_request_timeout c))) (\<lambda>_.
     Inr \<lparr>wp_log = log, wp_db = db, wp_worker_id = ''worker-'' @ show_uuid new_id, wp_config = c\<rparr>))))))"

definition worker_poll :: "('addr, 'v) worker_process \<Rightarrow> poll_state" where
  "worker_poll p = poll_init (concurrency (wp_config p))"

subsection \<open>What a process that starts has read\<close>

lemma or_exit_Inr [res_simps]: "or_exit r = Inr x \<longleftrightarrow> r = Inr x"
  by (cases r) (simp_all add: or_exit_def)

lemma or_fail_Inr [res_simps]: "or_fail r = Inr x \<longleftrightarrow> r = Inr x"
  by (cases r) (simp_all add: or_fail_def)

lemma or_exit_Inl [res_simps]: "or_exit r = Inl e \<longleftrightarrow> (\<exists>c. r = Inl c \<and> e = BadSetting c)"
  by (cases r) (auto simp: or_exit_def)

lemma or_fail_Inl [res_simps]: "or_fail r = Inl e \<longleftrightarrow> (\<exists>t. r = Inl t \<and> e = StartFailed t)"
  by (cases r) (auto simp: or_fail_def)

lemma charge_main_Inr:
  assumes "charge_main pf entropy env = Inr sv"
  shows "csv_chaos sv = default_chaos entropy" "csv_control sv = test_control_enabled env"
    "http_from_env (pf_parse_addr pf) env ''FAKE_CHARGE'' ''0.0.0.0:8081'' = Inr (csv_http sv)"
    "log_format_from_env env = Inr (csv_log sv)"
  using assms by (auto simp: charge_main_def res_simps)

lemma http_from_env_addr:
  assumes "http_from_env parse_addr env prefix d = Inr c" "env (prefix @ ''_BIND_ADDR'') = Present raw"
  shows "parse_addr raw = Some (bind_addr c)"
proof -
  from assms obtain addr where "parse_addr raw = Some addr" "bind_addr c = addr"
    by (auto simp: http_from_env_def Let_def res_simps)
  then show ?thesis by simp
qed

lemma worker_main_Inr:
  assumes "worker_main pf show_uuid i env = Inr p"
  shows "worker_from_env (pf_parse_addr pf) env = Inr (wp_config p)"
    "wp_worker_id p = ''worker-'' @ show_uuid i" "log_format_from_env env = Inr (wp_log p)"
  using assms by (auto simp: worker_main_def res_simps)

text \<open>A bad setting ends a process before it touches the database: the error is the same whatever the outside does.\<close>

lemma charge_main_setting:
  "charge_main pf entropy env = Inl (BadSetting e) \<Longrightarrow> pf_parse_addr pf' = pf_parse_addr pf \<Longrightarrow>
   charge_main pf' entropy' env = Inl (BadSetting e)"
  by (auto simp: charge_main_def res_simps)

end
