(* ===== verification/Layers.thy ===== *)
theory Layers
  imports ApiResults Startup
begin

section \<open>The layers around the routes, and what runs beside them\<close>

text \<open>
  \<open>build_app\<close> of \<open>src/crates/reliableq-api/src/lib.rs\<close> and of \<open>src/crates/fake-charge/src/lib.rs\<close> puts the same layers around its routes: the
  correlation id outermost, then the timeout, then the limit on bodies, which acts where the extractors of axum read a body. Here are the
  whole services: a request as it comes in, the answer with its headers, and what it leaves in the tables. Beside the routes run the
  gauge refresher of the API (\<open>metrics.rs\<close>) and the metrics listener of the worker (\<open>metrics_server.rs\<close>); the last part is the migration
  command (\<open>src/crates/reliableq-db/src/bin/migrate.rs\<close>).
\<close>

subsection \<open>A request and its way through the layers\<close>

text \<open>
  \<open>hl_extract\<close> is the extraction of axum under a limit on the body: the arguments of a handler, or the status of a rejection (no route, a
  malformed path, a body that is too long or does not decode). \<open>in_took\<close> is how long that and the handler need; what is dropped at the
  timeout has come as far as \<open>in_progress\<close>. \<open>in_fresh\<close> is the id drawn for a request without one.
\<close>

datatype progress =
    Unreached
  | Uncommitted
  | Committed

record ('h, 'raw, 'req) http_lib =
  hl_to_str :: "'h \<Rightarrow> string option"
  hl_from_str :: "string \<Rightarrow> 'h option"
  hl_extract :: "nat \<Rightarrow> 'raw \<Rightarrow> http_status + 'req"

record ('h, 'raw) incoming =
  in_headers :: "'h headers"
  in_raw :: 'raw
  in_fresh :: string
  in_took :: duration
  in_progress :: progress

text \<open>\<open>TimeoutLayer\<close> under \<open>HandleErrorLayer\<close>: the handler first, then the clock.\<close>

definition timed :: "duration \<Rightarrow> duration \<Rightarrow> ('s \<Rightarrow> 's) \<Rightarrow> 'r \<Rightarrow> 'r \<times> 's \<Rightarrow> 'r \<times> 's" where
  "timed timeout took abandoned expired outcome =
     (if took \<le> timeout then outcome else (expired, abandoned (snd outcome)))"

subsection \<open>reliableq-api\<close>

datatype 'v api_response =
    Answered "'v api_reply"
  | Refused http_status error_body
  | Rejected http_status

fun response_status :: "'v api_response \<Rightarrow> http_status" where
  "response_status (Answered reply) = reply_status reply"
| "response_status (Refused code body) = code"
| "response_status (Rejected code) = code"

definition api_response_of :: "string \<Rightarrow> http_status + 'v api_reply \<Rightarrow> 'v api_response" where
  "api_response_of rid r =
     (case r of
        Inl code \<Rightarrow> Rejected code
      | Inr (RefusalReply e) \<Rightarrow> (case error_response rid e of (code, body) \<Rightarrow> Refused code body)
      | Inr reply \<Rightarrow> Answered reply)"

definition api_routed ::
    "('h, 'raw, 'v api_request) http_lib \<Rightarrow> nat \<Rightarrow> 'v api_env \<Rightarrow> string \<Rightarrow> timestamp \<Rightarrow> uuid \<Rightarrow> ('v db \<Rightarrow> 'v db) \<Rightarrow> 'raw \<Rightarrow> 'v db
     \<Rightarrow> (http_status + 'v api_reply) \<times> 'v db" where
  "api_routed lib max_body env rendered now new_id others raw db =
     (case hl_extract lib max_body raw of
        Inl code \<Rightarrow> (Inl code, db)
      | Inr req \<Rightarrow> (case api_app env rendered now new_id others req db of (reply, db') \<Rightarrow> (Inr reply, db')))"

definition api_service ::
    "('h, 'raw, 'v api_request) http_lib \<Rightarrow> 'addr http_config \<Rightarrow> 'v api_env \<Rightarrow> string \<Rightarrow> timestamp \<Rightarrow> uuid \<Rightarrow> ('v db \<Rightarrow> 'v db)
     \<Rightarrow> ('h, 'raw) incoming \<Rightarrow> 'v db \<Rightarrow> 'h headers \<times> 'v api_response \<times> 'v db" where
  "api_service lib c env rendered now new_id others inc db =
     correlate (hl_to_str lib) (hl_from_str lib) (in_fresh inc)
       (\<lambda>rid hs.
          case timed (request_timeout c) (in_took inc) (\<lambda>db'. if in_progress inc = Committed then db' else db)
                 (Inr (RefusalReply (timeout_error True '''')))
                 (api_routed lib (max_body_bytes c) env rendered now new_id others (in_raw inc) db) of
            (r, db') \<Rightarrow> (Map.empty, api_response_of rid r, db'))
       (in_headers inc)"

text \<open>The process serving requests, from the state it starts with; others work on the tables between a read and a write of a retry.\<close>

fun run_api_server ::
    "('h, 'raw, 'v api_request) http_lib \<Rightarrow> 'v api_env \<Rightarrow> 'addr http_config
     \<Rightarrow> (string \<times> timestamp \<times> uuid \<times> ('v db \<Rightarrow> 'v db) \<times> ('h, 'raw) incoming) list \<Rightarrow> 'v db
     \<Rightarrow> ('h headers \<times> 'v api_response) list \<times> 'v db" where
  "run_api_server lib env c [] db = ([], db)"
| "run_api_server lib env c ((rendered, now, new_id, others, inc) # reqs) db =
     (case api_service lib c env rendered now new_id others inc db of
        (hs, resp, db') \<Rightarrow> (case run_api_server lib env c reqs db' of (rs, db'') \<Rightarrow> ((hs, resp) # rs, db'')))"

definition serve_api ::
    "('h, 'raw, 'v api_request) http_lib \<Rightarrow> 'v api_env \<Rightarrow> ('addr, 'v) api_server
     \<Rightarrow> (string \<times> timestamp \<times> uuid \<times> ('v db \<Rightarrow> 'v db) \<times> ('h, 'raw) incoming) list
     \<Rightarrow> ('h headers \<times> 'v api_response) list \<times> 'v db" where
  "serve_api lib env sv reqs = run_api_server lib env (asv_http sv) reqs (asv_db sv)"

subsection \<open>fake-charge\<close>

text \<open>
  A charge that is dropped before it commits has taken and given up its place in flight; its injection decision is made, and is none when
  it is dropped in the wait of an injected delay.
\<close>

fun charge_abandoned :: "progress \<Rightarrow> 's \<times> 'v db \<Rightarrow> 's \<times> 'v db \<Rightarrow> 's \<times> 'v db" where
  "charge_abandoned Unreached s s' = s"
| "charge_abandoned Uncommitted s s' = (fst s', snd s)"
| "charge_abandoned Committed s s' = s'"

datatype charge_answer =
    ChargeAnswered charge_reply
  | ChargeRefused http_status charge_error_body
  | ChargeRejected http_status

definition charge_answer_of :: "string \<Rightarrow> http_status + charge_reply \<Rightarrow> charge_answer" where
  "charge_answer_of rid r =
     (case r of
        Inl code \<Rightarrow> ChargeRejected code
      | Inr (ErrorReply e) \<Rightarrow> (case charge_error_response rid e of (code, body) \<Rightarrow> ChargeRefused code body)
      | Inr reply \<Rightarrow> ChargeAnswered reply)"

definition charge_routed ::
    "('h, 'raw, ('h, 'v) charge_request) http_lib \<Rightarrow> nat \<Rightarrow> ('h, 'v, 'r) charge_env \<Rightarrow> (nat \<Rightarrow> 'r) \<Rightarrow> bool \<Rightarrow> timestamp \<Rightarrow> uuid
     \<Rightarrow> 'raw \<Rightarrow> 'r chaos_state \<times> 'v db \<Rightarrow> (http_status + charge_reply) \<times> 'r chaos_state \<times> 'v db" where
  "charge_routed lib max_body env seed control now new_id raw s =
     (case hl_extract lib max_body raw of
        Inl code \<Rightarrow> (Inl code, s)
      | Inr req \<Rightarrow> (case charge_app env seed control now new_id req s of (reply, s') \<Rightarrow> (Inr reply, s')))"

definition charge_layers ::
    "('h, 'raw, ('h, 'v) charge_request) http_lib \<Rightarrow> 'addr http_config \<Rightarrow> ('h, 'v, 'r) charge_env \<Rightarrow> (nat \<Rightarrow> 'r) \<Rightarrow> bool
     \<Rightarrow> timestamp \<Rightarrow> uuid \<Rightarrow> ('h, 'raw) incoming \<Rightarrow> 'r chaos_state \<times> 'v db
     \<Rightarrow> 'h headers \<times> charge_answer \<times> 'r chaos_state \<times> 'v db" where
  "charge_layers lib c env seed control now new_id inc s =
     charge_middleware (hl_to_str lib) (hl_from_str lib) (in_fresh inc)
       (\<lambda>rid hs.
          case timed (request_timeout c) (in_took inc) (charge_abandoned (in_progress inc) s)
                 (Inr (ErrorReply (charge_timeout_error True '''')))
                 (charge_routed lib (max_body_bytes c) env seed control now new_id (in_raw inc) s) of
            (r, s') \<Rightarrow> (Map.empty, charge_answer_of rid r, s'))
       (in_headers inc)"

subsection \<open>The gauges of the API\<close>

record gauges =
  ga_depth :: "string \<Rightarrow> nat option"
  ga_oldest :: "rat option"

definition set_gauges :: "gauges \<Rightarrow> (repo_error + unit) \<times> (string \<times> nat) list \<times> rat option \<Rightarrow> gauges" where
  "set_gauges g refreshed =
     (case refreshed of (res, depths, oldest) \<Rightarrow>
        \<lparr>ga_depth = fold (\<lambda>(k, n) m. m(k \<mapsto> n)) depths (ga_depth g),
         ga_oldest = (case oldest of None \<Rightarrow> ga_oldest g | Some a \<Rightarrow> Some a)\<rparr>)"

definition refresh_interval :: duration where
  "refresh_interval = from_secs 5"

text \<open>The loop until the process aborts it: how long each refresh takes is given, and the tables as they are when it comes.\<close>

fun run_gauge_refresher :: "(timestamp \<Rightarrow> 'v db) \<Rightarrow> duration list \<Rightarrow> timestamp \<Rightarrow> gauges \<Rightarrow> gauges" where
  "run_gauge_refresher world [] now g = g"
| "run_gauge_refresher world (took # later) now g =
     run_gauge_refresher world later (now + interval_us (as_secs_f64 (took + refresh_interval)))
       (set_gauges g (refresh_once now (world now)))"

subsection \<open>The recorder and the metrics listener of the worker\<close>

text \<open>\<open>recorder_handle\<close>: a process installs one recorder; \<open>None\<close> is the panic of an installation that fails.\<close>

definition recorder_handle :: "(unit \<Rightarrow> string + 'rec) \<Rightarrow> 'rec option \<Rightarrow> ('rec \<times> 'rec option) option" where
  "recorder_handle install cell =
     (case cell of
        Some h \<Rightarrow> Some (h, cell)
      | None \<Rightarrow> (case install () of Inl e \<Rightarrow> None | Inr h \<Rightarrow> Some (h, Some h)))"

definition metrics_content_type :: string where
  "metrics_content_type = ''text/plain; version=0.0.4''"

definition metrics_app :: "string \<Rightarrow> string \<Rightarrow> http_status \<times> (string \<times> string) list \<times> string" where
  "metrics_app rendered path =
     (if path = ''/metrics'' then (200, [(''content-type'', metrics_content_type)], rendered) else (404, [], ''''))"

definition serve_metrics ::
    "('addr, 'v) platform \<Rightarrow> 'addr \<Rightarrow> (string \<times> string) list \<Rightarrow> string + (http_status \<times> (string \<times> string) list \<times> string) list" where
  "serve_metrics pf addr gets =
     bind_res (pf_bind pf addr) (\<lambda>_. Inr (map (\<lambda>(path, rendered). metrics_app rendered path) gets))"

subsection \<open>The migration command\<close>

definition migrate_main :: "('addr, 'v) platform \<Rightarrow> env \<Rightarrow> startup_error + 'v db" where
  "migrate_main pf env =
     bind_res (or_exit (database_from_env env)) (\<lambda>c.
     bind_res (or_fail (create_pool pf c)) (\<lambda>db.
     or_fail (run_migrations pf db)))"

subsection \<open>What comes back, and what is left\<close>

lemma correlate_headers:
  "correlate tos froms fresh next hs = (resp_hs, body) \<Longrightarrow> froms (request_id tos hs fresh) = Some v \<Longrightarrow>
   resp_hs ''x-request-id'' = Some v"
  by (auto simp: correlate_def Let_def split: prod.splits)

lemma api_service_cases:
  assumes "api_service lib c env rendered now i others inc db = (hs, resp, db')"
  obtains r db1 where "api_routed lib (max_body_bytes c) env rendered now i others (in_raw inc) db = (r, db1)"
    "in_took inc \<le> request_timeout c" "resp = api_response_of (request_id (hl_to_str lib) (in_headers inc) (in_fresh inc)) r" "db' = db1"
  | r db1 where "api_routed lib (max_body_bytes c) env rendered now i others (in_raw inc) db = (r, db1)"
    "request_timeout c < in_took inc" "db' = (if in_progress inc = Committed then db1 else db)"
    "resp = Refused 408 \<lparr>eb_code = ''TIMEOUT'', eb_message = Text ''request timed out'',
       eb_request_id = request_id (hl_to_str lib) (in_headers inc) (in_fresh inc)\<rparr>"
proof -
  obtain r db1 where routed: "api_routed lib (max_body_bytes c) env rendered now i others (in_raw inc) db = (r, db1)"
    by (cases "api_routed lib (max_body_bytes c) env rendered now i others (in_raw inc) db")
  show thesis
    using assms that routed
    by (cases "in_took inc \<le> request_timeout c")
      (auto simp: api_service_def correlate_def Let_def timed_def api_response_of_def timeout_error_def error_response_def)
qed

lemma response_id: "api_response_of rid r = Refused code body \<Longrightarrow> eb_request_id body = rid"
  by (auto simp: api_response_of_def error_response_def split: sum.splits api_reply.splits)

lemma response_of_reply: "response_status (api_response_of rid (Inr reply)) = reply_status reply"
  by (cases reply) (simp_all add: api_response_of_def error_response_def)

lemma api_app_reads: "(\<forall>b. req \<noteq> PostJob b) \<Longrightarrow> (\<forall>j m. req \<noteq> PostRetry j m) \<Longrightarrow> snd (api_app env rendered now i others req db) = db"
  by (cases req) simp_all

lemma routed_passes:
  assumes "api_routed lib n env rendered now i others raw db = (r, db1)"
  shows "db1 = db \<or> (\<exists>req. hl_extract lib n raw = Inr req \<and> ((\<exists>b. req = PostJob b) \<or> (\<exists>j m. req = PostRetry j m))
    \<and> db1 = snd (api_app env rendered now i others req db))"
proof (cases "hl_extract lib n raw")
  case (Inr req)
  then have "db1 = snd (api_app env rendered now i others req db)"
    using assms by (auto simp: api_routed_def split: prod.splits)
  with api_app_reads [of req env rendered now i others db] Inr show ?thesis by metis
qed (use assms in \<open>simp add: api_routed_def\<close>)

lemma routed_writes:
  assumes "db_inv db" "api_routed lib n env rendered now i (\<lambda>d. d) raw db = (r, db1)"
  shows "db1 = db \<or> (\<exists>b a. hl_extract lib n raw = Inr (PostJob b) \<and> r = Inr (SubmitReply 202 a))
    \<or> (\<exists>j m a. hl_extract lib n raw = Inr (PostRetry j m) \<and> r = Inr (SummaryReply a))"
proof (cases "hl_extract lib n raw")
  case (Inr req)
  obtain reply where app: "api_app env rendered now i (\<lambda>d. d) req db = (reply, db1)" "r = Inr reply"
    using assms(2) Inr by (auto simp: api_routed_def split: prod.splits)
  with api_app_writes [OF assms(1) app(1)] Inr show ?thesis by auto
qed (use assms(2) in \<open>simp add: api_routed_def\<close>)

text \<open>A request that the layers let pass in time is answered by its handler.\<close>

lemma api_service_in_time:
  assumes "hl_extract lib (max_body_bytes c) (in_raw inc) = Inr req" "in_took inc \<le> request_timeout c"
  shows "snd (api_service lib c env rendered now i others inc db)
    = (case api_app env rendered now i others req db of
         (reply, db') \<Rightarrow> (api_response_of (request_id (hl_to_str lib) (in_headers inc) (in_fresh inc)) (Inr reply), db'))"
  using assms by (simp add: api_service_def correlate_def Let_def timed_def api_routed_def case_prod_beta)

lemma charge_layers_in_time:
  assumes "hl_extract lib (max_body_bytes c) (in_raw inc) = Inr req" "in_took inc \<le> request_timeout c"
  shows "snd (charge_layers lib c env seed control now i inc s)
    = (case charge_app env seed control now i req s of
         (reply, s') \<Rightarrow> (charge_answer_of (charge_request_id (hl_to_str lib) (in_headers inc) (in_fresh inc)) (Inr reply), s'))"
  using assms by (simp add: charge_layers_def charge_middleware_def Let_def timed_def charge_routed_def case_prod_beta)

subsection \<open>What the gauges show\<close>

lemma refresh_depths_up:
  "db_up db \<Longrightarrow> refresh_depths db ss = (Inr (), map (\<lambda>s. (as_db_str s, length (filter (\<lambda>r. status r = as_db_str s) (jobs db)))) ss)"
  by (induction ss) (simp_all add: query_def)

lemma set_gauges_up:
  assumes "db_up db"
  shows "ga_depth (set_gauges g (refresh_once now db)) (as_db_str s) = Some (length (filter (\<lambda>r. status r = as_db_str s) (jobs db)))"
  using assms by (cases s) (simp_all add: set_gauges_def refresh_once_def refresh_depths_up query_def)

text \<open>While the database cannot be reached the gauges stay as they are, and the first refresh after it shows the tables again.\<close>

lemma set_gauges_down: "\<not> db_up db \<Longrightarrow> set_gauges g (refresh_once now db) = g"
  by (simp add: set_gauges_def refresh_once_def query_def)

lemma gauges_survive_outage: "(\<And>t. \<not> db_up (world t)) \<Longrightarrow> run_gauge_refresher world tooks now g = g"
  by (induction tooks arbitrary: now) (simp_all add: set_gauges_down)

lemma gauges_after_refreshes:
  assumes "\<And>t. db_up (world t)" "tooks \<noteq> []"
  shows "\<exists>t \<ge> now. ga_depth (run_gauge_refresher world tooks now g) (as_db_str s)
    = Some (length (filter (\<lambda>r. status r = as_db_str s) (jobs (world t))))"
  using assms(2)
proof (induction tooks arbitrary: now g)
  case (Cons took later)
  let ?next = "now + interval_us (as_secs_f64 (took + refresh_interval))"
  show ?case
  proof (cases "later = []")
    case True
    then show ?thesis using set_gauges_up [OF assms(1)] by auto
  next
    case False
    have "round (0::rat) \<le> round (as_secs_f64 (took + refresh_interval) * 10 ^ 6)"
      by (rule round_mono) (simp add: as_secs_f64_def)
    then have "now \<le> ?next" by (simp add: interval_us_def)
    moreover from Cons.IH [OF False, of ?next "set_gauges g (refresh_once now (world now))"] obtain t where "?next \<le> t"
      "ga_depth (run_gauge_refresher world (took # later) now g) (as_db_str s)
        = Some (length (filter (\<lambda>r. status r = as_db_str s) (jobs (world t))))" by auto
    ultimately show ?thesis by (meson order_trans)
  qed
qed simp

text \<open>The recorder is installed once: every later call gets the same handle, whatever an installation would give.\<close>

lemma recorder_once: "recorder_handle install cell = Some (h, cell') \<Longrightarrow> recorder_handle install' cell' = Some (h, cell')"
  by (auto simp: recorder_handle_def split: option.splits sum.splits)

lemma migrate_main_Inr: "migrate_main pf env = Inr db \<Longrightarrow> \<exists>c. database_from_env env = Inr c"
  by (auto simp: migrate_main_def res_simps)

end
