(* ===== verification/ServiceProps.thy ===== *)
theory ServiceProps
  imports Samples Layers
begin

section \<open>Properties of the services\<close>

text \<open>
  What the HTTP service, the charge service, the worker and its poll loop promise, over the definitions of \<open>Api\<close>,
  \<open>FakeCharge\<close>, \<open>Worker\<close> and \<open>Poll\<close>.
\<close>

subsection \<open>The HTTP service\<close>

definition answer_status :: "api_error + 'a \<Rightarrow> http_status" where
  "answer_status r = (case r of Inl e \<Rightarrow> er_status e | Inr x \<Rightarrow> 200)"

text \<open>C20. A submission whose kind, attempt budget (five unless given) and payload are valid, and which the database can hold, is answered
  202, and a new pending job with that payload and budget is stored, which can be read back at once with no attempts. One that is not
  valid is answered 400. One that is valid but has a character the database cannot hold is answered 500: the validation does not look
  for it. In both cases nothing is stored.\<close>

theorem submit_job_cases:
  assumes "db_inv db" "db_up db" "i \<notin> jid ` set (jobs db)"
  shows "if submittable env body then
    if text_ok (sr_kind body) \<and> ae_jsonb env (sr_payload body)
    then \<exists>resp db'. submit_job env now i body db = (Inr (202, resp), db')
      \<and> jobs db' = jobs db @ [new_job_row now i (sr_kind body) (sr_payload body) (submit_budget body)]
      \<and> sub_id resp = i \<and> sub_status resp = Pending \<and> sub_max_attempts resp = submit_budget body
      \<and> get_job env i db' = Inr (view (new_job_row now i (sr_kind body) (sr_payload body) (submit_budget body)), [])
    else \<exists>e. submit_job env now i body db = (Inl e, db) \<and> er_status e = 500 \<and> er_code e = ''INTERNAL''
    else \<exists>e. submit_job env now i body db = (Inl e, db) \<and> er_status e = 400 \<and> er_code e = ''INVALID_ARGUMENT''"
proof (cases "submittable env body \<and> storable env body")
  case both: True
  then have True: "submittable env body" and fits: "storable env body" by simp_all
  let ?db' = "db\<lparr>jobs := jobs db @ [submitted_row now i body]\<rparr>"
  have "find_job i ?db' = Some (submitted_row now i body)"
    using assms(3) by (simp add: find_job_snoc submitted_row_def new_job_row_jid find_job_None [symmetric])
  moreover have "attempts_of i ?db' = []" using attempts_of_unknown [OF assms(1,3)] by simp
  ultimately have "get_job env i ?db' = Inr (view (submitted_row now i body), [])"
    using get_job_found [of ?db' i "submitted_row now i body" env] submitted_row_checks [OF True] assms(2) by simp
  with both submit_job_accepted [OF assms(2,3) True fits, of now] show ?thesis
    by (auto simp: submitted_row_def storable_def)
next
  case False
  with submit_job_refused [of env body now i db] submit_job_unstorable [OF assms(2), of env body now i] show ?thesis
    by (auto simp: storable_def internal_error_def)
qed

theorem submit_job_cases_witness:
  "\<exists>resp db'. submit_job sample_api 300 8 \<lparr>sr_kind = ''charge'', sr_payload = sample_payload, sr_max_attempts = None\<rparr>
     sample_running_db = (Inr (202, resp), db') \<and> sub_max_attempts resp = 5"
proof -
  let ?body = "\<lparr>sr_kind = ''charge'', sr_payload = sample_payload, sr_max_attempts = None\<rparr>"
  have "trim ''charge'' \<noteq> []" "trim ''c1'' \<noteq> []"
    using trim_graphic [of "''charge''"] trim_graphic [of "''c1''"] by (simp_all add: graphic_def)
  then have "submittable sample_api ?body"
    by (simp add: submittable_def submit_budget_def sample_api_def sample_payload_def valid_payload_def less_eq_char_def)
  moreover have "ae_jsonb sample_api sample_payload" by (simp add: sample_api_def)
  ultimately show ?thesis using submit_job_cases [OF sample_running_inv, of 8 sample_api ?body 300]
    by (auto simp: sample_running_db_def submit_budget_def)
qed

text \<open>C21. A retry request, on every branch, whatever happens to the tables between its read and its update: 500 when the database cannot
  be reached; 404 for an unknown job, 409 for one that is not DEAD, 400 for a budget that is out of range or not above the attempts
  used; then, on the tables as they are by then, 500 when they cannot be reached, 409 when the job is gone or no longer DEAD, 500 when
  it has by then used more attempts than the new budget has, and otherwise 200: the job waits again with the new budget and no other
  row changes. With any other answer the request has changed nothing.\<close>

theorem retry_job_cases:
  assumes "db_inv db" "db_inv (others db)" "\<And>r. r \<in> set (jobs db) \<Longrightarrow> attempts r \<le> 2 ^ 31 - 6"
    and "budget = (\<lambda>used. case requested of None \<Rightarrow> Some (used + 5) | Some m \<Rightarrow> if 1 \<le> m \<and> m \<le> 20 \<and> used < m then Some m else None)"
    and "retry_job env now i requested others db = (res, db')"
  shows "(answer_status res, db') =
      (if \<not> db_up db then (500, db)
       else case find_job i db of
         None \<Rightarrow> (404, db)
       | Some r \<Rightarrow>
           if status r \<noteq> as_db_str Dead then (409, db)
           else case budget (attempts r) of
             None \<Rightarrow> (400, db)
           | Some mx \<Rightarrow>
               if \<not> db_up (others db) then (500, others db)
               else case find_job i (others db) of
                 None \<Rightarrow> (409, others db)
               | Some s \<Rightarrow>
                   if status s \<noteq> as_db_str Dead then (409, others db)
                   else if mx < attempts s then (500, others db)
                   else (200, (others db)\<lparr>jobs := map (\<lambda>s. if jid s = i then revive_row now mx s else s) (jobs (others db))\<rparr>))
    \<and> (\<forall>js. res = Inr js \<longrightarrow> (\<exists>r s mx. find_job i db = Some r \<and> find_job i (others db) = Some s \<and> budget (attempts r) = Some mx
          \<and> js = view (revive_row now mx s)))"
proof (cases "db_up db")
  case down: False
  then show ?thesis using retry_job_down [OF down, of env now i requested others] assms(5)
    by (auto simp: answer_status_def internal_error_def)
next
  case up: True
  show ?thesis
  proof (cases "find_job i db")
    case None
    with up retry_job_missing [OF up None, of env now requested others] assms(5) show ?thesis by (auto simp: answer_status_def)
  next
    case (Some r)
    then have r: "r \<in> set (jobs db)" using find_job_Some by blast
    show ?thesis
    proof (cases "status r = as_db_str Dead")
      case False
      with up Some retry_job_not_dead [OF assms(1) up Some False, of env now requested others] assms(5) show ?thesis
        by (auto simp: answer_status_def)
    next
      case dead: True
      have target: "budget (attempts r) = retry_target (attempts r) requested"
        by (simp add: assms(4) retry_target_def split: option.split)
      have nonneg: "0 \<le> attempts r" using db_inv_checks [OF assms(1) r] by (simp add: job_checks_def)
      note run = retry_job_dead [OF assms(1) up Some dead assms(3) [OF r], where requested = requested and env = env and now = now
          and others = others]
      show ?thesis
      proof (cases "budget (attempts r)")
        case None
        with target have "retry_target (attempts r) requested = None" by simp
        with run None up Some dead assms(5) show ?thesis by (auto simp: answer_status_def)
      next
        case mx: (Some mx)
        with target have rt: "retry_target (attempts r) requested = Some mx" by simp
        with run nonneg have big: "1 \<le> mx" by simp
        show ?thesis
        proof (cases "db_up (others db)")
          case False
          then have "retry_dead_job now i mx (others db) = Inl (Database Unreachable)" by (simp add: retry_dead_job_def query_def)
          with run rt mx up Some dead False assms(5) show ?thesis
            by (auto simp: answer_status_def error_of_repo_def internal_error_def)
        next
          case up': True
          note rep = retry_dead_job_exact [OF assms(2) up', of now i mx]
          have "summary_of_row (revive_row now mx s) = Inr (view (revive_row now mx s))"
            if "find_job i (others db) = Some s" "\<not> mx < attempts s" for s
          proof -
            have "job_checks s" using that(1) find_job_Some db_inv_checks [OF assms(2)] by blast
            then have "0 \<le> attempts s" by (simp add: job_checks_def)
            then show ?thesis using big that(2) by (intro summary_ok) (simp add: revive_row_checks)
          qed
          with run rt rep mx up up' Some dead big assms(5) show ?thesis
            by (auto simp: answer_status_def error_of_repo_def internal_error_def split: option.splits if_splits)
        qed
      qed
    qed
  qed
qed

definition sample_dead_db :: "charge_payload db" where
  "sample_dead_db = verdict_db 400 7 55 (Bury ''X'' ''no'' 5) sample_running_db"

lemma sample_dead_inv: "db_inv sample_dead_db" "db_up sample_dead_db"
proof -
  have up: "db_up sample_running_db" by (simp add: sample_running_db_def)
  have "finalize 400 7 55 (Bury ''X'' ''no'' 5) sample_running_db = Inr (True, sample_dead_db)"
    unfolding sample_dead_db_def by (rule finalize_owned [OF sample_running_inv sample_owned up]) simp
  then show "db_inv sample_dead_db" by (rule finalize_preserves [OF sample_running_inv])
  show "db_up sample_dead_db" using up by (simp add: sample_dead_db_def)
qed

lemma sample_dead_jobs: "jobs sample_dead_db = [dead_row 400 ''X'' ''no'' sample_running]"
  by (simp add: sample_dead_db_def sample_running_db_def holds_lease_def)

lemma sample_dead_found:
  "find_job 7 sample_dead_db = Some (dead_row 400 ''X'' ''no'' sample_running)" "find_job 7 sample_running_db = Some sample_running"
  by (simp_all add: find_job_def sample_dead_jobs dead_row_def) (simp add: sample_running_db_def)

text \<open>A dead job is revived; while another request does so in between, the retry is told that it came too late.\<close>

theorem retry_job_cases_witness:
  "answer_status (fst (retry_job sample_api 500 7 None (\<lambda>d. d) sample_dead_db)) = 200
    \<and> answer_status (fst (retry_job sample_api 500 7 None (\<lambda>d. sample_running_db) sample_dead_db)) = 409
    \<and> answer_status (fst (retry_job sample_api 500 8 None (\<lambda>d. d) sample_dead_db)) = 404"
proof -
  have small: "attempts r \<le> 2 ^ 31 - 6" if "r \<in> set (jobs sample_dead_db)" for r
    using that by (simp add: sample_dead_jobs dead_row_def)
  have same: "db_inv ((\<lambda>d. d) sample_dead_db)" using sample_dead_inv by simp
  have other: "db_inv ((\<lambda>d. sample_running_db) sample_dead_db)" using sample_running_inv by simp
  note c1 = retry_job_cases [where others = "\<lambda>d. d", OF sample_dead_inv(1) same small refl]
  note c2 = retry_job_cases [where others = "\<lambda>d. sample_running_db", OF sample_dead_inv(1) other small refl]
  have none: "find_job 8 sample_dead_db = None" by (simp add: find_job_def sample_dead_jobs dead_row_def)
  have dead: "status (dead_row 400 ''X'' ''no'' sample_running) = as_db_str Dead" "attempts (dead_row 400 ''X'' ''no'' sample_running) = 1"
    by (simp_all add: dead_row_def)
  have up: "db_up sample_running_db" by (simp add: sample_running_db_def)
  obtain res1 db1 where r1: "retry_job sample_api 500 7 None (\<lambda>d. d) sample_dead_db = (res1, db1)" by (metis surj_pair)
  obtain res2 db2 where r2: "retry_job sample_api 500 7 None (\<lambda>d. sample_running_db) sample_dead_db = (res2, db2)" by (metis surj_pair)
  obtain res3 db3 where r3: "retry_job sample_api 500 8 None (\<lambda>d. d) sample_dead_db = (res3, db3)" by (metis surj_pair)
  from c1 [OF _ r1] c2 [OF _ r2] c1 [OF _ r3] show ?thesis
    by (simp add: r1 r2 r3 sample_dead_found sample_dead_inv(2) none dead up)
qed

text \<open>C35. On consistent tables that can be reached only one kind of request ends in an internal error: a valid submission with a
  character the database cannot hold, which is answered 500 and leaves the tables as they are. Every row that is read decodes, so each
  other request is answered with one of the statuses documented for its route, and whatever it writes leaves the tables consistent.\<close>

theorem answers_are_well_typed:
  assumes "db_inv db" "db_up db" "i \<notin> jid ` set (jobs db)"
    and "\<And>r. r \<in> set (jobs db) \<Longrightarrow> attempts r \<le> 2 ^ 31 - 6"
    and "api_app env rendered now i (\<lambda>d. d) req db = (reply, db')"
  shows "(if unstorable env req then reply_status reply = 500 \<and> db' = db else reply_status reply \<in> documented req) \<and> db_inv db'"
proof (cases req)
  case (PostJob body)
  consider "submittable env body" "storable env body" | "submittable env body" "\<not> storable env body" | "\<not> submittable env body"
    by blast
  then show ?thesis
  proof cases
    case 1
    then have "i32 (submit_budget body)" by (simp add: submittable_def i32_def)
    from insert_job_preserves [OF assms(1) this submitted_row_insert [OF assms(2,3) 1]] assms(5) PostJob 1
    show ?thesis by (auto simp: submit_job_accepted [OF assms(2,3) 1] answer_def)
  next
    case 2
    from submit_job_unstorable [OF assms(2) 2, of now i] assms(1,5) PostJob 2 show ?thesis
      by (auto simp: answer_def internal_error_def)
  next
    case 3
    from submit_job_refused [OF 3, of now i db] assms(1,5) PostJob 3 show ?thesis by (auto simp: answer_def)
  qed
next
  case (PostRetry j requested)
  from retry_answer_typed [OF assms(1,2,4), of env now j requested] assms(1,5) PostRetry
  show ?thesis by (auto simp: answer_def split: prod.splits sum.splits)
next
  case (GetJob j)
  then show ?thesis
  proof (cases "find_job j db")
    case None
    from get_job_missing [OF assms(2) None, of env] assms(1,5) GetJob show ?thesis by (auto simp: answer_def)
  next
    case (Some r)
    then have "job_checks r" using find_job_Some db_inv_checks [OF assms(1)] by blast
    from get_job_found [OF assms(2) Some this, of env] assms(1,5) GetJob show ?thesis by (auto simp: answer_def)
  qed
qed (use assms listing_answer_typed [OF assms(1,2)] in
    \<open>auto simp: answer_def live_def ready_def query_def render_metrics_def split: sum.splits\<close>)

theorem answers_are_well_typed_witness:
  "reply_status (fst (api_app sample_api ''gauges'' 500 9 (\<lambda>d. d)
      (GetJobs \<lparr>lq_status = None, lq_limit = Some 10, lq_cursor = Some ''?''\<rparr>) sample_running_db)) \<in> {200, 400}
   \<and> api_app sample_api ''gauges'' 500 9 (\<lambda>d. d)
      (PostJob \<lparr>sr_kind = [CHR ''a'', CHR 0x00, CHR ''b''], sr_payload = sample_payload, sr_max_attempts = None\<rparr>) sample_running_db
     = (RefusalReply (internal_error (Text ''internal error'')), sample_running_db)"
proof -
  let ?bad = "\<lparr>sr_kind = [CHR ''a'', CHR 0x00, CHR ''b''], sr_payload = sample_payload, sr_max_attempts = None\<rparr>"
  have "trim [CHR ''a'', CHR 0x00, CHR ''b''] \<noteq> []" "trim ''c1'' \<noteq> []"
    using trim_graphic [of "[CHR ''a'', CHR 0x00, CHR ''b'']"] trim_graphic [of "''c1''"] by (simp_all add: graphic_def)
  then have "submittable sample_api ?bad"
    by (simp add: submittable_def submit_budget_def sample_api_def sample_payload_def valid_payload_def less_eq_char_def)
  moreover have "\<not> storable sample_api ?bad" by (simp add: storable_def)
  moreover have up: "db_up sample_running_db" by (simp add: sample_running_db_def)
  ultimately have bad: "api_app sample_api ''gauges'' 500 9 (\<lambda>d. d) (PostJob ?bad) sample_running_db
      = (RefusalReply (internal_error (Text ''internal error'')), sample_running_db)"
    using submit_job_unstorable [OF up] by (simp add: answer_def)
  have "attempts r \<le> 2 ^ 31 - 6" if "r \<in> set (jobs sample_running_db)" for r using that by (simp add: sample_running_db_def)
  from answers_are_well_typed [OF sample_running_inv _ _ this surjective_pairing, of 9 sample_api
      "GetJobs \<lparr>lq_status = None, lq_limit = Some 10, lq_cursor = Some ''?''\<rparr>" "''gauges''" 500]
  show ?thesis using bad up by (simp add: sample_running_db_def)
qed

text \<open>C12. A request leaves the tables as they are unless it is a submission answered 202, a retry answered 200, or one of the two whose
  transaction was committed when the request timed out: not when a layer or the handler refuses it, with whatever headers and body it
  came, and not when it only reads. Every answer carries the id of its request, and an error names it in its envelope.\<close>

theorem refused_requests_change_nothing:
  assumes "db_inv db" "api_service lib c env rendered now i (\<lambda>d. d) inc db = (hs, resp, db')"
    and "rid = request_id (hl_to_str lib) (in_headers inc) (in_fresh inc)"
  shows "(db' = db
      \<or> (\<exists>b a. hl_extract lib (max_body_bytes c) (in_raw inc) = Inr (PostJob b) \<and> resp = Answered (SubmitReply 202 a))
      \<or> (\<exists>j m a. hl_extract lib (max_body_bytes c) (in_raw inc) = Inr (PostRetry j m) \<and> resp = Answered (SummaryReply a))
      \<or> (\<exists>req. hl_extract lib (max_body_bytes c) (in_raw inc) = Inr req
           \<and> ((\<exists>b. req = PostJob b) \<or> (\<exists>j m. req = PostRetry j m)) \<and> request_timeout c < in_took inc \<and> in_progress inc = Committed \<and> response_status resp = 408 \<and> db' = snd (api_app env rendered now i (\<lambda>d. d) req db)))
    \<and> (\<forall>v. hl_from_str lib rid = Some v \<longrightarrow> hs ''x-request-id'' = Some v)
    \<and> (\<forall>code body. resp = Refused code body \<longrightarrow> eb_request_id body = rid)"
proof -
  have ids: "\<forall>v. hl_from_str lib rid = Some v \<longrightarrow> hs ''x-request-id'' = Some v"
    using correlate_headers [OF assms(2) [unfolded api_service_def]] assms(3) by simp
  from assms(2) show ?thesis
  proof (cases rule: api_service_cases)
    case (1 r db1)
    have named: "\<forall>code body. resp = Refused code body \<longrightarrow> eb_request_id body = rid"
      unfolding 1(3) assms(3) using response_id by blast
    from routed_writes [OF assms(1) 1(1)] consider "db1 = db"
      | b a where "hl_extract lib (max_body_bytes c) (in_raw inc) = Inr (PostJob b)" "r = Inr (SubmitReply 202 a)"
      | j m a where "hl_extract lib (max_body_bytes c) (in_raw inc) = Inr (PostRetry j m)" "r = Inr (SummaryReply a)" by blast
    then show ?thesis by cases (use 1(3,4) ids named in \<open>simp_all add: api_response_of_def\<close>)
  next
    case (2 r db1)
    have named: "\<forall>code body. resp = Refused code body \<longrightarrow> eb_request_id body = rid" unfolding 2(4) assms(3) by simp
    from routed_passes [OF 2(1)] consider "db1 = db"
      | req where "hl_extract lib (max_body_bytes c) (in_raw inc) = Inr req" "(\<exists>b. req = PostJob b) \<or> (\<exists>j m. req = PostRetry j m)"
        "db1 = snd (api_app env rendered now i (\<lambda>d. d) req db)" by blast
    then show ?thesis by cases (use 2(2-4) ids named in simp_all)
  qed
qed

theorem refused_requests_change_nothing_witness:
  "snd (snd (api_service \<lparr>hl_to_str = Some, hl_from_str = Some, hl_extract = (\<lambda>limit raw. Inr raw)\<rparr>
      \<lparr>bind_addr = (), max_body_bytes = 65536, request_timeout = from_secs 10\<rparr> sample_api ''gauges'' 500 9 (\<lambda>d. d)
      \<lparr>in_headers = (\<lambda>k. None), in_raw = PostRetry 7 None, in_fresh = ''id-1'', in_took = from_secs 11, in_progress = Uncommitted\<rparr>
      sample_running_db)) = sample_running_db"
  (is "snd (snd (api_service ?lib ?c sample_api ''gauges'' 500 9 ?others ?inc sample_running_db)) = _")
proof -
  obtain hs resp db' where run: "api_service ?lib ?c sample_api ''gauges'' 500 9 ?others ?inc sample_running_db = (hs, resp, db')"
    by (metis prod_cases3)
  then have "\<exists>code body. resp = Refused code body"
    by (rule api_service_cases) (simp_all add: from_secs_def)
  with refused_requests_change_nothing [OF sample_running_inv run refl] run show ?thesis by auto
qed

text \<open>C19. A client that follows \<open>next_cursor\<close> from the first page on, with any page size from 1 to 200, reads every job with the wanted
  status exactly once, in the order of creation time and id, and then is told there is no more.\<close>

theorem pages_enumerate_jobs:
  assumes "db_inv db" "db_up db" "1 \<le> limit" "limit \<le> 200" "cursor_text_ok env"
    and "\<And>r. r \<in> set (jobs db) \<Longrightarrow> rfc_range (created_at r)"
    and "length (jobs db) < fuel"
  shows "follow_cursors env st fuel limit None db =
    Inr (map view (sort_key (\<lambda>r. (created_at r, jid r))
      (filter (\<lambda>r. case st of None \<Rightarrow> True | Some s \<Rightarrow> status r = as_db_str s) (jobs db))))"
proof -
  have list: "job_listing (st, db) = sort_key (\<lambda>r. (created_at r, jid r))
      (filter (\<lambda>r. case st of None \<Rightarrow> True | Some s \<Rightarrow> status r = as_db_str s) (jobs db))"
    by (simp add: job_listing_def matches_def [abs_def] cursor_key_def [abs_def])
  have "length (job_listing (st, db)) \<le> length (jobs db)" by (simp add: job_listing_def)
  moreover have "1 \<le> nat limit" using assms(3) by linarith
  then have "fuel * 1 \<le> fuel * nat limit" by (rule mult_le_mono2)
  ultimately have fuel: "length (job_listing (st, db)) < fuel * nat limit" using assms(7) by linarith
  have "read_pages (job_page (st, db)) cursor_key fuel (nat limit) None = job_listing (st, db)"
    using job_pages.read_all [OF _ _ fuel] assms(1-3) by (simp add: listable_def)
  moreover have "limit \<le> max_list_limit" using assms(4) by (simp add: max_list_limit_def)
  ultimately show ?thesis
    using follow_read_pages [OF assms(1-3) _ assms(5,6), where fuel = fuel and st = st and cursor = None and after = None] list
    by simp
qed

theorem pages_enumerate_jobs_witness:
  "follow_cursors sample_api (Some Running) 2 1 None sample_running_db = Inr [view sample_running]"
proof -
  have "rfc_range (created_at r)" if "r \<in> set (jobs sample_running_db)" for r
    using that by (simp add: sample_running_db_def rfc_range_def)
  from pages_enumerate_jobs [OF sample_running_inv _ _ _ sample_cursor_text_ok this, of 1 2 "Some Running"]
  show ?thesis by (simp add: sample_running_db_def)
qed

lemma sort_key_map: "sort_key f (map h xs) = map h (sort_key (\<lambda>x. f (h x)) xs)"
proof -
  have ins: "insort_key f (h x) (map h ys) = map h (insort_key (\<lambda>x. f (h x)) x ys)" for x ys
    by (induction ys) auto
  show ?thesis by (induction xs) (simp_all add: ins)
qed

definition hide_row :: "'v job_row \<Rightarrow> 'v job_row" where
  "hide_row r = r\<lparr>lease_token := None, lease_expires_at := None\<rparr>"

definition hide_attempt :: "attempt_row \<Rightarrow> attempt_row" where
  "hide_attempt a = a\<lparr>at_lease_token := None\<rparr>"

definition hide_leases :: "'v db \<Rightarrow> 'v db" where
  "hide_leases db = db\<lparr>jobs := map hide_row (jobs db), job_attempts := map hide_attempt (job_attempts db)\<rparr>"

lemma hidden_views:
  "summary_of_row (hide_row r) = summary_of_row r" "attempt_summary_of_row (hide_attempt a) = attempt_summary_of_row a"
  "jid (hide_row r) = jid r" "status (hide_row r) = status r" "created_at (hide_row r) = created_at r"
  "at_job_id (hide_attempt a) = at_job_id a" "at_number (hide_attempt a) = at_number a"
  "cursor_key (hide_row r) = cursor_key r"
  by (simp_all add: summary_of_row_def row_status_api_def row_status_def hide_row_def hide_attempt_def
      attempt_summary_of_row_def cursor_key_def)

lemma filter_map_same: "(\<And>x. P (h x) = P x) \<Longrightarrow> filter P (map h xs) = map h (filter P xs)"
  by (induction xs) auto

lemma list_jobs_hidden:
  "list_jobs st limit after (hide_leases db) = map_sum id (map hide_row) (list_jobs st limit after db)"
proof -
  let ?P = "\<lambda>r. (case st of None \<Rightarrow> True | Some s \<Rightarrow> status r = as_db_str s)
    \<and> (case after of None \<Rightarrow> True | Some c \<Rightarrow> cursor_key r > c)"
  have "filter ?P (map hide_row (jobs db)) = map hide_row (filter ?P (jobs db))"
    by (rule filter_map_same) (simp add: hidden_views split: option.split)
  then show ?thesis
    by (simp add: list_jobs_def query_def hide_leases_def sort_key_map hidden_views take_map)
qed

lemma list_with_status_hidden:
  "list_jobs_with_status env st q (hide_leases db) = list_jobs_with_status env st q db"
proof -
  have last: "rows \<noteq> [] \<Longrightarrow> last (map hide_row rows) = hide_row (last rows)" for rows :: "'a job_row list"
    by (simp add: last_map)
  have sums: "map summary_of_row (map hide_row rows) = map summary_of_row rows" for rows :: "'a job_row list"
    by (simp add: hidden_views)
  have "bind_res (map_err error_of_repo (map_sum id (map hide_row) r)) f
      = bind_res (map_err error_of_repo r) (\<lambda>rows. f (map hide_row rows))" for r :: "repo_error + 'a job_row list"
      and f :: "'a job_row list \<Rightarrow> api_error + 'a job_summary list \<times> string option"
    by (cases r) auto
  note bind = this
  show ?thesis
    unfolding list_jobs_with_status_def Let_def list_jobs_hidden bind sums
    by (simp add: last hidden_views cong: if_cong)
qed

lemma list_handlers_hidden:
  "list_jobs_handler env q (hide_leases db) = list_jobs_handler env q db"
  "list_dead_jobs env q (hide_leases db) = list_dead_jobs env q db"
  by (simp_all add: list_jobs_handler_def list_dead_jobs_def list_with_status_hidden)

lemma hidden_up: "db_up (hide_leases db) = db_up db"
  by (simp add: hide_leases_def)

lemma find_job_hidden: "find_job i (hide_leases db) = map_option hide_row (find_job i db)"
  using find_job_map [of hide_row i db, OF hidden_views(3)] by (simp add: hide_leases_def find_job_def)

lemma get_job_hidden: "get_job env i (hide_leases db) = get_job env i db"
proof -
  have "attempts_of i (hide_leases db) = map hide_attempt (attempts_of i db)"
    unfolding attempts_of_def hide_leases_def by (simp add: filter_map_same hidden_views)
  with find_job_hidden [of i db] show ?thesis
    by (cases "find_job i db"; cases "db_up db")
      (simp_all add: get_job_def get_job_by_id_def list_for_job_def query_def hidden_up sort_key_map hidden_views comp_def)
qed

lemma submit_job_hidden: "fst (submit_job env now i body (hide_leases db)) = fst (submit_job env now i body db)"
proof -
  have ids: "map jid (jobs (hide_leases db)) = map jid (jobs db)" by (simp add: hide_leases_def hidden_views)
  show ?thesis
    unfolding submit_job_def Let_def insert_job_def insert_job_row_def query_def ids hidden_up
    by (auto split: sum.splits)
qed

text \<open>A row that is revived has no lease, so the update of a retry does not see which leases there were.\<close>

lemma retry_dead_job_hidden:
  "retry_dead_job now i mx (hide_leases db)
     = map_sum id (\<lambda>(found, db'). (map_option hide_row found, hide_leases db')) (retry_dead_job now i mx db)"
proof -
  have rev: "revive_row now mx (hide_row r) = revive_row now mx r" "hide_row (revive_row now mx r) = revive_row now mx r"
    "dead_job i (hide_row r) = dead_job i r" for r
    by (simp_all add: revive_row_def hide_row_def dead_job_def)
  have count: "length (filter (dead_job i) (map hide_row rows)) = length (filter (dead_job i) rows)" for rows
    by (simp add: filter_map_same rev)
  have "update_jobs (dead_job i) (revive_row now mx) (hide_leases db)
      = map_sum id (\<lambda>(n, db'). (n, hide_leases db')) (update_jobs (dead_job i) (revive_row now mx) db)"
    unfolding update_jobs_def using count [of "jobs db"]
    by (auto simp: hide_leases_def list_all_iff rev if_distrib [of hide_row] o_def)
  then show ?thesis
    unfolding retry_dead_job_eq
    by (cases "update_jobs (dead_job i) (revive_row now mx) db")
      (auto simp: query_def find_job_hidden hidden_up split: prod.splits)
qed

lemma retry_job_hidden:
  "fst (retry_job env now i requested (\<lambda>d. hide_leases (others db)) (hide_leases db)) = fst (retry_job env now i requested others db)"
proof -
  have found: "get_job_by_id i (hide_leases db) = map_sum id (map_option hide_row) (get_job_by_id i db)"
    by (simp add: get_job_by_id_def query_def find_job_hidden hidden_up)
  have row: "row_status_api (hide_row r) = row_status_api r" "attempts (hide_row r) = attempts r" for r
    by (simp_all add: row_status_api_def row_status_def hide_row_def)
  define budget where "budget = (\<lambda>d :: 'a db. bind_res (map_err error_of_repo (get_job_by_id i d)) (\<lambda>found.
      bind_res (ok_or (not_found (Text (''job '' @ ae_show_uuid env i @ '' not found''))) found) (\<lambda>existing.
      bind_res (row_status_api existing) (\<lambda>st.
      if st \<noteq> Dead
      then Inl (invalid_state (Text (''job '' @ ae_show_uuid env i @ '' is '' @ display_status st
                  @ '', not DEAD; only a DEAD job can be retried'')))
      else retry_budget (attempts existing) requested))))"
  have same: "budget (hide_leases db) = budget db"
  proof (cases "get_job_by_id i db")
    case (Inr b)
    then show ?thesis unfolding budget_def found by (cases b) (simp_all add: row cong: if_cong)
  qed (simp add: budget_def found)
  show ?thesis
  proof (cases "budget db")
    case (Inl e)
    with same show ?thesis unfolding retry_job_def Let_def budget_def by simp
  next
    case (Inr mx)
    with same show ?thesis
      unfolding retry_job_def Let_def budget_def
      by (cases "retry_dead_job now i mx (others db)"; cases "fst (projr (retry_dead_job now i mx (others db)))")
        (auto simp: retry_dead_job_hidden hidden_views split: prod.splits)
  qed
qed

text \<open>C26. No answer of the job API depends on a lease token or its deadline: every request is answered alike on tables that differ only
  in these, whatever happens to the tables meanwhile, as long as that too differs only in these.\<close>

theorem answers_hide_leases:
  assumes "hide_leases db' = hide_leases db" "hide_leases (others' db') = hide_leases (others db)"
  shows "fst (api_app env rendered now i others' req db') = fst (api_app env rendered now i others req db)"
proof -
  have "fst (api_app env rendered now i (\<lambda>d. hide_leases (o1 d1)) req (hide_leases d1)) = fst (api_app env rendered now i o1 req d1)"
    for o1 and d1 :: "'a db"
  proof (cases req)
    case (PostJob body)
    with submit_job_hidden [of env now i body d1] show ?thesis by (simp add: case_prod_beta)
  next
    case (PostRetry j m)
    with retry_job_hidden [of env now j m o1 d1] show ?thesis by (simp add: case_prod_beta)
  next
    case GetReady
    then show ?thesis by (simp add: ready_def query_def hide_leases_def)
  qed (simp_all add: list_handlers_hidden get_job_hidden)
  from this [of others' db'] this [of others db] assms show ?thesis by simp
qed

theorem answers_hide_leases_witness:
  "fst (api_app sample_api ''gauges'' 500 9 (\<lambda>d. d) (PostRetry 7 None) sample_running_db)
     = fst (api_app sample_api ''gauges'' 500 9 (\<lambda>d. d) (PostRetry 7 None) (hide_leases sample_running_db))
   \<and> hide_leases sample_running_db \<noteq> sample_running_db"
proof -
  have idem: "hide_leases (hide_leases sample_running_db) = hide_leases sample_running_db"
    by (simp add: hide_leases_def hide_row_def hide_attempt_def)
  have "lease_token sample_running = Some 55" by simp
  then have "hide_leases sample_running_db \<noteq> sample_running_db"
    by (auto simp: hide_leases_def sample_running_db_def hide_row_def dest!: arg_cong [where f = jobs] arg_cong [where f = lease_token])
  with answers_hide_leases [OF idem [symmetric], of "\<lambda>d. d" "\<lambda>d. d", where env = sample_api and rendered = "''gauges''"
      and now = 500 and i = 9 and req = "PostRetry 7 None"] idem
  show ?thesis by simp
qed

lemma status_counts:
  assumes "\<forall>r \<in> set xs. \<exists>s. status r = as_db_str s"
  shows "length (filter (\<lambda>r. status r = as_db_str Pending) xs) + length (filter (\<lambda>r. status r = as_db_str Running) xs)
    + length (filter (\<lambda>r. status r = as_db_str Succeeded) xs) + length (filter (\<lambda>r. status r = as_db_str Dead) xs) = length xs"
  using assms
proof (induction xs)
  case (Cons x xs)
  then obtain s where "status x = as_db_str s" by auto
  with Cons show ?case by (cases s) auto
qed simp

text \<open>On consistent tables a refresh of the gauges goes through, and the four queue depths add up to the number of jobs.\<close>

theorem gauges_count_every_job:
  assumes "db_inv db" "db_up db"
  shows "\<exists>gs age. refresh_once now db = (Inr (), gs, Some age)
    \<and> map fst gs = [''PENDING'', ''RUNNING'', ''SUCCEEDED'', ''DEAD''] \<and> sum_list (map snd gs) = length (jobs db)"
proof -
  let ?n = "\<lambda>s. length (filter (\<lambda>r. status r = as_db_str s) (jobs db))"
  have "\<forall>r \<in> set (jobs db). \<exists>s. status r = as_db_str s"
    using db_inv_checks [OF assms(1)] by (auto simp: job_checks_def status_text.dec_Some_iff)
  from status_counts [OF this] have "?n Pending + ?n Running + ?n Succeeded + ?n Dead = length (jobs db)" .
  then show ?thesis using assms(2)
    by (auto simp: refresh_once_def query_def as_db_str.simps split: option.split)
qed

theorem gauges_count_every_job_witness:
  "\<exists>gs age. refresh_once 500 sample_running_db = (Inr (), gs, Some age) \<and> sum_list (map snd gs) = 1"
  using gauges_count_every_job [OF sample_running_inv, of 500] by (fastforce simp: sample_running_db_def)

subsection \<open>The charge service\<close>



text \<open>A charge request that is answered with an error has stored nothing, whatever the error and whatever is being injected.\<close>

theorem failed_charge_stores_nothing:
  assumes "create_charge env now i hs body (st, db) = (Inl e, st', db')"
  shows "db' = db"
  using create_charge_db [OF assms]
proof
  assume "\<exists>key pl out. idempotency_key (to_str env) hs = Inr key \<and> parse_charge_payload (from_value env) body = Inr pl
    \<and> insert_or_get_charge now i key (customer_id pl) (amount_cents pl) (currency pl) db = Inr (out, db')
    \<and> Inl e = respond out key"
  then obtain key and pl :: charge_payload and out where
    ins: "insert_or_get_charge now i key (customer_id pl) (amount_cents pl) (currency pl) db = Inr (out, db')"
    and "Inl e = respond out key" by blast
  then show ?thesis using insert_or_get_Inr(4) [OF ins] by (auto simp: respond_def outcome_for_def split: option.splits)
qed

theorem failed_charge_stores_nothing_witness:
  "snd (snd (create_charge sample_charge 300 9 (\<lambda>n. None) sample_payload (default_chaos 0, sample_running_db))) = sample_running_db"
proof -
  have "create_charge sample_charge 300 9 (\<lambda>n. None) sample_payload (default_chaos 0, sample_running_db)
    = (Inl (charge_invalid_argument (Text ''Idempotency-Key header is required'')), default_chaos 0, sample_running_db)"
    by (simp add: create_charge_def idempotency_key_def)
  from failed_charge_stores_nothing [OF this] this show ?thesis by simp
qed

text \<open>A charge service that was started without its test controls never injects a failure: over any sequence of requests, control
  requests among them, it stays in normal mode and no answer is an injected one.\<close>

theorem no_injection_without_control:
  assumes "serve_charges env seed False reqs (default_chaos entropy, db) = (rs, st', db')"
  shows "mode st' = NormalMode \<and> (\<forall>e. ErrorReply e \<in> set rs \<longrightarrow> ce_code e \<noteq> ''INJECTED_FAILURE'')"
  by (rule normal_mode_forever [OF _ assms]) (simp add: default_chaos_def)

theorem no_injection_without_control_witness:
  "mode (fst (snd (serve_charges sample_charge (\<lambda>n. n) False [(1, 1, PostControl CPermanentReject)]
     (default_chaos 0, sample_running_db)))) = NormalMode"
proof -
  have "serve_charges sample_charge (\<lambda>n. n) False [(1, 1, PostControl CPermanentReject)] (default_chaos 0, sample_running_db)
    = ([NotFoundReply], default_chaos 0, sample_running_db)" by simp
  from no_injection_without_control [OF this] this show ?thesis by simp
qed

fun decisions ::
    "('r \<Rightarrow> rat \<times> 'r) \<Rightarrow> (nat \<Rightarrow> http_status option) \<Rightarrow> nat \<Rightarrow> 'r chaos_state \<Rightarrow> chaos_decision list \<times> 'r chaos_state" where
  "decisions g u 0 st = ([], st)"
| "decisions g u (Suc n) st =
     (case decide g u st of (d, st') \<Rightarrow> (case decisions g u n st' of (ds, st'') \<Rightarrow> (d # ds, st'')))"

lemma decisions_snoc:
  "decisions g u (n + 1) st
     = (fst (decisions g u n st) @ [fst (decide g u (snd (decisions g u n st)))], snd (decide g u (snd (decisions g u n st))))"
  by (induction n arbitrary: st) (simp_all add: case_prod_beta)

lemma decisions_fail_next:
  "1 \<le> n \<Longrightarrow> mode st = FailNext n c \<Longrightarrow>
     decisions g u n st = (replicate n (Reject (injected_status u c)), st\<lparr>mode := NormalMode\<rparr>)"
proof (induction n arbitrary: st)
  case (Suc n)
  show ?case
  proof (cases n)
    case 0
    with Suc.prems show ?thesis by (simp add: decide_def Let_def)
  next
    case (Suc m)
    have "decide g u st = (Reject (injected_status u c), st\<lparr>mode := FailNext n c\<rparr>)"
      using Suc.prems Suc by (simp add: decide_def Let_def)
    then show ?thesis using Suc.IH [of "st\<lparr>mode := FailNext n c\<rparr>"] Suc by simp
  qed
qed simp

text \<open>Asking for the next \<open>n\<close> requests to fail makes exactly \<open>n\<close> fail, with the status asked for, and the one after them goes through
  again.\<close>

theorem fail_next_fails_exactly_n:
  assumes "set_control seed (CFailNext n c) st = (Inr ok, st')"
  shows "decisions g u (n + 1) st' = (replicate n (Reject (injected_status u c)) @ [Proceed], st\<lparr>mode := NormalMode\<rparr>)"
proof -
  have n: "1 \<le> n" and st': "st' = st\<lparr>mode := FailNext n c\<rparr>"
    using assms by (auto simp: set_control_def split: if_splits)
  have "decisions g u n st' = (replicate n (Reject (injected_status u c)), st\<lparr>mode := NormalMode\<rparr>)"
    using decisions_fail_next [OF n, of st' c g u] by (simp add: st')
  then show ?thesis unfolding decisions_snoc by (simp add: decide_def)
qed

theorem fail_next_fails_exactly_n_witness:
  "fst (decisions (\<lambda>g. (0, g)) Some 3 (snd (set_control (\<lambda>n. n) (CFailNext 2 503) (default_chaos 0))))
     = [Reject 503, Reject 503, Proceed]"
proof -
  have "set_control (\<lambda>n. n) (CFailNext 2 503) (default_chaos 0) = (Inr True, (default_chaos 0)\<lparr>mode := FailNext 2 503\<rparr>)"
    by (simp add: set_control_def)
  from fail_next_fails_exactly_n [OF this, of "\<lambda>g. (0, g)" Some] this show ?thesis
    by (simp add: injected_status_def numeral_eq_Suc)
qed

text \<open>The peak the charge service reports is the high-water mark of its requests in flight, over any interleaving of requests
  beginning and ending since the counters were both at rest.\<close>

theorem peak_is_high_water_mark:
  assumes "inflight st = 0" "peak_inflight st = 0"
  shows "peak_inflight (fold guard_step es st) = Max (set (levels 0 es))
    \<and> inflight (fold guard_step es st) = last (levels 0 es)"
  using high_water [of st es] assms by simp

theorem peak_is_high_water_mark_witness:
  "peak_inflight (fold guard_step [True, True, False, True, False, False] (default_chaos (0 :: nat))) = 2"
  using peak_is_high_water_mark [of "default_chaos (0 :: nat)" "[True, True, False, True, False, False]"]
  by (simp add: default_chaos_def)

subsection \<open>The worker\<close>

text \<open>C15. A worker that still holds its lease when the charge call returns finalises its job by the outcome: SUCCEEDED exactly when the
  reply was a success, rescheduled exactly when the failure is retryable (no reply, 408, 429 or 5xx) and attempts are
  left, DEAD otherwise. Only a failure whose message the database cannot hold is not recorded: the finaliser is refused, and the job
  stays under its lease as it was.\<close>

theorem execution_ends_by_outcome:
  assumes "lease_token (cj_job claimed) = Some t" "i = jid (cj_job claimed)"
    and "execute_charge env i (payload (cj_job claimed)) w = ((outcome, ms), (db1, n1))"
    and "db_inv db1" "db_up db1" "owns i t db1"
  shows "\<exists>v fms rng'. execute_and_finalize env claimed now elapsed rng w
      = (if \<forall>f. outcome = Inl f \<longrightarrow> text_ok (ef_message f)
         then ((Finalized v True, ms @ fms), (verdict_db now i t v db1, n1), rng')
         else ((FinalizeFailed v (Database InvalidText), ms), (db1, n1), rng'))
    \<and> (is_success_verdict v \<longleftrightarrow> outcome = Inr ())
    \<and> (is_retry v \<longleftrightarrow> (\<exists>f. outcome = Inl f \<and> is_retryable (ef_class f)
         \<and> cj_attempt_number claimed < max_attempts (cj_job claimed)))"
proof -
  obtain v rng' where v: "choose_verdict env (cj_attempt_number claimed) (max_attempts (cj_job claimed)) elapsed rng outcome = (v, rng')"
    by (cases "choose_verdict env (cj_attempt_number claimed) (max_attempts (cj_job claimed)) elapsed rng outcome")
  have "verdict_texts_ok v \<longleftrightarrow> (\<forall>f. outcome = Inl f \<longrightarrow> text_ok (ef_message f))"
    using choose_verdict_texts [OF v] execute_charge_code [OF assms(3)] by auto
  then have "finish now i t (kind (cj_job claimed)) v db1
      = (if \<forall>f. outcome = Inl f \<longrightarrow> text_ok (ef_message f)
         then ((Finalized v True, verdict_metrics (kind (cj_job claimed)) v), verdict_db now i t v db1)
         else ((FinalizeFailed v (Database InvalidText), []), db1))"
    using finish_result [OF assms(4)] assms(5,6) by simp
  then have "execute_and_finalize env claimed now elapsed rng w
      = (if \<forall>f. outcome = Inl f \<longrightarrow> text_ok (ef_message f)
         then ((Finalized v True, ms @ verdict_metrics (kind (cj_job claimed)) v), (verdict_db now i t v db1, n1), rng')
         else ((FinalizeFailed v (Database InvalidText), ms), (db1, n1), rng'))"
    using assms(1-3) v
    by (simp add: execute_and_finalize_def execute_and_finalize_with_failpoints_def noop_failpoints_def Let_def)
  moreover have "is_success_verdict v \<longleftrightarrow> outcome = Inr ()"
    using choose_verdict_success [of env "cj_attempt_number claimed" "max_attempts (cj_job claimed)" elapsed rng outcome] v by simp
  moreover have "is_retry v \<longleftrightarrow> (\<exists>f. outcome = Inl f \<and> is_retryable (ef_class f)
         \<and> cj_attempt_number claimed < max_attempts (cj_job claimed))"
    using choose_verdict_retry [of env "cj_attempt_number claimed" "max_attempts (cj_job claimed)" elapsed rng outcome] v by simp
  ultimately show ?thesis by blast
qed

lemma sample_execution: "execute_charge sample_worker 7 sample_payload (sample_running_db, ())
    = ((Inr (), [downstream_metric ''success'']), (sample_running_db, ()))"
proof -
  have "valid_payload sample_payload" using sample_payload_ok by (simp add: job_payload_def parse_charge_payload_ok)
  then have "parse_charge_payload (we_from_value sample_worker) sample_payload = Inr sample_payload"
    by (simp add: parse_charge_payload_ok sample_worker_def)
  then show ?thesis by (simp add: execute_charge_def) (simp add: sample_worker_def judge_reply_def is_success_def)
qed

theorem execution_ends_by_outcome_witness:
  "\<exists>v fms rng'. execute_and_finalize sample_worker sample_claim 400 0 0 (sample_running_db, ())
     = ((Finalized v True, [downstream_metric ''success''] @ fms), (verdict_db 400 7 55 v sample_running_db, ()), rng')
     \<and> is_success_verdict v"
proof -
  have l: "lease_token (cj_job sample_claim) = Some 55" "7 = jid (cj_job sample_claim)"
    "execute_charge sample_worker 7 (payload (cj_job sample_claim)) (sample_running_db, ())
      = ((Inr (), [downstream_metric ''success'']), (sample_running_db, ()))"
    using sample_execution by (simp_all add: sample_claim_def)
  have "db_up sample_running_db" by (simp add: sample_running_db_def)
  from execution_ends_by_outcome [OF l sample_running_inv this sample_owned, of 400 0 0] show ?thesis by auto
qed

text \<open>The judgement of a reply: the job counts as charged exactly on a 2xx, and a failure is retryable exactly when no reply
  arrived or its status is 408, 429 or 5xx.\<close>

theorem reply_judgement:
  "case fst (judge_reply env reply) of
     Inr u \<Rightarrow> \<exists>code body. reply = Inr (code, body) \<and> 200 \<le> code \<and> code \<le> 299
   | Inl f \<Rightarrow> (case reply of
        Inl err \<Rightarrow> ef_class f = Ambiguous \<and> is_retryable (ef_class f)
      | Inr (code, body) \<Rightarrow> (code < 200 \<or> 299 < code)
          \<and> (is_retryable (ef_class f) \<longleftrightarrow> code = 408 \<or> code = 429 \<or> (500 \<le> code \<and> code \<le> 599)))"
  by (cases reply)
    (auto simp: judge_reply_def Let_def classify_network_error_def classify_http_status_def is_success_def
      split: if_splits)

text \<open>The delay a worker schedules a retry with is a whole number of milliseconds between zero and the cap of the attempt that
  failed.\<close>

theorem retry_delay_within_cap:
  assumes "gen_range_within (we_gen_range env)"
    and "choose_verdict env attempt mx elapsed rng outcome = (Retry d code msg ms, rng')"
  shows "0 \<le> d \<and> d \<le> as_secs_f64 (cap (we_policy env) (attempt_u32 attempt)) \<and> (\<exists>k. d = as_secs_f64 (from_millis k))"
  using choose_verdict_delay [OF assms(1), of attempt mx elapsed rng outcome d code msg ms] assms(2) by simp

definition sample_failure :: execution_failure where
  "sample_failure = \<lparr>ef_class = Transient, ef_code = ''DOWNSTREAM_REJECTED'', ef_message = ''x''\<rparr>"

theorem retry_delay_within_cap_witness:
  "\<exists>d code msg ms rng'. choose_verdict (sample_worker :: (charge_payload, unit, nat) worker_env) 1 3 0 400 (Inl sample_failure)
     = (Retry d code msg ms, rng') \<and> d \<le> as_secs_f64 (cap default_policy 1)"
proof -
  let ?env = "sample_worker :: (charge_payload, unit, nat) worker_env"
  have g: "gen_range_within (we_gen_range ?env)" by (simp add: sample_worker_def sample_gen_within)
  obtain d code msg ms rng' where v: "choose_verdict ?env 1 3 0 400 (Inl sample_failure) = (Retry d code msg ms, rng')"
    by (simp add: choose_verdict_def sample_failure_def case_prod_beta)
  from retry_delay_within_cap [OF g v] v show ?thesis
    by (auto simp: sample_worker_def attempt_u32_def u32_max_def)
qed

text \<open>At the crash point during finalisation a retryable failure with attempts left is not rescheduled as the worker's own path
  does it: the job is buried as having exhausted its budget.\<close>

theorem crash_during_finalize_buries:
  assumes "lease_token (cj_job claimed) = Some t" "i = jid (cj_job claimed)"
    and "\<And>name. fp name i \<longleftrightarrow> name = DuringFinalize"
    and "execute_charge env i (payload (cj_job claimed)) w = ((Inl f, ms), (db1, n1))" "is_retryable (ef_class f)"
    and "db_inv db1" "db_up db1" "r \<in> set (jobs db1)" "holds_lease i t r" "text_ok (ef_message f)"
  shows "\<exists>db2 r'. execute_and_finalize_with_failpoints env fp claimed now elapsed rng w
      = ((Crashed DuringFinalize, ms), (db2, n1), rng)
    \<and> r' \<in> set (jobs db2) \<and> jid r' = i \<and> status r' = as_db_str Dead \<and> attempts r' = attempts r
    \<and> max_attempts r' = max_attempts r \<and> last_error_code r' = Some ''RETRY_BUDGET_EXHAUSTED''"
proof -
  let ?v = "crash_verdict elapsed (Inl f)"
  let ?db2 = "verdict_db now i t ?v db1"
  have own: "owns i t db1" using assms(8,9) by (auto simp: owns_def)
  have "finalized_db (finalize now i t ?v db1) db1 = ?db2"
    using finalize_owned [OF assms(6) own assms(7), of ?v now] assms(5,10)
    by (simp add: finalized_db_def crash_verdict_def dead_reason_def)
  then have "execute_and_finalize_with_failpoints env fp claimed now elapsed rng w = ((Crashed DuringFinalize, ms), (?db2, n1), rng)"
    using assms(1-4) by (simp add: execute_and_finalize_with_failpoints_def Let_def)
  moreover have "verdict_row now ?v r \<in> set (jobs ?db2)" using assms(8,9) by force
  moreover have "verdict_row now ?v r = dead_row now ''RETRY_BUDGET_EXHAUSTED'' (ef_message f) r"
    using assms(5) by (simp add: crash_verdict_def dead_reason_def)
  ultimately show ?thesis using assms(9)
    by (intro exI [of _ ?db2] exI [of _ "verdict_row now ?v r"]) (simp add: dead_row_def holds_lease_def)
qed

definition failing_worker :: "(charge_payload, 'w, nat) worker_env" where
  "failing_worker = sample_worker\<lparr>we_send := (\<lambda>m w. (Inl ''timed out'', w))\<rparr>"

lemma failing_execution: "execute_charge failing_worker 7 sample_payload (sample_running_db, ())
    = ((Inl \<lparr>ef_class = Ambiguous, ef_code = ''DOWNSTREAM_UNREACHABLE'', ef_message = ''timed out''\<rparr>,
        [downstream_metric ''unreachable'']), (sample_running_db, ()))"
proof -
  have "valid_payload sample_payload" using sample_payload_ok by (simp add: job_payload_def parse_charge_payload_ok)
  then have "parse_charge_payload (we_from_value (failing_worker :: (charge_payload, charge_payload db \<times> unit, nat) worker_env))
      sample_payload = Inr sample_payload"
    by (simp add: parse_charge_payload_ok sample_worker_def failing_worker_def)
  then show ?thesis
    by (simp add: execute_charge_def) (simp add: failing_worker_def judge_reply_def classify_network_error_def)
qed

theorem crash_during_finalize_buries_witness:
  "\<exists>db2 r'. fst (snd (execute_and_finalize_with_failpoints failing_worker (\<lambda>name i. name = DuringFinalize) sample_claim 400 0 0
     (sample_running_db, ()))) = (db2, ()) \<and> r' \<in> set (jobs db2) \<and> status r' = as_db_str Dead \<and> attempts r' < max_attempts r'"
proof -
  let ?f = "\<lparr>ef_class = Ambiguous, ef_code = ''DOWNSTREAM_UNREACHABLE'', ef_message = ''timed out''\<rparr>"
  have e: "execute_charge failing_worker 7 (payload (cj_job sample_claim)) (sample_running_db, ())
      = ((Inl ?f, [downstream_metric ''unreachable'']), (sample_running_db, ()))"
    using failing_execution by (simp add: sample_claim_def)
  have l: "lease_token (cj_job sample_claim) = Some 55" "7 = jid (cj_job sample_claim)" by (simp_all add: sample_claim_def)
  have r: "db_up sample_running_db" "sample_running \<in> set (jobs sample_running_db)" "holds_lease 7 55 sample_running"
    by (simp_all add: sample_running_db_def holds_lease_def)
  from crash_during_finalize_buries [OF l _ e _ sample_running_inv r, of "\<lambda>name i. name = DuringFinalize" 400 0 0]
  show ?thesis by fastforce
qed

text \<open>C10. A heartbeat whose wake-ups are on time (each before the lease then running ends) keeps the job, whatever number of claims
  other workers make in between: every renewal succeeds and the lease is still held at the end.\<close>

theorem heartbeat_keeps_the_lease:
  assumes "db_inv db" "db_up db" "r \<in> set (jobs db)" "holds_lease i t r"
    and "lease_expires_at r = Some (last_renewal + interval_us (as_secs_f64 lease))"
    and "timely i t lease last_renewal ticks db"
  shows "\<exists>db'. heartbeat i t lease (map (\<lambda>(cs, now). (fold do_claim cs, now)) ticks) db
      = (replicate (length ticks) (renewal_metric ''ok''), db') \<and> owns i t db'"
proof -
  have "leased_until i t (last_renewal + interval_us (as_secs_f64 lease)) db" using assms(3-5) by (auto simp: leased_until_def)
  from heartbeat_keeps [OF assms(1,2) this assms(6)] show ?thesis by (metis surjective_pairing)
qed

theorem heartbeat_keeps_the_lease_witness:
  "fst (heartbeat 7 55 (from_secs 30)
     [(do_claim \<lparr>cl_now = 10000100, cl_locked = (\<lambda>i. False), cl_tok = (\<lambda>i. 77), cl_worker = ''x'', cl_limit = 10, cl_lease = from_secs 30\<rparr>,
       10000200)] sample_running_db) = [renewal_metric ''ok'']"
proof -
  let ?c = "\<lparr>cl_now = 10000100, cl_locked = (\<lambda>i. False), cl_tok = (\<lambda>i. 77), cl_worker = ''x'', cl_limit = 10, cl_lease = from_secs 30\<rparr>"
  have "timely 7 55 (from_secs 30) 200 [([?c], 10000200)] sample_running_db"
    using sample_fresh_77 by (simp add: interval_us_secs del: heartbeat.simps)
  moreover have "sample_running \<in> set (jobs sample_running_db)" "db_up sample_running_db" by (simp_all add: sample_running_db_def)
  moreover have "lease_expires_at sample_running = Some (200 + interval_us (as_secs_f64 (from_secs 30)))"
    by (simp add: interval_us_secs)
  moreover have "holds_lease 7 55 sample_running" by (simp add: holds_lease_def)
  ultimately show ?thesis
    using heartbeat_keeps_the_lease [OF sample_running_inv, of sample_running 7 55 200 "from_secs 30" "[([?c], 10000200)]"]
    by (auto simp del: heartbeat.simps)
qed

subsection \<open>The poll loop\<close>

text \<open>C23. In every state the loop and its tasks can reach, the tasks running and waiting are together at most ten and at most the
  configured concurrency, every permit is accounted for, and no task has to wait for a permit: there is a free one for
  each that has none yet.\<close>

theorem poll_loop_is_bounded:
  assumes "poll_step\<^sup>*\<^sup>* (poll_init n) s"
  shows "length (waiting s) + length (running s) \<le> min n 10
    \<and> permits s + length (running s) = n \<and> length (waiting s) \<le> permits s"
  using poll_reachable_inv [OF assms] by (auto simp: poll_inv_def claim_batch_max_def)

theorem poll_loop_is_bounded_witness:
  "\<exists>s. poll_step\<^sup>*\<^sup>* (poll_init 2) s \<and> running s = [7] \<and> waiting s = [8] \<and> permits s = 1
    \<and> length (waiting s) + length (running s) \<le> min 2 10"
proof -
  let ?s1 = "claim_returned [7, 8] (poll_init 2)"
  let ?s2 = "acquire_permit 7 ?s1"
  have "poll_step (poll_init 2) ?s1"
    by (rule poll_step.claim) (simp_all add: poll_init_def batch_size_def claim_batch_max_def)
  moreover have "poll_step ?s1 ?s2"
    by (rule poll_step.acquire) (simp_all add: poll_init_def claim_returned_def)
  ultimately have "poll_step\<^sup>*\<^sup>* (poll_init 2) ?s2" by (meson converse_rtranclp_into_rtranclp rtranclp.rtrancl_refl)
  from this poll_loop_is_bounded [OF this] show ?thesis
    by (intro exI [of _ ?s2]) (simp add: poll_init_def claim_returned_def acquire_permit_def)
qed

text \<open>A loop with at least one permit never polls without one: it claims again only when the whole batch is done, so all permits
  are free then and the branch that sleeps for lack of permits is not reached; each claim asks for the same number of
  jobs, the concurrency or ten.\<close>

theorem poll_loop_never_lacks_permits:
  assumes "poll_step\<^sup>*\<^sup>* (poll_init n) s" "1 \<le> n"
  shows "(phase s = Polling \<longrightarrow> batch_size (permits s) = min (int n) 10) \<and> batch_size n \<noteq> 0 \<and> phase s \<noteq> NoPermits"
proof -
  have claims: "batch_size (permits s) = min (int n) 10" if "phase s = Polling" "poll_inv n s" for s
    using that by (auto simp: poll_inv_def batch_size_def claim_batch_max_def)
  have "phase s \<noteq> NoPermits"
    using assms(1)
  proof (induction rule: rtranclp_induct)
    case base
    show ?case by (simp add: poll_init_def)
  next
    case (step s s')
    note inv = poll_reachable_inv [OF step.hyps(1)]
    from step.hyps(2) show ?case
    proof cases
      case full
      with claims [OF _ inv] assms(2) show ?thesis by simp
    qed (use step.IH in \<open>auto simp: claim_returned_def acquire_permit_def task_done_def\<close>)
  qed
  moreover have "batch_size n \<noteq> 0" using assms(2) by (simp add: batch_size_def claim_batch_max_def)
  ultimately show ?thesis using claims poll_reachable_inv [OF assms(1)] by blast
qed

theorem poll_loop_never_lacks_permits_witness: "batch_size (permits (poll_init 16)) = 10"
  using poll_loop_never_lacks_permits [of 16 "poll_init 16"] by (simp add: poll_init_def)

text \<open>C24. From the moment shutdown is seen in the middle of a batch the loop claims nothing more and the number of jobs it holds only
  falls; it can take at most two steps for each job that waits, one for each that runs and one to stop; it may stop at any time, when
  the grace period is over; and it comes to rest only when it has stopped and no job is waiting or running any more.\<close>

theorem shutdown_stops_claiming:
  assumes "poll_step\<^sup>*\<^sup>* (poll_init n) s" "phase s = Draining" "(poll_step ^^ k) s s'"
  shows "phase s' \<in> {Draining, Stopped}
    \<and> length (waiting s') + length (running s') \<le> length (waiting s) + length (running s)
    \<and> k \<le> 2 * length (waiting s) + length (running s) + 1
    \<and> (phase s' = Draining \<longrightarrow> poll_step s' (s'\<lparr>phase := Stopped\<rparr>))
    \<and> ((\<forall>s''. \<not> poll_step s' s'') \<longrightarrow> phase s' = Stopped \<and> waiting s' = [] \<and> running s' = [])"
proof -
  have "poll_step\<^sup>*\<^sup>* (poll_init n) s'" using assms(1,3) by (meson relpowp_imp_rtranclp rtranclp_trans)
  then have inv: "poll_inv n s'" by (rule poll_reachable_inv)
  have "phase s \<in> {Draining, Stopped}" using assms(2) by simp
  note steps = shutdown_steps [OF assms(3) this]
  have "phase s' = Stopped \<and> waiting s' = [] \<and> running s' = []" if "\<forall>s''. \<not> poll_step s' s''"
    using shutdown_stuck [OF inv] steps that by blast
  moreover have "shutdown_left s = 2 * length (waiting s) + length (running s) + 1" using assms(2) by (simp add: shutdown_left_def)
  ultimately show ?thesis using steps poll_step.grace_over by auto
qed

theorem shutdown_stops_claiming_witness:
  "\<exists>s s'. phase s = Draining \<and> running s = [7] \<and> (poll_step ^^ 2) s s' \<and> phase s' = Stopped \<and> running s' = []"
proof -
  let ?s1 = "claim_returned [7] (poll_init 1)"
  let ?s2 = "acquire_permit 7 ?s1"
  let ?s3 = "?s2\<lparr>phase := Draining\<rparr>" and ?s4 = "task_done 7 (?s2\<lparr>phase := Draining\<rparr>)"
  let ?s5 = "?s4\<lparr>phase := Stopped\<rparr>"
  have "poll_step (poll_init 1) ?s1"
    by (rule poll_step.claim) (simp_all add: poll_init_def batch_size_def claim_batch_max_def)
  moreover have "poll_step ?s1 ?s2" by (rule poll_step.acquire) (simp_all add: poll_init_def claim_returned_def)
  moreover have "poll_step ?s2 ?s3" by (rule poll_step.shutdown_batch) (simp add: acquire_permit_def claim_returned_def)
  ultimately have r3: "poll_step\<^sup>*\<^sup>* (poll_init 1) ?s3" by (meson converse_rtranclp_into_rtranclp rtranclp.rtrancl_refl)
  have s4: "poll_step ?s3 ?s4" by (rule poll_step.task_ends) (simp add: acquire_permit_def)
  have shape: "phase ?s3 = Draining" "phase ?s4 = Draining" "running ?s3 = [7]" "running ?s5 = []" "waiting ?s3 = []"
    by (simp_all add: acquire_permit_def task_done_def claim_returned_def poll_init_def)
  have "(poll_step ^^ 1) ?s3 ?s4" using s4 unfolding relpowp_1 .
  from shutdown_stops_claiming [OF r3 shape(1) this] shape(2) have s5: "poll_step ?s4 ?s5" by blast
  with s4 have "(poll_step OO poll_step) ?s3 ?s5" by (rule relcomppI)
  then have "(poll_step ^^ 2) ?s3 ?s5" unfolding numeral_2_eq_2 relpowp.simps eq_OO .
  with shape show ?thesis by (intro exI [of _ ?s3] exI [of _ ?s5]) simp
qed

end
