(* ===== verification/SystemTrace.thy ===== *)
theory SystemTrace
  imports SystemInv
begin

section \<open>Steps and runs of the system\<close>

text \<open>
  What one step of \<open>System\<close> does to the lifecycle of each job (a refinement of \<open>JobMachine\<close>), what the charge service can answer a
  worker in a reachable state, and the run that brings a job with attempts left to success from any reachable state.
\<close>

subsection \<open>Every step refines the job machine\<close>

lemma create_charge_jobs:
  assumes "charges_inv db" "create_charge env now i hs body (st, db) = (r, st', db')"
  shows "jobs db' = jobs db" "job_attempts db' = job_attempts db" "db_up db' = db_up db"
  using create_charge_db [OF assms(2)] insert_or_get_preserves [OF assms(1)] by auto

lemma create_charge_evolves:
  assumes "charges_inv db" "create_charge env now i hs body (st, db) = (r, st', db')"
  shows "evolves (abs_db db j) (abs_db db' j)"
  using abs_db_jobs [OF create_charge_jobs(1) [OF assms]] evolves.stays by simp

lemma finalized_db_evolves:
  assumes "db_inv db"
  shows "evolves (abs_db db j) (abs_db (finalized_db (finalize now i t v db) db) j)"
proof (cases "finalize now i t v db")
  case (Inr x)
  obtain b db' where x: "x = (b, db')" by (cases x)
  from finalize_step_evolves [OF assms Inr [unfolded x]] show ?thesis by (simp add: Inr x finalized_db_def)
qed (simp add: finalized_db_def evolves.stays)

lemma flight_frames [simp]:
  "sys_db (replace_flight f st s) = sys_db s" "sys_db (drop_flight f s) = sys_db s"
  "sys_db (start_flights cs s) = sys_db s"
  "sys_chaos (replace_flight f st s) = sys_chaos s" "sys_chaos (drop_flight f s) = sys_chaos s"
  "sys_chaos (start_flights cs s) = sys_chaos s"
  by (simp_all add: replace_flight_def drop_flight_def start_flights_def)

lemma sys_step_evolves:
  assumes "sys_inv lib s" "sys_step lib s s'"
  shows "evolves (abs_db (sys_db s) i) (abs_db (sys_db s') i)"
proof -
  have di: "db_inv (sys_db s)" and ci: "charges_inv (sys_db s)" using assms(1) by (simp_all add: sys_inv_def data_inv_def)
  from assms(2) show ?thesis
  proof cases
    case (submit now j body res db')
    from submit_job_db [OF submit(2)] show ?thesis
    proof
      assume "\<exists>r mx pl. insert_job (ae_jsonb (lib_api lib)) now j (sr_kind body) (sr_payload body) mx (sys_db s) = Inr (r, db') \<and> 1 \<le> mx \<and> mx \<le> 20
        \<and> parse_charge_payload (ae_from_value (lib_api lib)) (sr_payload body) = Inr pl"
      then show ?thesis using insert_job_evolves submit(1) by fastforce
    qed (use submit(1) in \<open>simp add: evolves.stays\<close>)
  next
    case (replay mx now j found db')
    from retry_dead_job_evolves [OF replay(3)] replay(1) show ?thesis by simp
  next
    case (claim tok now locked worker limit lease cs db')
    from claim_evolves [OF di claim(2)] claim_Inr(4) [OF di claim(3)] claim(1) show ?thesis by simp
  next
    case (handled m now new_id r chaos' db')
    from create_charge_evolves [OF ci handled(3) [unfolded handle_request_def]] handled(1) show ?thesis by simp
  next
    case (replied f m now new_id r chaos' db')
    from create_charge_evolves [OF ci replied(5) [unfolded handle_request_def]] replied(1) show ?thesis by simp
  next
    case (renewal f tk now lease b db')
    from renew_lease_evolves [OF di renewal(4)] renewal(1) show ?thesis by (simp add: evolves.stays)
  next
    case (finalized f outcome tk v elapsed rng now)
    from finalized_db_evolves [OF di] finalized(1) show ?thesis by simp
  next
    case (outage up)
    have "abs_db ((sys_db s)\<lparr>db_up := up\<rparr>) = abs_db (sys_db s)" by (rule abs_db_jobs) simp
    with outage show ?thesis by (simp add: evolves.stays)
  next
    case (other_client hs now new_id body r chaos' db')
    from create_charge_evolves [OF ci other_client(3)] other_client(1) show ?thesis by simp
  qed (simp_all add: evolves.stays)
qed

lemma reachable_step: "reachable lib s \<Longrightarrow> sys_step lib s s' \<Longrightarrow> reachable lib s'"
  unfolding reachable_def by (meson rtranclp.rtrancl_into_rtrancl)

lemma reachable_steps:
  assumes "(sys_step lib)\<^sup>*\<^sup>* s s'" "reachable lib s"
  shows "reachable lib s'"
  using assms by (induction rule: rtranclp_induct) (blast intro: reachable_step)+

lemma sys_steps_evolve:
  assumes wire: "wire_ok lib" and steps: "(sys_step lib)\<^sup>*\<^sup>* s s'" and start: "reachable lib s"
  shows "evolves\<^sup>*\<^sup>* (abs_db (sys_db s) i) (abs_db (sys_db s') i)"
  using steps
proof (induction rule: rtranclp_induct)
  case (step y z)
  have "sys_inv lib y" by (rule reachable_inv [OF wire reachable_steps [OF step.hyps(1) start]])
  from sys_step_evolves [OF this step.hyps(2)] step.IH show ?case by (rule rtranclp.rtrancl_into_rtrancl [rotated])
qed simp

subsection \<open>What the charge service answers a worker\<close>

lemma cores_unique:
  assumes "db_inv db" "(i, v) \<in> cores db" "(i, w) \<in> cores db"
  shows "v = w"
proof -
  obtain r s where "r \<in> set (jobs db)" "job_core r = (i, v)" "s \<in> set (jobs db)" "job_core s = (i, w)"
    using assms(2,3) by (force simp: cores_def)
  moreover from this have "r = s" using db_inv_same_id [OF assms(1)] by (simp add: job_core_def)
  ultimately show ?thesis by simp
qed

lemma stored_for_job:
  assumes wire: "wire_ok lib" and inv: "data_inv lib db"
    and core: "(i, v) \<in> cores db" "job_payload lib v = Inr pl" and c: "charge_of (charge_key lib i) db = Some c"
  shows "charge_for pl c"
proof -
  obtain v' pl' where "(i, v') \<in> cores db" "job_payload lib v' = Inr pl'" "charge_for pl' c"
    using inv charge_of_Some [OF c] unfolding data_inv_def by blast
  moreover have "db_inv db" using inv by (simp add: data_inv_def)
  ultimately show ?thesis using cores_unique core by fastforce
qed

lemma job_charge_not_conflict:
  assumes wire: "wire_ok lib" and inv: "data_inv lib db" and core: "(i, v) \<in> cores db" "job_payload lib v = Inr pl"
    and ins: "insert_or_get_charge now c (charge_key lib i) (customer_id pl) (amount_cents pl) (currency pl) db = Inr (out, db')"
  shows "\<exists>x. respond out (charge_key lib i) = Inr x"
proof (cases "charge_of (charge_key lib i) db")
  case None
  with insert_or_get_Inr(4) [OF ins] show ?thesis by (auto simp: respond_def)
next
  case (Some d)
  with stored_for_job [OF wire inv core Some] insert_or_get_Inr(4) [OF ins] show ?thesis
    by (auto simp: respond_def outcome_for_def charge_for_def)
qed

lemma worker_request_answer:
  assumes wire: "wire_ok lib" and inv: "data_inv lib db" and core: "(i, v) \<in> cores db" "job_payload lib v = Inr pl"
    and h: "handle_request lib now new_id (charge_request (lib_worker lib) i pl) (st, db) = (Inl e, st', db')"
  shows "ce_code e = ''INTERNAL'' \<or> ce_code e = ''INJECTED_FAILURE''"
proof -
  let ?m = "charge_request (lib_worker lib) i pl"
  have k: "cp_idempotency_key ?m = charge_key lib i" "cp_body ?m = pl"
    by (simp_all add: charge_request_def charge_key_def)
  note key = received_key [OF wire, of i "cp_request_id ?m"]
  note body = received_body [OF wire core(2)]
  have "respond out (charge_key lib i) \<noteq> Inl e'"
    if "insert_or_get_charge t c (charge_key lib i) (customer_id pl) (amount_cents pl) (currency pl) db = Inr (out, db'')"
    for t c out db'' e'
    using job_charge_not_conflict [OF wire inv core that] by auto
  with h show ?thesis
    by (auto simp: handle_request_def k create_charge_def key body charge_error_codes
        split: prod.splits chaos_decision.splits sum.splits)
qed

lemma worker_request_succeeds:
  assumes wire: "wire_ok lib" and inv: "data_inv lib db" and core: "(i, v) \<in> cores db" "job_payload lib v = Inr pl"
    and up: "db_up db" "mode st = NormalMode" "new_id \<notin> ch_id ` set (charges db)" and texts: "text_ok (customer_id pl)"
  shows "\<exists>x st' db'. handle_request lib now new_id (charge_request (lib_worker lib) i pl) (st, db) = (Inr x, st', db')
    \<and> is_success (fst x) \<and> jobs db' = jobs db \<and> job_attempts db' = job_attempts db \<and> db_up db'"
proof -
  let ?m = "charge_request (lib_worker lib) i pl"
  let ?ins = "insert_or_get_charge now new_id (charge_key lib i) (customer_id pl) (amount_cents pl) (currency pl) db"
  have k: "cp_idempotency_key ?m = charge_key lib i" "cp_body ?m = pl"
    by (simp_all add: charge_request_def charge_key_def)
  have valid: "valid_payload pl" using core(2) by (simp add: job_payload_def parse_charge_payload_ok)
  then have amount: "0 < amount_cents pl" by (simp add: valid_payload_def)
  have fit: "charge_texts_ok (charge_key lib i) (customer_id pl) (currency pl)"
    using texts charge_key_text_ok [OF wire] currency_text_ok [OF valid] by (simp add: charge_texts_ok_def)
  obtain out db' where ins: "?ins = Inr (out, db')"
    using insert_or_get_new [OF fit up(1) amount _ up(3)] insert_or_get_known [OF fit up(1) amount]
    by (cases "charge_of (charge_key lib i) db") (auto simp: Let_def)
  obtain x where "respond out (charge_key lib i) = Inr x" using job_charge_not_conflict [OF wire inv core ins] by blast
  then have "handle_request lib now new_id ?m (st, db) = (Inr x, drop_guard (track_inflight st), db')"
    using received_key [OF wire, of i "cp_request_id ?m"] received_body [OF wire core(2)] up(2) ins
    by (simp add: handle_request_def k create_charge_def decide_normal)
  moreover have "is_success (fst x)"
    using \<open>respond out (charge_key lib i) = Inr x\<close> by (auto simp: respond_def is_success_def split: insert_charge_outcome.splits)
  moreover have "charges_inv db" using inv by (simp add: data_inv_def)
  ultimately show ?thesis using insert_or_get_preserves(2-4) [OF _ ins] up(1) by simp
qed

subsection \<open>The run to success\<close>

text \<open>The job's lease, in the tables, is what its worker holds.\<close>

lemma due_takes_all:
  assumes "db_inv db" "r \<in> set (jobs db)" "claimable now r"
  shows "jid r \<in> claimed_ids now (\<lambda>i. False) (length (jobs db)) db"
proof -
  have "cleaned_row now (\<lambda>i. False) r = r"
    using assms(3) by (auto simp: cleaned_row_def claimable_def exhausted_def)
  then have "r \<in> set (jobs (cleaned_db now (\<lambda>i. False) db))" using assms(2) by force
  moreover have "length (sort_key f (filter P xs)) \<le> length xs" for f :: "'a job_row \<Rightarrow> int \<times> int" and P xs
    by simp
  ultimately have "r \<in> set (due_rows now (\<lambda>i. False) (length (jobs db)) (cleaned_db now (\<lambda>i. False) db))"
    using assms(3) by (simp add: due_rows_def)
  then show ?thesis unfolding claimed_ids_def by (rule imageI)
qed

lemma can_become_claimable:
  assumes "db_inv db" "r \<in> set (jobs db)" "status r \<in> {as_db_str Pending, as_db_str Running}" "attempts r < max_attempts r"
  shows "\<exists>now. claimable now r"
proof (cases "status r = as_db_str Pending")
  case True
  then have "claimable (next_attempt_at r) r" using assms(4) by (simp add: claimable_def due_pending_def)
  then show ?thesis by blast
next
  case False
  then have run: "status r = as_db_str Running" using assms(3) by simp
  then obtain e where "lease_expires_at r = Some e"
    using db_inv_job [OF assms(1,2)] by (auto simp: job_ok_def job_checks_def)
  then have "claimable e r" using run assms(4) by (simp add: claimable_def expired_running_def)
  then show ?thesis by blast
qed

lemma job_core_at:
  "r \<in> set (jobs db) \<Longrightarrow> (jid r, payload r) \<in> cores db"
  by (force simp: cores_def job_core_def)

lemma run_to_post:
  assumes wire: "wire_ok lib" and start: "reachable lib s" and r: "r \<in> set (jobs (sys_db s))"
    and st: "status r \<in> {as_db_str Pending, as_db_str Running}" "attempts r < max_attempts r"
    and fresh: "fresh_tokens tok (sys_db s)" and charge: "charges (sys_db s) = cs"
  shows "\<exists>s' f pl. (sys_step lib)\<^sup>*\<^sup>* s s' \<and> f \<in> set (sys_flights s') \<and> jid (fl_job f) = jid r
    \<and> lease_token (fl_job f) = Some (tok (jid r)) \<and> owns (jid r) (tok (jid r)) (sys_db s') \<and> db_up (sys_db s')
    \<and> mode (sys_chaos s') = NormalMode \<and> charges (sys_db s') = cs
    \<and> job_payload lib (payload (fl_job f)) = Inr pl \<and> fl_stage f = Posted (charge_request (lib_worker lib) (jid r) pl)
    \<and> charge_request (lib_worker lib) (jid r) pl \<in> set (sys_network s')"
proof -
  let ?up = "s\<lparr>sys_db := (sys_db s)\<lparr>db_up := True\<rparr>\<rparr>"
  let ?s1 = "?up\<lparr>sys_chaos := (sys_chaos s)\<lparr>mode := NormalMode\<rparr>\<rparr>"
  let ?db = "sys_db ?s1"
  have up: "sys_step lib s ?up" by (rule sys_step.outage)
  moreover have normal: "sys_step lib ?up ?s1"
    by (rule sys_step.control [where c = CNormal and ok = "Inr True"]) (simp_all add: set_control_def)
  ultimately have s1: "(sys_step lib)\<^sup>*\<^sup>* s ?s1" by (meson converse_rtranclp_into_rtranclp rtranclp.rtrancl_refl)
  have inv1: "sys_inv lib ?s1" by (rule reachable_inv [OF wire reachable_steps [OF s1 start]])
  then have di: "db_inv ?db" by (simp add: sys_inv_def data_inv_def)
  have r1: "r \<in> set (jobs ?db)" using r by simp
  have fresh1: "fresh_tokens tok ?db" using fresh by (simp add: fresh_tokens_def issued_tokens_def)
  obtain now where due: "claimable now r" using can_become_claimable [OF di r1 st] by blast
  let ?n = "length (jobs ?db)" and ?none = "\<lambda>i. False"
  let ?cs = "claimed_jobs now ?none tok ?n (from_secs 30) ?db"
  let ?db2 = "claimed_db now ?none tok ''worker'' ?n (from_secs 30) ?db"
  have "claim_pending_jobs now ?none tok ''worker'' (int ?n) (from_secs 30) ?db = Inr (?cs, ?db2)"
    using claim_result [OF di] by simp
  note claim = sys_step.claim [OF fresh1 this]
  let ?s2 = "start_flights ?cs (?s1\<lparr>sys_db := ?db2\<rparr>)"
  have s2: "(sys_step lib)\<^sup>*\<^sup>* s ?s2" using s1 claim by (rule rtranclp.rtrancl_into_rtrancl)
  have ids: "jid r \<in> claimed_ids now ?none ?n ?db" by (rule due_takes_all [OF di r1 due])
  have own: "owns (jid r) (tok (jid r)) ?db2" by (rule claimed_owner(2) [OF di r1 ids])
  obtain c where c: "c \<in> set ?cs" "jid (cj_job c) = jid r" using claimed_ids_iff [OF di] ids by force
  have tk: "lease_token (cj_job c) = Some (tok (jid r))"
    using claimed_row_before [OF di c(1)] c(2) by (metis claim_row_simps(1,4))
  let ?f = "\<lparr>fl_claim = c, fl_stage = Claimed\<rparr>"
  have f: "?f \<in> set (sys_flights ?s2)" using c(1) by (auto simp: start_flights_def)
  have inv2: "sys_inv lib ?s2" by (rule reachable_inv [OF wire reachable_steps [OF s2 start]])
  have "(jid (fl_job ?f), payload (fl_job ?f)) \<in> cores (sys_db ?s2)"
    using flight_core [OF inv2 f] by (simp add: job_core_def)
  then obtain pl where pl: "job_payload lib (payload (fl_job ?f)) = Inr pl"
    using inv2 by (auto simp: sys_inv_def data_inv_def)
  let ?m = "charge_request (lib_worker lib) (jid (fl_job ?f)) pl"
  note post = sys_step.post [OF f _ pl refl]
  let ?s3 = "replace_flight ?f (Posted ?m) (?s2\<lparr>sys_network := ?m # sys_network ?s2\<rparr>)"
  have "(sys_step lib)\<^sup>*\<^sup>* s ?s3" using s2 post by (simp add: rtranclp.rtrancl_into_rtrancl)
  moreover have "charges ?db2 = cs" using charge by (simp add: claimed_db_charges)
  moreover have "db_up ?db2" using claim_Inr(1) [OF di] by (simp add: claimed_db_def cleaned_db_def close_expired_attempts_def update_attempts_def Let_def)
  ultimately show ?thesis using own c(2) tk pl
    by (intro exI [of _ ?s3] exI [of _ "?f\<lparr>fl_stage := Posted ?m\<rparr>"] exI [of _ pl])
      (simp add: replace_flight_def fl_job_def start_flights_def)
qed

lemma run_from_post:
  assumes wire: "wire_ok lib" "jsonb_texts_ok lib" and start: "reachable lib s" and f: "f \<in> set (sys_flights s)"
    and stage: "fl_stage f = Posted m" "m = charge_request (lib_worker lib) (jid (fl_job f)) pl" "m \<in> set (sys_network s)"
    and pl: "job_payload lib (payload (fl_job f)) = Inr pl"
    and lease: "lease_token (fl_job f) = Some t" "owns (jid (fl_job f)) t (sys_db s)"
    and up: "db_up (sys_db s)" "mode (sys_chaos s) = NormalMode" "new_id \<notin> ch_id ` set (charges (sys_db s))"
  shows "\<exists>s'. (sys_step lib)\<^sup>*\<^sup>* s s' \<and> (\<exists>r' \<in> set (jobs (sys_db s')). jid r' = jid (fl_job f) \<and> status r' = as_db_str Succeeded)"
proof -
  let ?i = "jid (fl_job f)" and ?v = "Success (duration_ms (from_millis 0))"
  note inv = reachable_inv [OF wire(1) start]
  have data: "data_inv lib (sys_db s)" using inv by (simp add: sys_inv_def)
  have core: "(?i, payload (fl_job f)) \<in> cores (sys_db s)" using flight_core [OF inv f] by (simp add: job_core_def)
  have "text_ok (customer_id pl)"
    using data core pl wire(2) by (auto simp: data_inv_def jsonb_texts_ok_def job_payload_def parse_charge_payload_ok)
  with worker_request_succeeds [OF wire(1) data core pl up] stage(2)
  obtain x chaos' db' where h: "handle_request lib 0 new_id m (sys_chaos s, sys_db s) = (Inr x, chaos', db')"
    and ok: "is_success (fst x)" "jobs db' = jobs (sys_db s)" "job_attempts db' = job_attempts (sys_db s)" "db_up db'"
    by blast
  let ?s1 = "replace_flight f (judged lib (wire_reply lib (Inr x))) (s\<lparr>sys_chaos := chaos', sys_db := db'\<rparr>)"
  note s1 = sys_step.replied [OF f stage(1,3) h]
  have j: "judged lib (wire_reply lib (Inr x)) = Judged (Inr ())"
    using judged_cases [of lib "wire_reply lib (Inr x)"] ok(1) by (cases x) (auto simp: wire_reply_def)
  let ?g = "f\<lparr>fl_stage := Judged (Inr ())\<rparr>"
  have job: "fl_job ?g = fl_job f" "fl_stage ?g = Judged (Inr ())" by (simp_all add: fl_job_def)
  have g: "?g \<in> set (sys_flights ?s1)" by (simp add: replace_flight_def j)
  let ?db = "finalized_db (finalize 0 ?i t ?v (sys_db ?s1)) (sys_db ?s1)"
  let ?s2 = "drop_flight ?g (?s1\<lparr>sys_db := ?db\<rparr>)"
  have crash: "?v = crash_verdict (from_millis 0) (Inr ())" by (simp add: crash_verdict_def)
  have s2: "sys_step lib ?s1 ?s2"
    using sys_step.finalized [OF g job(2), of t ?v lib "from_millis 0" undefined 0, unfolded job(1), OF lease(1) disjI2 [OF crash]] .
  have steps: "(sys_step lib)\<^sup>*\<^sup>* s ?s2"
    using s1 s2 by (meson converse_rtranclp_into_rtranclp rtranclp.rtrancl_refl)
  have di: "db_inv (sys_db ?s1)"
    using reachable_inv [OF wire(1) reachable_step [OF start s1]] by (simp add: sys_inv_def data_inv_def)
  have own: "owns ?i t (sys_db ?s1)" using lease(2) ok(2) by (simp add: owns_def)
  have db: "?db = verdict_db 0 ?i t ?v (sys_db ?s1)"
    using finalize_owned [OF di own, of ?v 0] ok(4) by (simp add: finalized_db_def)
  obtain r where r: "r \<in> set (jobs (sys_db ?s1))" "holds_lease ?i t r" using own by (auto simp: owns_def)
  then have "verdict_row 0 ?v r \<in> set (jobs ?db)" unfolding db by force
  moreover have "jid (verdict_row 0 ?v r) = ?i" "status (verdict_row 0 ?v r) = as_db_str Succeeded"
    using r(2) by (simp_all add: succeed_row_def holds_lease_def)
  ultimately have "\<exists>r' \<in> set (jobs (sys_db ?s2)). jid r' = ?i \<and> status r' = as_db_str Succeeded"
    by (intro bexI [of _ "verdict_row 0 ?v r"]) simp_all
  with steps show ?thesis by blast
qed

end
