(* ===== verification/BenchResult.thy ===== *)
theory BenchResult
  imports Bench "HOL-Library.Char_ord" "HOL-Library.List_Lexorder" "HOL-Library.Product_Lexorder"
begin

section \<open>Results of benchmark runs: reliableq-bench, result.rs\<close>

text \<open>
  The record of a run (\<open>src/crates/reliableq-bench/src/result.rs\<close>), the path its file is written to, and the loading of all files of a
  directory. The operations of \<open>serde_json::Value\<close> that the sources use (\<open>rl_json\<close> is \<open>json!\<close> of an object) and the shortest printing of an \<open>f64\<close> are the parameters
  \<open>report_lib\<close>; formatting with a precision (\<open>{:.1}\<close>) is written out. \<open>f64\<close> values are exact rationals, \<open>u32\<close> and \<open>u64\<close> values
  that are only copied and printed are natural numbers.
\<close>

datatype json_item =
    JBool bool
  | JNat nat
  | JInt int
  | JRat rat
  | JRatOption "rat option"
  | JStr string
  | JPercentiles latency_percentiles
  | JIntOption "int option"
  | JObject "(string \<times> json_item) list"
  | JArray "json_item list"

record 'j report_lib =
  rl_json :: "(string \<times> json_item) list \<Rightarrow> 'j"
  rl_get :: "'j \<Rightarrow> string \<Rightarrow> 'j option"
  rl_null :: 'j
  rl_as_f64 :: "'j \<Rightarrow> rat option"
  rl_as_u64 :: "'j \<Rightarrow> nat option"
  rl_as_str :: "'j \<Rightarrow> string option"
  rl_as_array :: "'j \<Rightarrow> 'j list option"
  rl_entries :: "'j \<Rightarrow> (string \<times> 'j) list option"
  rl_text :: "'j \<Rightarrow> string"
  rl_show_f64 :: "rat \<Rightarrow> string"

subsection \<open>Formatting\<close>

definition round_half_even :: "rat \<Rightarrow> int" where
  "round_half_even q =
     (let f = floor q; r = q - of_int f
      in if r < 1 / 2 then f else if 1 / 2 < r then f + 1 else if even f then f else f + 1)"

definition pad_zeros :: "nat \<Rightarrow> string \<Rightarrow> string" where
  "pad_zeros w s = replicate (w - length s) CHR ''0'' @ s"

definition format_fixed :: "nat \<Rightarrow> rat \<Rightarrow> string" where
  "format_fixed d q =
     (let n = nat (round_half_even (\<bar>q\<bar> * 10 ^ d))
      in (if q < 0 then ''-'' else '''') @ show_nat (n div 10 ^ d)
         @ (if d = 0 then '''' else ''.'' @ pad_zeros d (show_nat (n mod 10 ^ d))))"

definition format_signed :: "nat \<Rightarrow> rat \<Rightarrow> string" where
  "format_signed d q = (if q < 0 then '''' else ''+'') @ format_fixed d q"

subsection \<open>The record of a run\<close>

record throughput =
  tp_unit :: string
  tp_value :: rat

record error_counts =
  ec_http_errors :: nat
  ec_timeouts :: nat
  ec_other :: nat

record resource_sample =
  rs_cpu_pct_avg :: "rat option"
  rs_cpu_pct_peak :: "rat option"
  rs_rss_bytes_peak :: "nat option"
  rs_note :: "string option"

record resource_measurements =
  rm_api :: "resource_sample option"
  rm_worker :: "resource_sample option"
  rm_fake_charge :: "resource_sample option"
  rm_postgres :: "resource_sample option"

record 'j correctness_results =
  cr_passed :: bool
  cr_checks :: 'j
  cr_failures :: "string list"

datatype run_status = RunOk | RunInterrupted | RunFailed

record 'j env_info =
  ei_git_commit :: string
  ei_git_dirty :: bool
  ei_rust_version :: string
  ei_os :: string
  ei_os_version :: string
  ei_architecture :: string
  ei_cpu_model :: "string option"
  ei_logical_cpu_count :: nat
  ei_memory_bytes :: "nat option"
  ei_docker_version :: "string option"
  ei_postgres_version :: "string option"
  ei_postgres_configuration :: 'j

record 'j run_result =
  rr_schema_version :: nat
  rr_timestamp_utc :: timestamp
  rr_scenario :: string
  rr_scenario_params :: 'j
  rr_run_number :: nat
  rr_status :: run_status
  rr_git_commit :: string
  rr_git_dirty :: bool
  rr_rust_version :: string
  rr_build_profile :: string
  rr_os :: string
  rr_os_version :: string
  rr_architecture :: string
  rr_cpu_model :: "string option"
  rr_logical_cpu_count :: nat
  rr_memory_bytes :: "nat option"
  rr_docker_version :: "string option"
  rr_postgres_version :: "string option"
  rr_postgres_configuration :: 'j
  rr_api_process_count :: nat
  rr_worker_process_count :: nat
  rr_worker_concurrency :: nat
  rr_claim_batch_size :: int
  rr_database_pool_sizes :: 'j
  rr_lease_duration_secs :: rat
  rr_heartbeat_interval_secs :: rat
  rr_retry_configuration :: 'j
  rr_fake_charge_latency_ms :: nat
  rr_fake_charge_failure_mode :: string
  rr_job_count :: nat
  rr_warmup_duration_secs :: "rat option"
  rr_measurement_duration_secs :: rat
  rr_throughput :: throughput
  rr_latency_percentiles :: latency_percentiles
  rr_error_counts :: error_counts
  rr_resource_measurements :: resource_measurements
  rr_correctness_results :: "'j correctness_results"
  rr_extra :: 'j

text \<open>What \<open>run_gate\<close> returns as the record of a run.\<close>

definition gate_item :: "gate_value \<Rightarrow> json_item" where
  "gate_item v = (case v of BoolValue b \<Rightarrow> JBool b | NumberValue n \<Rightarrow> JNat n)"

definition gate_correctness :: "'j report_lib \<Rightarrow> gate_results \<Rightarrow> 'j correctness_results" where
  "gate_correctness lib g =
     \<lparr>cr_passed = gr_passed g, cr_checks = rl_json lib (map (\<lambda>(k, v). (k, gate_item v)) (gr_checks g)),
      cr_failures = gr_failures g\<rparr>"

definition default_error_counts :: error_counts where
  "default_error_counts = \<lparr>ec_http_errors = 0, ec_timeouts = 0, ec_other = 0\<rparr>"

definition default_resources :: resource_measurements where
  "default_resources = \<lparr>rm_api = None, rm_worker = None, rm_fake_charge = None, rm_postgres = None\<rparr>"

definition base_run ::
    "'j report_lib \<Rightarrow> timestamp \<Rightarrow> 'j env_info \<Rightarrow> string \<Rightarrow> 'j \<Rightarrow> nat \<Rightarrow> 'j run_result" where
  "base_run lib now env scenario params run_number =
     \<lparr>rr_schema_version = 1, rr_timestamp_utc = now, rr_scenario = scenario, rr_scenario_params = params,
      rr_run_number = run_number, rr_status = RunOk, rr_git_commit = ei_git_commit env,
      rr_git_dirty = ei_git_dirty env, rr_rust_version = ei_rust_version env, rr_build_profile = ''release'',
      rr_os = ei_os env, rr_os_version = ei_os_version env, rr_architecture = ei_architecture env,
      rr_cpu_model = ei_cpu_model env, rr_logical_cpu_count = ei_logical_cpu_count env,
      rr_memory_bytes = ei_memory_bytes env, rr_docker_version = ei_docker_version env,
      rr_postgres_version = ei_postgres_version env, rr_postgres_configuration = ei_postgres_configuration env,
      rr_api_process_count = 0, rr_worker_process_count = 0, rr_worker_concurrency = 0, rr_claim_batch_size = 0,
      rr_database_pool_sizes = rl_null lib, rr_lease_duration_secs = 0, rr_heartbeat_interval_secs = 0,
      rr_retry_configuration = rl_null lib, rr_fake_charge_latency_ms = 0, rr_fake_charge_failure_mode = ''normal'',
      rr_job_count = 0, rr_warmup_duration_secs = None, rr_measurement_duration_secs = 0,
      rr_throughput = \<lparr>tp_unit = ''jobs_per_sec'', tp_value = 0\<rparr>,
      rr_latency_percentiles = empty_percentiles ''ms'', rr_error_counts = default_error_counts,
      rr_resource_measurements = default_resources,
      rr_correctness_results = \<lparr>cr_passed = False, cr_checks = rl_null lib, cr_failures = [''not yet run'']\<rparr>,
      rr_extra = rl_null lib\<rparr>"

subsection \<open>The file of a run\<close>

text \<open>
  \<open>char::is_ascii_alphanumeric\<close>; \<open>chars()\<close> goes over Unicode characters, each of which is one byte that does not continue a UTF-8
  sequence and its continuation bytes.
\<close>

definition ascii_alphanumeric :: "char \<Rightarrow> bool" where
  "ascii_alphanumeric c \<longleftrightarrow>
     CHR ''0'' \<le> c \<and> c \<le> CHR ''9'' \<or> CHR ''A'' \<le> c \<and> c \<le> CHR ''Z'' \<or> CHR ''a'' \<le> c \<and> c \<le> CHR ''z''"

definition utf8_continuation :: "char \<Rightarrow> bool" where
  "utf8_continuation c \<longleftrightarrow> CHR 0x80 \<le> c \<and> c < CHR 0xC0"

definition sanitize :: "string \<Rightarrow> string" where
  "sanitize s =
     map (\<lambda>c. if ascii_alphanumeric c \<or> c = CHR ''-'' \<or> c = CHR ''_'' then c else CHR ''_'')
       (filter (\<lambda>c. \<not> utf8_continuation c) s)"

definition trim_matches_quote :: "string \<Rightarrow> string" where
  "trim_matches_quote s = rev (dropWhile (\<lambda>c. c = CHR 0x22) (rev (dropWhile (\<lambda>c. c = CHR 0x22) s)))"

definition join :: "string \<Rightarrow> string list \<Rightarrow> string" where
  "join sep parts = concat (case parts of [] \<Rightarrow> [] | p # ps \<Rightarrow> p # map (\<lambda>x. sep @ x) ps)"

definition params_fragment :: "'j report_lib \<Rightarrow> 'j \<Rightarrow> string" where
  "params_fragment lib params =
     (case rl_entries lib params of
        Some entries \<Rightarrow> join '','' (map (\<lambda>(k, v). k @ ''='' @ trim_matches_quote (rl_text lib v)) entries)
      | None \<Rightarrow> if params = rl_null lib then ''default'' else rl_text lib params)"

text \<open>The path as the segments below the output directory; \<open>show_time\<close> is the \<open>strftime\<close> format of the file name.\<close>

definition run_file :: "'j report_lib \<Rightarrow> (timestamp \<Rightarrow> string) \<Rightarrow> 'j run_result \<Rightarrow> string list" where
  "run_file lib show_time run =
     [sanitize (rr_scenario run), sanitize (params_fragment lib (rr_scenario_params run)),
      show_time (rr_timestamp_utc run) @ ''-run'' @ show_nat (rr_run_number run) @ ''.json'']"

datatype dir_entry = FileEntry string | DirEntry string "dir_entry list"

text \<open>\<open>Path::extension\<close>: what follows the last dot, unless the name starts with it or has none.\<close>

definition file_extension :: "string \<Rightarrow> string option" where
  "file_extension name =
     (let stem = rev (dropWhile (\<lambda>c. c \<noteq> CHR ''.'') (rev name))
      in if length stem \<le> 1 \<or> name = ''..'' then None else Some (drop (length stem) name))"

fun walk_json_files :: "string list \<Rightarrow> dir_entry list \<Rightarrow> string list list" where
  "walk_json_files dir [] = []"
| "walk_json_files dir (DirEntry name entries # rest) =
     walk_json_files (dir @ [name]) entries @ walk_json_files dir rest"
| "walk_json_files dir (FileEntry name # rest) =
     (if file_extension name = Some ''json'' then [dir @ [name]] else []) @ walk_json_files dir rest"

text \<open>Reading a file may fail, which ends the loading; a file that is not a run is skipped.\<close>

fun load_files ::
    "(string list \<Rightarrow> 'e + string) \<Rightarrow> (string \<Rightarrow> 'j run_result option) \<Rightarrow> string list list \<Rightarrow> 'e + 'j run_result list" where
  "load_files read parse [] = Inr []"
| "load_files read parse (f # fs) =
     bind_res (read f) (\<lambda>raw.
     bind_res (load_files read parse fs) (\<lambda>out.
     Inr (case parse raw of Some run \<Rightarrow> run # out | None \<Rightarrow> out)))"

definition load_all ::
    "(string list \<Rightarrow> 'e + string) \<Rightarrow> (string \<Rightarrow> 'j run_result option) \<Rightarrow> string list \<Rightarrow> dir_entry list option
       \<Rightarrow> 'e + 'j run_result list" where
  "load_all read parse results_dir contents =
     (case contents of None \<Rightarrow> Inr [] | Some entries \<Rightarrow> load_files read parse (walk_json_files results_dir entries))"

end
