(* ===== verification/BenchReport.thy ===== *)
theory BenchReport
  imports BenchResult
begin

section \<open>The published report: reliableq-bench, report.rs\<close>

text \<open>
  \<open>src/crates/reliableq-bench/src/report.rs\<close>: the grouping of runs and the text of \<open>results.md\<close>. A function that writes to the Rust
  \<open>md: &mut String\<close> returns the text it appends; a \<open>BTreeMap\<close> is a list sorted by key. A Rust line \<open>writeln!(md, ..)\<close> is
  \<open>writeln\<close> of the pieces of its format string and the formatted arguments. Of the drawing (plotters) a
  chart is what it is told to draw, and its file name.
\<close>

definition nl :: string where
  "nl = [CHR 0x0A]"

definition em_dash :: string where
  "em_dash = [CHR 0xE2, CHR 0x80, CHR 0x94]"

definition writeln :: "string list \<Rightarrow> string" where
  "writeln pieces = concat pieces @ nl"

subsection \<open>Grouping\<close>

text \<open>\<open>map.entry(key).or_default().push(x)\<close>.\<close>

fun btree_push :: "'k::linorder \<Rightarrow> 'a \<Rightarrow> ('k \<times> 'a list) list \<Rightarrow> ('k \<times> 'a list) list" where
  "btree_push k x [] = [(k, [x])]"
| "btree_push k x ((k', xs) # m) =
     (if k < k' then (k, [x]) # (k', xs) # m
      else if k = k' then (k', xs @ [x]) # m
      else (k', xs) # btree_push k x m)"

record 'j group =
  gp_scenario :: string
  gp_params :: string
  gp_runs :: "'j run_result list"

definition run_key :: "'j report_lib \<Rightarrow> 'j run_result \<Rightarrow> string \<times> string" where
  "run_key lib run = (rr_scenario run, rl_text lib (rr_scenario_params run))"

definition group_runs :: "'j report_lib \<Rightarrow> 'j run_result list \<Rightarrow> 'j group list" where
  "group_runs lib runs =
     map (\<lambda>((scenario, params), rs). \<lparr>gp_scenario = scenario, gp_params = params, gp_runs = rs\<rparr>)
       (fold (\<lambda>run m. btree_push (run_key lib run) run m) runs [])"

type_synonym 'j scenarios = "(string \<times> 'j group list) list"

definition group_scenarios :: "'j group list \<Rightarrow> 'j scenarios" where
  "group_scenarios groups = fold (\<lambda>g m. btree_push (gp_scenario g) g m) groups []"

subsection \<open>Numbers\<close>

definition mean :: "rat list \<Rightarrow> rat" where
  "mean values = (if values = [] then 0 else sum_list values / of_nat (length values))"

definition fmt_opt :: "rat option \<Rightarrow> string" where
  "fmt_opt v = (case v of Some x \<Rightarrow> format_fixed 1 x | None \<Rightarrow> ''n/a'')"

definition filter_map :: "('a \<Rightarrow> 'b option) \<Rightarrow> 'a list \<Rightarrow> 'b list" where
  "filter_map f xs = concat (map (\<lambda>x. case f x of None \<Rightarrow> [] | Some y \<Rightarrow> [y]) xs)"

definition mean_opt :: "rat list \<Rightarrow> rat option" where
  "mean_opt values = (if values = [] then None else Some (mean values))"

definition extra_f64 :: "'j report_lib \<Rightarrow> 'j run_result \<Rightarrow> string \<Rightarrow> rat option" where
  "extra_f64 lib run key = Option.bind (rl_get lib (rr_extra run) key) (rl_as_f64 lib)"

definition group_mean_throughput :: "'j group \<Rightarrow> rat" where
  "group_mean_throughput g = mean (map (\<lambda>r. tp_value (rr_throughput r)) (gp_runs g))"

definition param_f64 :: "'j report_lib \<Rightarrow> 'j group \<Rightarrow> string \<Rightarrow> rat option" where
  "param_f64 lib g key = Option.bind (rl_get lib (rr_scenario_params (hd (gp_runs g))) key) (rl_as_f64 lib)"

subsection \<open>The sections that \<open>generate\<close> writes itself\<close>

definition opt_or :: "string \<Rightarrow> string option \<Rightarrow> string" where
  "opt_or d v = (case v of Some x \<Rightarrow> x | None \<Rightarrow> d)"

definition header_text :: "nat \<Rightarrow> nat \<Rightarrow> string" where
  "header_text total_raw dirty_count =
     writeln [''# ReliableQ Benchmark Results'', nl]
     @ writeln [''Generated by `reliableq-bench report` from '', show_nat total_raw,
          '' raw run file(s) under `benchmarks/results/` ('', show_nat dirty_count,
          '' excluded for a dirty worktree). Every number below comes from that raw data '', em_dash,
          '' nothing here is hand-typed. See [`docs/benchmarking/design.md`](design.md) for methodology, '',
          ''workload model, and known noise sources.'', nl]
     @ writeln [''**These are local-machine benchmarks, not universal capacity claims** '', em_dash,
          '' see design.md sec. 8 for the specific environment and its known sources of noise.'', nl]"

definition environment_text :: "'j run_result \<Rightarrow> string" where
  "environment_text env_run =
     writeln [''## Environment'', nl] @ writeln [''| Field | Value |''] @ writeln [''|---|---|'']
     @ writeln [''| Git commit | `'', rr_git_commit env_run, ''` |'']
     @ writeln [''| Rust | '', rr_rust_version env_run, '' |'']
     @ writeln [''| OS | '', rr_os env_run, '' '', rr_os_version env_run, '' ('', rr_architecture env_run, '') |'']
     @ writeln [''| CPU | '', opt_or ''unavailable'' (rr_cpu_model env_run), '' |'']
     @ writeln [''| Logical CPUs | '', show_nat (rr_logical_cpu_count env_run), '' |'']
     @ writeln [''| Memory | '',
          opt_or ''unavailable'' (map_option (\<lambda>b. format_fixed 1 (of_nat b / 1024 / 1024 / 1024) @ '' GiB'') (rr_memory_bytes env_run)),
          '' |'']
     @ writeln [''| Docker | '', opt_or ''unavailable'' (rr_docker_version env_run), '' |'']
     @ writeln [''| PostgreSQL | '', opt_or ''unavailable'' (rr_postgres_version env_run), '' |'']
     @ writeln [''| Build profile | '', rr_build_profile env_run, '' |'', nl]"

definition run_passed :: "'j run_result \<Rightarrow> bool" where
  "run_passed r = cr_passed (rr_correctness_results r)"

definition failed_run_line :: "'j report_lib \<Rightarrow> 'j run_result \<Rightarrow> string" where
  "failed_run_line lib run =
     writeln [''- `'', rr_scenario run, ''` params `'', rl_text lib (rr_scenario_params run), ''` run '',
          show_nat (rr_run_number run), '': '', join ''; '' (cr_failures (rr_correctness_results run))]"

definition gate_text :: "'j report_lib \<Rightarrow> 'j run_result list \<Rightarrow> string" where
  "gate_text lib clean_runs =
     (let total_runs = length clean_runs; failed_runs = filter (\<lambda>r. \<not> run_passed r) clean_runs
      in writeln [''## Correctness gate'', nl]
         @ writeln [show_nat (total_runs - length failed_runs), ''/'', show_nat total_runs,
          '' runs passed every correctness check (docs/benchmarking/design.md sec. 7). Any run below with a '',
          ''failed gate has its performance numbers reported but **must not** be read as valid '', em_dash,
          '' see `correctness_results.failures` in its raw JSON.'', nl]
         @ (if failed_runs \<noteq> []
            then writeln [''**Failed-gate runs:**'', nl] @ concat (map (failed_run_line lib) failed_runs) @ writeln []
            else ''''))"

definition scenario_note :: "string \<Rightarrow> string" where
  "scenario_note scenario =
     (if scenario = ''crash_recovery_failpoint'' then
        writeln [''> This is a recovery benchmark. Throughput is included as raw context, but it is not a useful '',
          ''capacity metric. The latency columns measure attempt-one start to attempt-two start (the '',
          ''crash-to-reclaim gap).'', nl]
      else if scenario = ''crash_recovery_real_kill'' then
        writeln [''> This is a recovery benchmark. Read recovery duration, lease timing, and correctness'', em_dash,
          ''not jobs/sec'', em_dash,
          ''as its result. The latency columns are end-to-end job latency for the small recovery workload.'', nl]
      else if scenario = ''idempotency_contention'' then
        writeln [''> Each point is a short burst containing only `concurrency` requests against one shared key. At '',
          ''the smallest sizes, startup and scheduling noise dominate, so these points verify contention '',
          ''safety and latency; they are not a monotonic service-scaling curve.'', nl]
      else '''')"

definition result_row :: "'j group \<Rightarrow> string" where
  "result_row g =
     (let throughputs = map (\<lambda>r. tp_value (rr_throughput r)) (gp_runs g);
          p50s = filter_map (\<lambda>r. lp_p50 (rr_latency_percentiles r)) (gp_runs g);
          p95s = filter_map (\<lambda>r. lp_p95 (rr_latency_percentiles r)) (gp_runs g);
          p99s = filter_map (\<lambda>r. lp_p99 (rr_latency_percentiles r)) (gp_runs g);
          maxs = filter_map (\<lambda>r. lp_max (rr_latency_percentiles r)) (gp_runs g);
          all_pass = list_all run_passed (gp_runs g)
      in writeln [''| `'', gp_params g, ''` | '', show_nat (length (gp_runs g)), '' | '', format_fixed 1 (mean throughputs),
          '' | '', fmt_opt (mean_opt p50s), '' | '', fmt_opt (mean_opt p95s), '' | '', fmt_opt (mean_opt p99s), '' | '',
          fmt_opt (mean_opt maxs), '' | '', if all_pass then ''pass'' else ''**FAIL**'', '' |''])"

definition scenario_table :: "string \<times> 'j group list \<Rightarrow> string" where
  "scenario_table entry =
     (case entry of (scenario, groups) \<Rightarrow>
        writeln [''### `'', scenario, ''`'', nl]
        @ scenario_note scenario
        @ writeln [''| Params | Runs | Throughput ('', tp_unit (rr_throughput (hd (gp_runs (hd groups)))),
          '') | p50 (ms) | p95 (ms) | p99 (ms) | Max (ms) | Correctness |'']
        @ writeln [''|---|---|---|---|---|---|---|---|'']
        @ concat (map result_row groups)
        @ writeln [])"

definition reproduction_text :: string where
  "reproduction_text =
     writeln [''## Reproduction'', nl]
     @ writeln [''```bash'', nl, ''make up && make migrate'', nl, ''cargo build --workspace --release'', nl,
          ''make bench-quick   # or: make bench-full'', nl, ''make bench-report'', nl, ''```'', nl]
     @ writeln [''Raw results live under `benchmarks/results/<scenario>/<params>/`. Regenerate this file and its '',
          ''charts from that raw data alone with `make bench-report` '', em_dash,
          '' nothing in this document is hand-edited.'']"

end
