(* ===== verification/BenchAnalysis.thy ===== *)
theory BenchAnalysis
  imports BenchReport
begin

section \<open>The analysis in the report: reliableq-bench, report.rs\<close>

text \<open>
  The sections of \<open>src/crates/reliableq-bench/src/report.rs\<close> that draw conclusions from the grouped runs: the executive summary, the
  analysis with the saturation point, the limitations and the points of the charts; and \<open>generate\<close>, which puts the document together.
\<close>

subsection \<open>Iterator operations\<close>

text \<open>\<open>Iterator::reduce\<close>; \<open>max_by\<close> keeps the last of equal elements; \<open>slice::windows(2)\<close>; \<open>find_map\<close>.\<close>

fun reduce :: "('a \<Rightarrow> 'a \<Rightarrow> 'a) \<Rightarrow> 'a list \<Rightarrow> 'a option" where
  "reduce f [] = None"
| "reduce f (x # xs) = Some (foldl f x xs)"

definition max_by :: "('a \<Rightarrow> rat) \<Rightarrow> 'a list \<Rightarrow> 'a option" where
  "max_by f xs = reduce (\<lambda>x y. if f y < f x then x else y) xs"

fun windows2 :: "'a list \<Rightarrow> ('a \<times> 'a) list" where
  "windows2 (x # y # xs) = (x, y) # windows2 (y # xs)"
| "windows2 xs = []"

fun find_map :: "('a \<Rightarrow> 'b option) \<Rightarrow> 'a list \<Rightarrow> 'b option" where
  "find_map f [] = None"
| "find_map f (x # xs) = (case f x of Some y \<Rightarrow> Some y | None \<Rightarrow> find_map f xs)"

definition trim_end_matches :: "string \<Rightarrow> string \<Rightarrow> string" where
  "trim_end_matches pat s = rev (strip_all [rev pat] (rev s))"

definition opt_f64 :: "rat \<Rightarrow> rat option \<Rightarrow> rat" where
  "opt_f64 d v = (case v of Some x \<Rightarrow> x | None \<Rightarrow> d)"

definition max_nat :: "nat list \<Rightarrow> nat" where
  "max_nat xs = fold max xs 0"

definition for_scenario :: "'j scenarios \<Rightarrow> string \<Rightarrow> ('j group list \<Rightarrow> string) \<Rightarrow> string" where
  "for_scenario by_scenario name f = (case map_of by_scenario name of None \<Rightarrow> '''' | Some groups \<Rightarrow> f groups)"

definition zero_latency :: "'j report_lib \<Rightarrow> 'j group list \<Rightarrow> 'j group list" where
  "zero_latency lib groups = filter (\<lambda>g. param_f64 lib g ''downstream_latency_ms'' = Some 0) groups"

definition throughput_points :: "'j report_lib \<Rightarrow> string \<Rightarrow> 'j group list \<Rightarrow> (rat \<times> rat) list" where
  "throughput_points lib key groups =
     sort_key fst (filter_map (\<lambda>g. map_option (\<lambda>p. (p, group_mean_throughput g)) (param_f64 lib g key)) groups)"

definition mean_extra :: "'j report_lib \<Rightarrow> string \<Rightarrow> 'j group \<Rightarrow> rat" where
  "mean_extra lib key g = mean (filter_map (\<lambda>r. extra_f64 lib r key) (gp_runs g))"

subsection \<open>Executive summary\<close>

definition summary_ingestion :: "'j group list \<Rightarrow> string" where
  "summary_ingestion groups =
     (case max_by group_mean_throughput groups of
        None \<Rightarrow> ''''
      | Some g \<Rightarrow> writeln [''- **Ingestion** (API + PostgreSQL insert only, zero workers) peaked at '',
          format_fixed 0 (group_mean_throughput g), '' committed submissions/sec at `'', gp_params g, ''`.''])"

definition summary_execution :: "'j report_lib \<Rightarrow> 'j group list \<Rightarrow> string" where
  "summary_execution lib groups =
     (case max_by group_mean_throughput (zero_latency lib groups) of
        None \<Rightarrow> ''''
      | Some best \<Rightarrow>
          writeln [''- **Execution overhead** (0ms downstream) peaked at '', format_fixed 0 (group_mean_throughput best),
          '' jobs/sec at `'', gp_params best, ''` '', em_dash,
          '' this is ReliableQ's own claim/execute/finalize machinery, not the downstream.''])"

definition amplification_rates :: "'j report_lib \<Rightarrow> 'j group list \<Rightarrow> (rat \<times> rat) list" where
  "amplification_rates lib groups =
     filter_map (\<lambda>g. map_option (\<lambda>rate. (rate, mean_extra lib ''retry_amplification'' g))
                      (param_f64 lib g ''transient_failure_rate'')) groups"

definition worst_amplification :: "(rat \<times> rat) list \<Rightarrow> (rat \<times> rat) option" where
  "worst_amplification rates =
     foldl (\<lambda>acc (r, a). case acc of
                Some (best_r, best_a) \<Rightarrow> if a \<le> best_a then acc else Some (r, a)
              | None \<Rightarrow> Some (r, a)) None rates"

definition summary_retry :: "'j report_lib \<Rightarrow> 'j group list \<Rightarrow> string" where
  "summary_retry lib groups =
     (case worst_amplification (amplification_rates lib groups) of
        None \<Rightarrow> ''''
      | Some (rate, amp) \<Rightarrow>
          writeln [''- **Retry amplification** ranged up to '', format_fixed 2 amp, '' attempts per logical job at a '',
          format_fixed 0 (rate * 100),
          ''% transient failure rate (see the retry_degradation table and chart for the full curve).''])"

definition summary_recovery :: "'j report_lib \<Rightarrow> 'j group list \<Rightarrow> string" where
  "summary_recovery lib groups =
     (case groups of
        [] \<Rightarrow> ''''
      | g # rest \<Rightarrow>
          writeln [''- A **real `kill -9`** of a live worker recovered in '',
          format_fixed 1 (mean_extra lib ''total_recovery_time_secs'' g),
          ''s on average (lease duration 5s) with zero duplicate charges across every repeat.''])"

definition executive_summary :: "'j report_lib \<Rightarrow> 'j run_result list \<Rightarrow> 'j scenarios \<Rightarrow> string" where
  "executive_summary lib clean_runs by_scenario =
     (let total = length clean_runs; passed = length (filter run_passed clean_runs)
      in writeln [''## Executive summary'', nl]
         @ writeln [show_nat total, '' runs across '', show_nat (length by_scenario), '' scenarios, '', show_nat passed, ''/'',
          show_nat total,
          '' passing every correctness check (docs/benchmarking/design.md sec. 7). No single number below '',
          ''stands in for the whole system '', em_dash,
          '' read this alongside the per-scenario tables and charts, not instead of them.'', nl]
         @ for_scenario by_scenario ''ingestion'' summary_ingestion
         @ for_scenario by_scenario ''execution'' (summary_execution lib)
         @ for_scenario by_scenario ''retry_degradation'' (summary_retry lib)
         @ for_scenario by_scenario ''crash_recovery_real_kill'' (summary_recovery lib)
         @ writeln [])"

subsection \<open>Saturation point\<close>

definition marginal_gain :: "(rat \<times> rat) \<times> (rat \<times> rat) \<Rightarrow> rat" where
  "marginal_gain w =
     (case w of ((prev_c, prev_t), (c, t)) \<Rightarrow> if 0 < prev_t then (t - prev_t) / prev_t else 0)"

definition saturation_step :: "(rat \<times> rat) \<times> (rat \<times> rat) \<Rightarrow> string \<times> rat option \<Rightarrow> string \<times> rat option" where
  "saturation_step w acc =
     (case (w, acc) of (((prev_c, prev_t), (c, t)), (narrative, saturation_point)) \<Rightarrow>
        (narrative @
           concat [''concurrency '', format_fixed 0 prev_c, ''->'', format_fixed 0 c, '': '', format_fixed 0 prev_t, ''->'',
          format_fixed 0 t, '' jobs/sec ('', format_signed 0 (marginal_gain w * 100), ''%); ''],
         if marginal_gain w < 15 / 100 \<and> saturation_point = None then Some prev_c else saturation_point))"

definition saturation :: "(rat \<times> rat) list \<Rightarrow> string \<times> rat option" where
  "saturation points = fold saturation_step (windows2 points) ('''', None)"

definition analysis_saturation :: "'j report_lib \<Rightarrow> 'j group list \<Rightarrow> string" where
  "analysis_saturation lib groups =
     (let points = throughput_points lib ''worker_concurrency'' (zero_latency lib groups)
      in writeln [''### Throughput vs. concurrency and saturation point'', nl]
         @ (if 2 \<le> length points
            then (case saturation points of (narrative, saturation_point) \<Rightarrow>
                    writeln [trim_end_matches ''; '' narrative, nl]
                    @ (case saturation_point of
                         Some c \<Rightarrow>
                           writeln [''Marginal throughput gain from added concurrency drops below 15% past **worker concurrency '', format_fixed 0 c,
          ''** in one worker process at 0ms downstream latency on this machine '', em_dash,
          '' consistent with claim/finalize transaction overhead (not the downstream) becoming the '',
          ''bottleneck. Treat this as a local, 8-logical-CPU-laptop number, not a universal ceiling.'', nl]
                       | None \<Rightarrow>
                           writeln [''Throughput kept scaling with concurrency through the whole tested range without a clear knee '', em_dash,
          '' the tested range did not reach this machine's actual saturation point.'', nl]))
            else ''''))"

subsection \<open>The other analyses\<close>

definition analysis_claim_batch :: "'j report_lib \<Rightarrow> 'j group list \<Rightarrow> string" where
  "analysis_claim_batch lib groups =
     (let points = throughput_points lib ''batch_size'' groups
      in writeln [''### Claim-batch sensitivity'', nl]
         @ (case (reduce (\<lambda>a b. if snd a < snd b then a else b) points,
                  reduce (\<lambda>a b. if snd b < snd a then a else b) points) of
              (Some mn, Some mx) \<Rightarrow>
                writeln [''Batch size '', format_fixed 0 (fst mn), '' was slowest ('', format_fixed 0 (snd mn),
          '' jobs/sec) and batch size '', format_fixed 0 (fst mx), '' was fastest ('', format_fixed 0 (snd mx),
          '' jobs/sec) in this run '', em_dash,
          '' batching more due-jobs per claim transaction amortizes transaction overhead, but this driver '',
          ''bypasses the compiled worker binary's own hardcoded batch cap (see docs/benchmarking/design.md '',
          ''sec. 2), so treat this as evidence about the claim/execute pipeline's shape, not the shipped '',
          ''binary's throughput.'', nl]
            | _ \<Rightarrow> ''''))"

definition backlog_line :: "'j report_lib \<Rightarrow> 'j group \<Rightarrow> string" where
  "backlog_line lib g =
     writeln [''- A '', format_fixed 0 (opt_f64 0 (param_f64 lib g ''backlog_size'')),
          ''-job backlog (workers started cold, no preexisting in-flight work) drained in '',
          format_fixed 1 (mean (map rr_measurement_duration_secs (gp_runs g))), ''s on average, sustaining '',
          format_fixed 0 (group_mean_throughput g), '' jobs/sec '', em_dash,
          '' see the queue-depth-over-time chart below for the drain curve's shape, not just its endpoints.'']"

definition max_job_count :: "'j group list \<Rightarrow> nat" where
  "max_job_count groups = max_nat (concat (map (\<lambda>g. map rr_job_count (gp_runs g)) groups))"

definition execution_peak_text :: "'j report_lib \<Rightarrow> 'j scenarios \<Rightarrow> string" where
  "execution_peak_text lib by_scenario =
     (case Option.bind (map_of by_scenario ''execution'')
             (\<lambda>gs. max_by (\<lambda>x. x) (map group_mean_throughput (zero_latency lib gs))) of
        Some value \<Rightarrow> format_fixed 0 value @ '' jobs/sec''
      | None \<Rightarrow> ''the execution scenario's observed peak'')"

definition analysis_backlog :: "'j report_lib \<Rightarrow> 'j scenarios \<Rightarrow> 'j group list \<Rightarrow> string" where
  "analysis_backlog lib by_scenario groups =
     (let execution_max_jobs = (case map_of by_scenario ''execution'' of None \<Rightarrow> 0 | Some gs \<Rightarrow> max_job_count gs)
      in writeln [''### Backlog drain'', nl]
         @ concat (map (backlog_line lib) groups)
         @ writeln []
         @ writeln [''These backlog numbers are not directly comparable to the `execution` scenario's '',
          execution_peak_text lib by_scenario, ''. The backlog points contain up to '', show_nat (max_job_count groups),
          '' measured jobs, skip the execution scenario's resource samplers, and amortize process startup '',
          ''and polling over a larger drain. The execution sweep contains up to '', show_nat execution_max_jobs,
          '' measured jobs per point and additional resource instrumentation. Both use the real release '',
          ''worker binary, but they answer different workload questions.'', nl])"

definition real_kill_line :: "'j report_lib \<Rightarrow> 'j group \<Rightarrow> string" where
  "real_kill_line lib g =
     writeln [''- **Real `kill -9`**: worker killed '', format_fixed 1 (mean_extra lib ''time_to_kill_secs'' g),
          ''s after start; full recovery (lease expiry + reclaim + successful finalize by a second real '',
          ''worker process) took '', format_fixed 1 (mean_extra lib ''total_recovery_time_secs'' g),
          ''s total against a '', rl_show_f64 lib (rr_lease_duration_secs (hd (gp_runs g))), ''s lease.'']"

definition failpoint_line :: "'j report_lib \<Rightarrow> 'j group \<Rightarrow> string" where
  "failpoint_line lib g =
     (let failpoint = opt_or ''?'' (Option.bind (rl_get lib (rr_scenario_params (hd (gp_runs g))) ''failpoint'') (rl_as_str lib));
          gap_ms = mean (filter_map (\<lambda>r. lp_p50 (rr_latency_percentiles r)) (gp_runs g))
      in writeln [''- **Failpoint `'', failpoint, ''`** (driven directly, not through the compiled worker binary '', em_dash,
          '' see design.md sec. 2): median crash-to-reclaim gap '', format_fixed 0 gap_ms, ''ms against a '',
          rl_show_f64 lib (rr_lease_duration_secs (hd (gp_runs g))), ''s lease.''])"

definition analysis_crash :: "'j report_lib \<Rightarrow> 'j scenarios \<Rightarrow> string" where
  "analysis_crash lib by_scenario =
     writeln [''### Crash-recovery timelines'', nl]
     @ for_scenario by_scenario ''crash_recovery_real_kill'' (\<lambda>gs. concat (map (real_kill_line lib) gs))
     @ for_scenario by_scenario ''crash_recovery_failpoint'' (\<lambda>gs. concat (map (failpoint_line lib) gs))
     @ writeln []"

definition resource_row :: "'j group \<Rightarrow> string" where
  "resource_row g =
     (let sample = find_map (\<lambda>r. rm_worker (rr_resource_measurements r)) (gp_runs g);
          api_sample = find_map (\<lambda>r. rm_api (rr_resource_measurements r)) (gp_runs g);
          pg_sample = find_map (\<lambda>r. rm_postgres (rr_resource_measurements r)) (gp_runs g);
          shown = (\<lambda>d v. opt_or d (map_option (format_fixed 1) v))
      in writeln [''| `'', gp_params g, ''` | '', format_fixed 0 (group_mean_throughput g), '' | '',
          shown ''n/a'' (Option.bind sample rs_cpu_pct_avg), ''/'', shown ''n/a'' (Option.bind sample rs_cpu_pct_peak),
          '' | '',
          opt_or ''n/a'' (map_option (\<lambda>v. format_fixed 1 (of_nat v / 1024 / 1024) @ '' MiB'') (Option.bind sample rs_rss_bytes_peak)),
          '' | '', shown ''n/a'' (Option.bind api_sample rs_cpu_pct_avg), ''/'',
          shown ''n/a'' (Option.bind api_sample rs_cpu_pct_peak), '' | '',
          shown ''n/a (docker stats unavailable)'' (Option.bind pg_sample rs_cpu_pct_avg), '' |''])"

definition analysis_resources :: "'j group list \<Rightarrow> string" where
  "analysis_resources groups =
     writeln [''### Resource use vs. throughput'', nl]
     @ writeln [''| Params | Throughput (jobs/sec) | Worker CPU avg/peak % | Worker RSS peak | API CPU avg/peak % '',
          ''| Postgres CPU % |'']
     @ writeln [''|---|---|---|---|---|---|'']
     @ concat (map resource_row groups)
     @ writeln []
     @ writeln [''CPU values come from 500ms `ps` samples of individual macOS processes; PostgreSQL CPU comes '',
          ''from Docker container sampling. They are directional utilization signals with different '',
          ''accounting boundaries, not a complete host-wide CPU budget. Short runs may contain too few '',
          ''samples to characterize peaks reliably.'', nl]"

definition non_monotonic :: "(rat \<times> rat) list \<Rightarrow> bool" where
  "non_monotonic points = list_ex (\<lambda>(a, b). snd b < snd a) (windows2 points)"

definition analysis_idempotency :: "'j report_lib \<Rightarrow> 'j group list \<Rightarrow> string" where
  "analysis_idempotency lib groups =
     writeln [''### Idempotency-contention interpretation'', nl]
     @ (if non_monotonic (throughput_points lib ''concurrency'' groups)
        then writeln [''The throughput points are non-monotonic (notably the concurrency-4 result). Each point issues '',
          ''only as many requests as its concurrency, so the smallest runs are millisecond-scale bursts '',
          ''dominated by scheduling, connection reuse, and timer noise. Use this scenario to evaluate the '',
          ''invariant'', em_dash, ''one committed charge per shared key'', em_dash,
          ''and its latency under contention. A sustained, fixed-request-count workload is required before '',
          ''making idempotency-service capacity claims.'', nl]
        else '''')"

definition write_analysis :: "'j report_lib \<Rightarrow> 'j scenarios \<Rightarrow> string" where
  "write_analysis lib by_scenario =
     writeln [''## Analysis'', nl]
     @ for_scenario by_scenario ''execution'' (analysis_saturation lib)
     @ for_scenario by_scenario ''claim_batch'' (analysis_claim_batch lib)
     @ for_scenario by_scenario ''backlog'' (analysis_backlog lib by_scenario)
     @ analysis_crash lib by_scenario
     @ for_scenario by_scenario ''execution'' analysis_resources
     @ for_scenario by_scenario ''idempotency_contention'' (analysis_idempotency lib)"

definition write_limitations :: "'j run_result list \<Rightarrow> string" where
  "write_limitations clean_runs =
     writeln [''## Limitations and likely sources of noise'', nl]
     @ writeln [''- **Single developer laptop, not a dedicated benchmarking host** '', em_dash,
          '' Docker Desktop's Linux VM on macOS, shared CPU/scheduler with the rest of the system, no CPU '',
          ''pinning. See docs/benchmarking/design.md sec. 8 for the full list of known noise sources '',
          ''(Docker Desktop's VM disk layer, `ps`-based CPU sampling granularity, the 5s `/metrics` gauge '',
          ''refresh cadence this harness deliberately avoids by polling PostgreSQL directly, etc.).'', nl]
     @ writeln [''- **A real host sleep/wake corrupted an earlier run of this exact suite** '', em_dash,
          '' several `execution` runs came back with multi-hour p95/p99 latencies from a job whose lifetime '',
          ''spanned the laptop going to sleep (PostgreSQL wall-clock timestamps include the sleep gap; the '',
          ''harness's own monotonic `measurement_duration_secs` did not, which is exactly how it was '',
          ''caught). Fixed by adding a correctness check comparing latency samples against each run's own '',
          ''monotonic elapsed time (see the `bench: catch host-sleep clock corruption` commit) and '',
          ''re-running clean with the host kept awake (`caffeinate -dims`). The numbers in this report are '',
          ''from that clean re-run '', em_dash, '' 126/126 correctness checks passing, none excluded for this reason.'',
          nl]
     @ writeln [''- **This report is generated from the quick profile only** (`benchmarks/config/quick.toml`) '', em_dash,
          '' smaller job counts and fewer concurrency points than `full.toml`, and it excludes the 100k-job '',
          ''backlog point entirely. The full profile has not been executed end-to-end to produce a '',
          ''published baseline; see `make bench-full` and this repository's own completion report for the '',
          ''exact reasoning (time/disk budget on this specific run).'', nl]
     @ writeln [''- **Sample sizes are small** (job counts in the hundreds per scenario point, not thousands) '', em_dash,
          '' tail percentiles (p99, max) from a few hundred samples are directional, not statistically '',
          ''tight. Largest single-scenario job count in this report: '', show_nat (max_nat (map rr_job_count clean_runs)),
          ''.'', nl]
     @ writeln [''- **The idempotency scenario uses microbursts, not a sustained load** '', em_dash,
          '' each point sends only `concurrency` requests. Its non-monotonic throughput values should not '',
          ''be interpreted as a scaling curve; the useful results are contention latency and the '',
          ''exactly-one-charge invariant.'', nl]"

subsection \<open>Charts\<close>

text \<open>What plotters is told to draw: the colours and the marks of a series, its label in the legend, the axes and the sizes in pixels.\<close>

datatype color = Red | Blue | Green | Magenta

record series =
  cs_label :: "string option"
  cs_color :: color
  cs_marks :: bool
  cs_points :: "(rat \<times> rat) list"

record chart =
  ct_file :: string
  ct_size :: "nat \<times> nat"
  ct_caption :: "string \<times> nat"
  ct_margin :: nat
  ct_label_areas :: "nat \<times> nat"
  ct_x_range :: "rat \<times> rat"
  ct_y_range :: "rat \<times> rat"
  ct_x_desc :: string
  ct_y_desc :: string
  ct_series :: "series list"
  ct_legend :: bool

definition chart_path :: "chart \<Rightarrow> string" where
  "chart_path c = concat [''../../benchmarks/reports/'', ct_file c]"

text \<open>\<open>Value\<close> indexed with a key: null when it has none.\<close>

definition index :: "'j report_lib \<Rightarrow> 'j \<Rightarrow> string \<Rightarrow> 'j" where
  "index lib v key = (case rl_get lib v key of Some x \<Rightarrow> x | None \<Rightarrow> rl_null lib)"

definition chart_throughput_vs_concurrency :: "'j report_lib \<Rightarrow> 'j scenarios \<Rightarrow> chart option" where
  "chart_throughput_vs_concurrency lib by_scenario =
     (case map_of by_scenario ''execution'' of
        None \<Rightarrow> None
      | Some groups \<Rightarrow>
          let points = map (\<lambda>g. let parsed = rr_scenario_params (hd (gp_runs g))
                in (opt_f64 0 (rl_as_f64 lib (index lib parsed ''worker_concurrency'')), group_mean_throughput g,
                    case rl_as_u64 lib (index lib parsed ''downstream_latency_ms'') of Some ms \<Rightarrow> ms | None \<Rightarrow> 0)) groups
          in if points = [] then None
             else let sorted_points = sort_key (\<lambda>(c, t, ms). (ms, c)) points;
                      max_x = fold max (map fst sorted_points) 1;
                      max_y = fold max (map (\<lambda>(c, t, ms). t) sorted_points) 1 * (11 / 10)
                  in Some \<lparr>ct_file = ''throughput_vs_concurrency.svg'', ct_size = (720, 480),
                           ct_caption = (''Execution throughput vs concurrency (one worker process)'', 20), ct_margin = 20,
                           ct_label_areas = (40, 50), ct_x_range = (0, max_x + 1), ct_y_range = (0, max_y),
                           ct_x_desc = ''worker concurrency'', ct_y_desc = ''jobs/sec'',
                           ct_series = filter (\<lambda>s. cs_points s \<noteq> [])
                             (map (\<lambda>(idx, latency).
                                \<lparr>cs_label = Some (show_nat latency @ ''ms downstream''), cs_color = [Red, Blue] ! (idx mod 2),
                                 cs_marks = True,
                                 cs_points = map (\<lambda>(c, t, ms). (c, t)) (filter (\<lambda>(c, t, ms). ms = latency) sorted_points)\<rparr>)
                              (enumerate 0 [0, 100])),
                           ct_legend = True\<rparr>)"

definition chart_retry_amplification :: "'j report_lib \<Rightarrow> 'j scenarios \<Rightarrow> chart option" where
  "chart_retry_amplification lib by_scenario =
     (case map_of by_scenario ''retry_degradation'' of
        None \<Rightarrow> None
      | Some groups \<Rightarrow>
          let points = map (\<lambda>g. (opt_f64 0 (rl_as_f64 lib (index lib (rr_scenario_params (hd (gp_runs g))) ''transient_failure_rate'')),
                mean_extra lib ''retry_amplification'' g)) groups
          in if points = [] then None
             else let sorted_points = sort_key fst points;
                      max_y = fold max (map snd sorted_points) 1 * (12 / 10)
                  in Some \<lparr>ct_file = ''retry_amplification.svg'', ct_size = (720, 480),
                           ct_caption = (''Retry amplification vs transient failure rate'', 20), ct_margin = 20,
                           ct_label_areas = (40, 50), ct_x_range = (0, 1), ct_y_range = (1, max max_y (15 / 10)),
                           ct_x_desc = ''transient failure rate'', ct_y_desc = ''attempts / logical job'',
                           ct_series = [\<lparr>cs_label = None, cs_color = Red, cs_marks = True, cs_points = sorted_points\<rparr>],
                           ct_legend = False\<rparr>)"

definition depth_samples :: "'j report_lib \<Rightarrow> 'j run_result \<Rightarrow> 'j list option" where
  "depth_samples lib r =
     map_option (\<lambda>v. case rl_as_array lib v of Some xs \<Rightarrow> xs | None \<Rightarrow> []) (rl_get lib (rr_extra r) ''queue_depth_over_time'')"

definition all_depth_samples :: "'j report_lib \<Rightarrow> 'j group list \<Rightarrow> 'j list" where
  "all_depth_samples lib groups = concat (filter_map (depth_samples lib) (concat (map gp_runs groups)))"

definition depth_point :: "'j report_lib \<Rightarrow> 'j \<Rightarrow> (rat \<times> rat) option" where
  "depth_point lib p =
     Option.bind (rl_as_f64 lib (index lib p ''t_secs'')) (\<lambda>x.
     map_option (\<lambda>y. (x, y)) (rl_as_f64 lib (index lib p ''depth'')))"

definition backlog_series :: "'j report_lib \<Rightarrow> nat \<times> 'j group \<Rightarrow> series option" where
  "backlog_series lib = (\<lambda>(idx, g).
     case gp_runs g of
       [] \<Rightarrow> None
     | first_run # rest \<Rightarrow>
         Option.bind (depth_samples lib first_run) (\<lambda>ps.
         let points = filter_map (depth_point lib) ps
         in if points = [] then None
            else Some \<lparr>cs_label = Some (gp_params g), cs_color = [Red, Blue, Green, Magenta] ! (idx mod 4), cs_marks = False,
                       cs_points = points\<rparr>))"

text \<open>The file is drawn even when no series is; the document then has no link to it.\<close>

definition backlog_chart :: "'j report_lib \<Rightarrow> 'j group list \<Rightarrow> chart" where
  "backlog_chart lib groups =
     (let max_x = fold max (filter_map (\<lambda>p. rl_as_f64 lib (index lib p ''t_secs'')) (all_depth_samples lib groups)) 1;
          max_y = fold max (filter_map (\<lambda>p. rl_as_f64 lib (index lib p ''depth'')) (all_depth_samples lib groups)) 1
      in \<lparr>ct_file = ''backlog_drain.svg'', ct_size = (720, 480),
          ct_caption = (''Backlog queue depth over time (first run per backlog size)'', 18), ct_margin = 20,
          ct_label_areas = (40, 60), ct_x_range = (0, max max_x 1), ct_y_range = (0, max max_y 1),
          ct_x_desc = ''seconds'', ct_y_desc = ''queue depth'',
          ct_series = filter_map (backlog_series lib) (enumerate 0 groups), ct_legend = True\<rparr>)"

definition chart_backlog_drain :: "'j report_lib \<Rightarrow> 'j scenarios \<Rightarrow> chart option \<times> bool" where
  "chart_backlog_drain lib by_scenario =
     (case map_of by_scenario ''backlog'' of
        None \<Rightarrow> (None, False)
      | Some groups \<Rightarrow> let c = backlog_chart lib groups in (Some c, ct_series c \<noteq> []))"

definition charts_text :: "'j report_lib \<Rightarrow> 'j scenarios \<Rightarrow> string" where
  "charts_text lib by_scenario =
     writeln [''## Charts'', nl]
     @ (case chart_throughput_vs_concurrency lib by_scenario of None \<Rightarrow> ''''
        | Some c \<Rightarrow> writeln [''![Throughput vs concurrency in one worker process]('', chart_path c, '')'', nl])
     @ (case chart_retry_amplification lib by_scenario of None \<Rightarrow> ''''
        | Some c \<Rightarrow> writeln [''![Retry amplification vs transient failure rate]('', chart_path c, '')'', nl])
     @ (case chart_backlog_drain lib by_scenario of
          (Some c, True) \<Rightarrow> writeln [''![Backlog queue depth over time]('', chart_path c, '')'', nl]
        | _ \<Rightarrow> '''')"

text \<open>The files that are drawn beside the document.\<close>

definition charts :: "'j report_lib \<Rightarrow> 'j scenarios \<Rightarrow> chart list" where
  "charts lib by_scenario =
     filter_map (\<lambda>c. c) [chart_throughput_vs_concurrency lib by_scenario, chart_retry_amplification lib by_scenario,
                         fst (chart_backlog_drain lib by_scenario)]"

subsection \<open>The document\<close>

definition clean :: "'j run_result list \<Rightarrow> 'j run_result list" where
  "clean all_runs = filter (\<lambda>r. \<not> rr_git_dirty r) all_runs"

definition generate :: "'j report_lib \<Rightarrow> 'j run_result list \<Rightarrow> string" where
  "generate lib all_runs =
     (let clean_runs = clean all_runs; dirty_count = length (filter rr_git_dirty all_runs)
      in header_text (length all_runs) dirty_count
         @ (if clean_runs = []
            then writeln [''No clean (non-dirty) benchmark runs found yet.'', nl]
            else let by_scenario = group_scenarios (group_runs lib clean_runs)
                 in executive_summary lib clean_runs by_scenario
                    @ environment_text (hd clean_runs)
                    @ gate_text lib clean_runs
                    @ writeln [''## Results by scenario'', nl]
                    @ concat (map scenario_table by_scenario)
                    @ write_analysis lib by_scenario
                    @ write_limitations clean_runs
                    @ charts_text lib by_scenario
                    @ reproduction_text))"

text \<open>
  The command: load the runs, make the directory of the charts, draw, write the document. An error of the file system is handed on.
\<close>

record report_io =
  ri_read :: "string list \<Rightarrow> string + string"
  ri_contents :: "dir_entry list option"
  ri_create_charts_dir :: "string + unit"
  ri_draw :: "chart \<Rightarrow> string + unit"
  ri_write :: "string \<Rightarrow> string + unit"

fun draw_all :: "(chart \<Rightarrow> string + unit) \<Rightarrow> chart list \<Rightarrow> string + unit" where
  "draw_all draw [] = Inr ()"
| "draw_all draw (c # cs) = bind_res (draw c) (\<lambda>_. draw_all draw cs)"

definition report_command ::
    "report_io \<Rightarrow> 'j report_lib \<Rightarrow> (string \<Rightarrow> 'j run_result option) \<Rightarrow> string list \<Rightarrow> string + string \<times> chart list" where
  "report_command io lib parse results_dir =
     bind_res (load_all (ri_read io) parse results_dir (ri_contents io)) (\<lambda>all_runs.
     bind_res (ri_create_charts_dir io) (\<lambda>_.
     let clean_runs = clean all_runs;
         drawn = (if clean_runs = [] then [] else charts lib (group_scenarios (group_runs lib clean_runs)))
     in bind_res (draw_all (ri_draw io) drawn) (\<lambda>_.
        bind_res (ri_write io (generate lib all_runs)) (\<lambda>_. Inr (generate lib all_runs, drawn)))))"

end
