(* ===== verification/BenchFacts.thy ===== *)
theory BenchFacts
  imports BenchAnalysis "HOL-Library.Multiset" "HOL-Library.Sublist"
begin

section \<open>What the report says of the runs\<close>

text \<open>
  The grouping by \<open>BTreeMap\<close> against its reference (the keys in order, each with the runs that have it), the saturation point, means
  and percentiles, and the names of result files.
\<close>

subsection \<open>Grouping\<close>

definition grouped :: "('a \<Rightarrow> 'k::linorder) \<Rightarrow> 'a list \<Rightarrow> ('k \<times> 'a list) list" where
  "grouped key xs = map (\<lambda>k. (k, filter (\<lambda>x. key x = k) xs)) (sorted_list_of_set (key ` set xs))"

lemma btree_push_map:
  assumes "sorted ks" "distinct ks"
  shows "btree_push k x (map (\<lambda>i. (i, f i)) ks) =
    map (\<lambda>i. (i, if i = k then (if k \<in> set ks then f k @ [x] else [x]) else f i)) (if k \<in> set ks then ks else insort k ks)"
  using assms by (induction ks) (auto simp: less_le intro!: map_cong)

lemma fold_btree_push: "fold (\<lambda>x m. btree_push (key x) x m) xs [] = grouped key xs"
proof (induction xs rule: rev_induct)
  case (snoc x xs)
  let ?K = "key ` set xs" and ?k = "key x"
  have "fold (\<lambda>x m. btree_push (key x) x m) (xs @ [x]) [] = btree_push ?k x (grouped key xs)"
    using snoc by simp
  also have "\<dots> = grouped key (xs @ [x])"
  proof (cases "?k \<in> ?K")
    case True
    then have "insert ?k ?K = ?K" by blast
    then show ?thesis using True unfolding grouped_def
      by (subst btree_push_map) (auto intro!: map_cong)
  next
    case False
    then have "filter (\<lambda>y. key y = ?k) xs = []" by (metis (mono_tags, lifting) filter_False imageI)
    moreover have "sorted_list_of_set (insert ?k ?K) = insort ?k (sorted_list_of_set ?K)"
      using False by simp
    ultimately show ?thesis using False unfolding grouped_def
      by (subst btree_push_map) (auto intro!: map_cong simp: set_insort_key)
  qed
  finally show ?case .
qed (simp add: grouped_def)

lemma group_runs_eq:
  "group_runs lib runs = map (\<lambda>k. \<lparr>gp_scenario = fst k, gp_params = snd k,
     gp_runs = filter (\<lambda>r. run_key lib r = k) runs\<rparr>) (sorted_list_of_set (run_key lib ` set runs))"
  unfolding group_runs_def fold_btree_push grouped_def by (auto simp: case_prod_beta)

lemma group_scenarios_eq: "group_scenarios groups = grouped gp_scenario groups"
  by (simp add: group_scenarios_def fold_btree_push)

lemma sorted_pairs_with:
  assumes "finite K"
  shows "filter (\<lambda>k. fst k = s) (sorted_list_of_set K) = map (Pair s) (sorted_list_of_set {p. (s, p) \<in> K})"
proof (rule sorted_distinct_set_unique)
  have fin: "finite {p. (s, p) \<in> K}" by (rule finite_subset [OF _ finite_imageI [OF assms, of snd]]) force
  show "sorted (filter (\<lambda>k. fst k = s) (sorted_list_of_set K))" by (simp add: sorted_filter [of id, simplified])
  show "sorted (map (Pair s) (sorted_list_of_set {p. (s, p) \<in> K}))"
    by (simp add: sorted_map less_eq_prod_def)
  show "distinct (map (Pair s) (sorted_list_of_set {p. (s, p) \<in> K}))" by (simp add: distinct_map inj_on_def)
  show "set (filter (\<lambda>k. fst k = s) (sorted_list_of_set K)) = set (map (Pair s) (sorted_list_of_set {p. (s, p) \<in> K}))"
    using assms fin by (auto simp: image_iff)
qed simp

definition params_of_scenario :: "'j report_lib \<Rightarrow> 'j run_result list \<Rightarrow> string \<Rightarrow> string set" where
  "params_of_scenario lib runs s = (\<lambda>r. rl_text lib (rr_scenario_params r)) ` {r \<in> set runs. rr_scenario r = s}"

lemma group_scenarios_group_runs:
  "group_scenarios (group_runs lib runs) =
     map (\<lambda>s. (s, map (\<lambda>p. \<lparr>gp_scenario = s, gp_params = p, gp_runs = filter (\<lambda>r. run_key lib r = (s, p)) runs\<rparr>)
            (sorted_list_of_set (params_of_scenario lib runs s))))
       (sorted_list_of_set (rr_scenario ` set runs))"
proof -
  have scenarios: "gp_scenario ` set (group_runs lib runs) = rr_scenario ` set runs"
    by (force simp: group_runs_eq run_key_def)
  have params: "{p. (s, p) \<in> run_key lib ` set runs} = params_of_scenario lib runs s" for s
    by (auto simp: params_of_scenario_def run_key_def)
  have "filter (\<lambda>g. gp_scenario g = s) (group_runs lib runs) =
     map (\<lambda>p. \<lparr>gp_scenario = s, gp_params = p, gp_runs = filter (\<lambda>r. run_key lib r = (s, p)) runs\<rparr>)
       (sorted_list_of_set (params_of_scenario lib runs s))" for s
    using sorted_pairs_with [of "run_key lib ` set runs" s]
    by (simp add: group_runs_eq filter_map o_def params)
  then show ?thesis by (simp add: group_scenarios_eq grouped_def scenarios)
qed

lemma mset_grouped: "mset (concat (map snd (grouped key xs))) = mset xs"
proof -
  have "mset (concat (map snd (grouped key xs))) = (\<Sum>k\<in>key ` set xs. filter_mset (\<lambda>x. key x = k) (mset xs))"
    by (simp add: grouped_def mset_concat o_def sum.distinct_set_conv_list [symmetric] flip: mset_filter)
  also have "\<dots> = mset xs"
    by (rule multiset_eqI) (auto simp: count_sum count_eq_zero_iff)
  finally show ?thesis .
qed

lemma mset_concat_cong: "mset xss = mset yss \<Longrightarrow> mset (concat xss) = mset (concat yss)"
  by (metis mset_concat mset_map sum_mset_sum_list)

lemma mset_runs_of_tables:
  "mset (concat (map gp_runs (concat (map snd (group_scenarios (group_runs lib runs)))))) = mset runs"
proof -
  let ?gs = "group_runs lib runs"
  have "mset (concat (map snd (group_scenarios ?gs))) = mset ?gs" by (simp add: group_scenarios_eq mset_grouped)
  then have "mset (map gp_runs (concat (map snd (group_scenarios ?gs)))) = mset (map gp_runs ?gs)"
    by (metis mset_map)
  then have "mset (concat (map gp_runs (concat (map snd (group_scenarios ?gs))))) = mset (concat (map gp_runs ?gs))"
    by (rule mset_concat_cong)
  also have "map gp_runs ?gs = map snd (grouped (run_key lib) runs)"
    by (simp add: group_runs_eq grouped_def)
  also have "mset (concat \<dots>) = mset runs" by (rule mset_grouped)
  finally show ?thesis .
qed

subsection \<open>Saturation\<close>

lemma length_windows2: "length (windows2 xs) = length xs - 1"
  by (induction xs rule: windows2.induct) auto

lemma nth_windows2: "Suc i < length xs \<Longrightarrow> windows2 xs ! i = (xs ! i, xs ! Suc i)"
  by (induction xs arbitrary: i rule: windows2.induct) (auto simp: nth_Cons split: nat.splits)

definition flat :: "(rat \<times> rat) \<times> (rat \<times> rat) \<Rightarrow> bool" where
  "flat w \<longleftrightarrow> marginal_gain w < 15 / 100"

lemma snd_saturation_step:
  "snd (saturation_step w acc) = (if flat w \<and> snd acc = None then Some (fst (fst w)) else snd acc)"
  by (auto simp: saturation_step_def flat_def split: prod.splits)

lemma fold_saturation:
  "snd (fold saturation_step ws acc) =
     (case snd acc of Some c \<Rightarrow> Some c | None \<Rightarrow> map_option (\<lambda>w. fst (fst w)) (List.find flat ws))"
  by (induction ws arbitrary: acc) (auto simp: snd_saturation_step split: option.splits)

lemma saturation_find: "snd (saturation points) = map_option (\<lambda>w. fst (fst w)) (List.find flat (windows2 points))"
  by (simp add: saturation_def fold_saturation)

lemma saturation_Some:
  "snd (saturation points) = Some c \<longleftrightarrow>
     (\<exists>i. Suc i < length points \<and> flat (points ! i, points ! Suc i) \<and> fst (points ! i) = c
        \<and> (\<forall>j<i. \<not> flat (points ! j, points ! Suc j)))"
  (is "?l \<longleftrightarrow> ?r")
proof -
  have "?l \<longleftrightarrow> (\<exists>w. List.find flat (windows2 points) = Some w \<and> fst (fst w) = c)"
    by (auto simp: saturation_find)
  also have "\<dots> \<longleftrightarrow> (\<exists>i < length (windows2 points). flat (windows2 points ! i) \<and> fst (fst (windows2 points ! i)) = c
      \<and> (\<forall>j<i. \<not> flat (windows2 points ! j)))"
    unfolding find_Some_iff by blast
  also have "\<dots> \<longleftrightarrow> ?r"
    by (rule ex_cong1) (auto simp: length_windows2 nth_windows2 less_diff_conv)
  finally show ?thesis .
qed

lemma not_flat_grows: "\<not> flat ((a, t), (b, u)) \<Longrightarrow> 0 < t \<Longrightarrow> 115 / 100 * t \<le> u"
  by (simp add: flat_def marginal_gain_def field_simps)

lemma saturation_None:
  assumes "snd (saturation points) = None" "points \<noteq> []" "0 < snd (hd points)"
  shows "(115 / 100) ^ (length points - 1) * snd (hd points) \<le> snd (last points)"
  using assms
proof (induction points rule: windows2.induct)
  case (1 x y xs)
  have f: "\<not> flat (x, y)" and rest: "snd (saturation (y # xs)) = None"
    using 1(2) by (auto simp: saturation_find split: if_splits)
  have "115 / 100 * snd x \<le> snd y" using not_flat_grows [of "fst x" "snd x" "fst y" "snd y"] f 1(4) by simp
  moreover from this 1(4) have "0 < snd y" by simp
  with 1(1) [OF rest] have "(115 / 100) ^ length xs * snd y \<le> snd (last (y # xs))" by simp
  ultimately have "(115 / 100) ^ length xs * (115 / 100 * snd x) \<le> snd (last (y # xs))"
    by (meson mult_left_mono order_trans zero_le_divide_iff zero_le_numeral zero_le_power)
  then show ?case by (simp add: mult.assoc mult.left_commute)
qed auto

subsection \<open>Means and percentiles\<close>

lemma sum_list_between:
  assumes "\<And>x. x \<in> set xs \<Longrightarrow> lo \<le> x \<and> x \<le> (hi :: rat)"
  shows "of_nat (length xs) * lo \<le> sum_list xs \<and> sum_list xs \<le> of_nat (length xs) * hi"
  using assms by (induction xs) (auto simp: algebra_simps intro!: add_mono)

lemma mean_between:
  assumes "xs \<noteq> []" "\<And>x. x \<in> set xs \<Longrightarrow> lo \<le> x \<and> x \<le> hi"
  shows "lo \<le> mean xs \<and> mean xs \<le> hi"
  using sum_list_between [of xs lo hi] assms by (simp add: mean_def field_simps)

lemma percentile_mono:
  assumes "sorted srt" "srt \<noteq> []" "0 \<le> p" "p \<le> q"
  shows "percentile srt p \<le> percentile srt q"
proof -
  have "p * (of_nat (length srt) - 1) \<le> q * (of_nat (length srt) - (1 :: rat))"
    using assms by (intro mult_right_mono) (simp_all add: Suc_le_eq)
  then have "round (p * (of_nat (length srt) - 1)) \<le> round (q * (of_nat (length srt) - 1))" by (rule round_mono)
  then have "min (nat (round (p * (of_nat (length srt) - 1)))) (length srt - 1)
      \<le> min (nat (round (q * (of_nat (length srt) - 1)))) (length srt - 1)"
    by (intro min.mono nat_mono) simp_all
  then have "srt ! min (nat (round (p * (of_nat (length srt) - 1)))) (length srt - 1)
      \<le> srt ! min (nat (round (q * (of_nat (length srt) - 1)))) (length srt - 1)"
    using assms by (intro sorted_nth_mono) (simp_all add: min.strict_coboundedI2)
  then show ?thesis using assms by (simp add: percentile_def Let_def)
qed

lemma percentile_in: "srt \<noteq> [] \<Longrightarrow> percentile srt p \<in> set srt"
  by (simp add: percentile_def Let_def) (rule nth_mem, simp add: min.strict_coboundedI2)

lemma percentile_le_last: "sorted srt \<Longrightarrow> srt \<noteq> [] \<Longrightarrow> percentile srt p \<le> last srt"
  by (simp add: percentile_def Let_def last_conv_nth sorted_nth_mono)

subsection \<open>Rows and files\<close>

lemma writeln_ends: "\<exists>pre. writeln [a, b, c] = pre @ a @ b @ c @ nl"
  by (simp add: writeln_def)

lemma writeln_ends_Cons: "\<exists>pre. writeln ps = pre @ t \<Longrightarrow> \<exists>pre. writeln (p # ps) = pre @ t"
  by (auto simp: writeln_def)

lemma result_row_ends:
  "\<exists>pre. result_row g = pre @ '' | '' @ (if list_all run_passed (gp_runs g) then ''pass'' else ''**FAIL**'') @ '' |'' @ nl"
  unfolding result_row_def Let_def by (rule writeln_ends | rule writeln_ends_Cons)+

lemma result_row_passes: "suffix ('' | pass |'' @ nl) (result_row g) \<longleftrightarrow> list_all run_passed (gp_runs g)"
proof -
  obtain pre where "result_row g = pre @ '' | '' @ (if list_all run_passed (gp_runs g) then ''pass'' else ''**FAIL**'') @ '' |'' @ nl"
    using result_row_ends by blast
  then show ?thesis by (simp add: suffix_to_prefix nl_def)
qed

lemma result_row_throughput:
  "\<exists>pre post. result_row g = pre @ '' | '' @ format_fixed 1 (group_mean_throughput g) @ '' | '' @ post"
  by (rule exI [of _ "''| `'' @ gp_params g @ ''` | '' @ show_nat (length (gp_runs g))"])
    (simp add: result_row_def writeln_def group_mean_throughput_def Let_def)

lemma sublist_after: "sublist xs ys \<Longrightarrow> sublist xs (zs @ ys)"
  by (auto simp: sublist_append)

lemma sublist_before: "sublist xs ys \<Longrightarrow> sublist xs (ys @ zs)"
  by (auto simp: sublist_append)

lemma sublist_concat_map: "x \<in> set xs \<Longrightarrow> sublist (f x) (concat (map f xs))"
  by (auto dest!: split_list intro!: sublist_after)

text \<open>The row of a clean run is part of the tables.\<close>

lemma row_in_tables:
  assumes "r \<in> set runs"
  shows "sublist (result_row \<lparr>gp_scenario = rr_scenario r, gp_params = rl_text lib (rr_scenario_params r),
      gp_runs = filter (\<lambda>q. run_key lib q = run_key lib r) runs\<rparr>)
    (concat (map scenario_table (group_scenarios (group_runs lib runs))))"
proof -
  let ?s = "rr_scenario r" and ?p = "rl_text lib (rr_scenario_params r)"
  let ?g = "\<lparr>gp_scenario = ?s, gp_params = ?p, gp_runs = filter (\<lambda>q. run_key lib q = run_key lib r) runs\<rparr>"
  have "?p \<in> params_of_scenario lib runs ?s" "finite (params_of_scenario lib runs ?s)"
    using assms by (auto simp: params_of_scenario_def)
  then obtain gs where gs: "(?s, gs) \<in> set (group_scenarios (group_runs lib runs))" "?g \<in> set gs"
    using assms unfolding group_scenarios_group_runs by (auto simp: image_iff run_key_def)
  have row: "sublist (result_row ?g) (concat (map result_row gs))" by (rule sublist_concat_map [OF gs(2)])
  have "sublist (result_row ?g) (scenario_table (?s, gs))"
    unfolding scenario_table_def prod.case
    by (rule sublist_after, rule sublist_after, rule sublist_after, rule sublist_after, rule sublist_before, rule row)
  also have "sublist (scenario_table (?s, gs)) (concat (map scenario_table (group_scenarios (group_runs lib runs))))"
    by (rule sublist_concat_map [OF gs(1)])
  finally show ?thesis .
qed

definition file_char :: "char \<Rightarrow> bool" where
  "file_char c \<longleftrightarrow> ascii_alphanumeric c \<or> c = CHR ''-'' \<or> c = CHR ''_''"

lemma sanitize_chars: "list_all file_char (sanitize s)"
  by (auto simp: sanitize_def list_all_iff file_char_def)

lemma sanitize_id: "list_all file_char s \<Longrightarrow> sanitize s = s"
proof -
  have c: "file_char c \<Longrightarrow> \<not> utf8_continuation c" for c
    by (auto simp: file_char_def ascii_alphanumeric_def utf8_continuation_def less_eq_char_def less_char_def of_char_def)
  assume "list_all file_char s"
  with c show ?thesis unfolding sanitize_def list_all_iff
    by (simp add: filter_True) (intro map_idI, auto simp: file_char_def)
qed

end
