(* ===== verification/BenchIdempotency.thy ===== *)
theory BenchIdempotency
  imports BenchResult FakeCharge
begin

section \<open>The idempotency scenario: reliableq-bench, scenarios/idempotency.rs\<close>

text \<open>
  \<open>src/crates/reliableq-bench/src/scenarios/idempotency.rs\<close>: one point of the scenario, driven against the charge service of
  \<open>FakeCharge\<close>; the whole run is in \<open>BenchPoints\<close>. Concurrent requests are served in the order of the list of calls, which is any order; each call brings the time and
  the id the service takes for it, the time the client measured, and whether the request or its reply was lost.
\<close>

datatype delivery = Delivered | ReplyLost | NotDelivered

record bench_call =
  bc_now :: timestamp
  bc_id :: uuid
  bc_ms :: rat
  bc_delivery :: delivery

text \<open>The HTTP client's encoding of a request.\<close>

record ('h, 'v, 'r) bench_client =
  bk_service :: "('h, 'v, 'r) charge_env"
  bk_headers :: "string \<Rightarrow> 'h headers"
  bk_body :: "charge_payload \<Rightarrow> 'v"

definition bench_idem_payload :: "int \<Rightarrow> charge_payload" where
  "bench_idem_payload amount = \<lparr>customer_id = ''bench-idem'', amount_cents = amount, currency = ''INR''\<rparr>"

definition answer_status :: "charge_error + (http_status \<times> charge_response) \<Rightarrow> http_status" where
  "answer_status r = (case r of Inl e \<Rightarrow> ce_status e | Inr (code, resp) \<Rightarrow> code)"

definition post_charge ::
    "('h, 'v, 'r) bench_client \<Rightarrow> bench_call \<Rightarrow> string \<Rightarrow> int \<Rightarrow> 'r chaos_state \<times> 'v db
     \<Rightarrow> (http_status \<times> rat) \<times> 'r chaos_state \<times> 'v db" where
  "post_charge cl c key amount s =
     (case bc_delivery c of
        NotDelivered \<Rightarrow> ((0, bc_ms c), s)
      | d \<Rightarrow>
          (case create_charge (bk_service cl) (bc_now c) (bc_id c) (bk_headers cl key)
                  (bk_body cl (bench_idem_payload amount)) s of
             (r, s') \<Rightarrow> ((if d = ReplyLost then 0 else answer_status r, bc_ms c), s')))"

fun post_all ::
    "('h, 'v, 'r) bench_client \<Rightarrow> (bench_call \<times> string \<times> int) list \<Rightarrow> 'r chaos_state \<times> 'v db
     \<Rightarrow> (http_status \<times> rat) list \<times> 'r chaos_state \<times> 'v db" where
  "post_all cl [] s = ([], s)"
| "post_all cl ((c, key, amount) # rest) s =
     (case post_charge cl c key amount s of
        (r, s1) \<Rightarrow> (case post_all cl rest s1 of (rs, s2) \<Rightarrow> (r # rs, s2)))"

definition charge_count :: "string \<Rightarrow> 'v db \<Rightarrow> int" where
  "charge_count key db =
     (case query db (Inr (length (filter (\<lambda>c. ch_idempotency_key c = key) (charges db)))) of
        Inl (e :: repo_error) \<Rightarrow> - 1
      | Inr n \<Rightarrow> int n)"

definition unique_key :: "nat \<Rightarrow> nat \<Rightarrow> string" where
  "unique_key run_number i = ''bench-unique-'' @ show_nat run_number @ ''-'' @ show_nat i"

definition replay_key :: "nat \<Rightarrow> string" where
  "replay_key run_number = ''bench-replay-'' @ show_nat run_number"

definition shared_key :: "nat \<Rightarrow> string" where
  "shared_key run_number = ''bench-shared-'' @ show_nat run_number"

definition conflict_key :: "nat \<Rightarrow> string" where
  "conflict_key run_number = ''bench-conflict-'' @ show_nat run_number"

text \<open>
  The calls of a point: the unique ones in the order they are served, each with its index; the others in order. \<open>pc_silent\<close>: one of them
  is never answered.
\<close>

record point_calls =
  pc_unique :: "(nat \<times> bench_call) list"
  pc_replay :: "bench_call \<times> bench_call"
  pc_shared :: "bench_call list"
  pc_conflict :: "bench_call \<times> bench_call"
  pc_elapsed :: rat
  pc_silent :: bool

record point_measure =
  pm_unique_latencies :: "rat list"
  pm_replay_ok :: bool
  pm_replay_charge_count :: int
  pm_shared_latencies :: "rat list"
  pm_created :: nat
  pm_replayed :: nat
  pm_other :: nat
  pm_shared_charge_count :: int
  pm_conflict_rejected :: bool
  pm_conflict_charge_count :: int

definition measure_point ::
    "('h, 'v, 'r) bench_client \<Rightarrow> nat \<Rightarrow> point_calls \<Rightarrow> 'r chaos_state \<times> 'v db
     \<Rightarrow> point_measure \<times> 'r chaos_state \<times> 'v db" where
  "measure_point cl run_number pc s0 =
     (let (unique, s1) = post_all cl (map (\<lambda>(i, c). (c, unique_key run_number i, 100 + int i)) (pc_unique pc)) s0;
          ((first_status, _), s2) = post_charge cl (fst (pc_replay pc)) (replay_key run_number) 555 s1;
          ((replay_status, _), s3) = post_charge cl (snd (pc_replay pc)) (replay_key run_number) 555 s2;
          replay_count = charge_count (replay_key run_number) (snd s3);
          (shared, s4) = post_all cl (map (\<lambda>c. (c, shared_key run_number, 4200)) (pc_shared pc)) s3;
          shared_count = charge_count (shared_key run_number) (snd s4);
          ((conflict_first, _), s5) = post_charge cl (fst (pc_conflict pc)) (conflict_key run_number) 111 s4;
          ((conflict_status, _), s6) = post_charge cl (snd (pc_conflict pc)) (conflict_key run_number) 222 s5
      in (\<lparr>pm_unique_latencies = map snd (filter (\<lambda>(status, ms). status = 201) unique),
           pm_replay_ok = (first_status = 201 \<and> replay_status = 200),
           pm_replay_charge_count = replay_count,
           pm_shared_latencies = map snd shared,
           pm_created = length (filter (\<lambda>(status, ms). status = 201) shared),
           pm_replayed = length (filter (\<lambda>(status, ms). status = 200) shared),
           pm_other = length (filter (\<lambda>(status, ms). status \<noteq> 201 \<and> status \<noteq> 200) shared),
           pm_shared_charge_count = shared_count,
           pm_conflict_rejected = (conflict_first = 201 \<and> conflict_status = 409),
           pm_conflict_charge_count = charge_count (conflict_key run_number) (snd s6)\<rparr>, s6))"

definition shared_invariant :: "point_measure \<Rightarrow> bool" where
  "shared_invariant m \<longleftrightarrow> pm_shared_charge_count m = 1 \<and> pm_created m = 1"

definition point_passed :: "point_measure \<Rightarrow> bool" where
  "point_passed m \<longleftrightarrow>
     shared_invariant m \<and> pm_replay_ok m \<and> pm_conflict_rejected m
     \<and> pm_conflict_charge_count m = 1 \<and> pm_replay_charge_count m = 1"

definition point_result ::
    "'j report_lib \<Rightarrow> timestamp \<Rightarrow> 'j env_info \<Rightarrow> nat \<Rightarrow> nat \<Rightarrow> rat
     \<Rightarrow> point_measure \<Rightarrow> 'j run_result" where
  "point_result lib now env level run_number elapsed m =
     (base_run lib now env ''idempotency_contention'' (rl_json lib [(''concurrency'', JNat level)]) run_number)
       \<lparr>rr_job_count := level,
        rr_measurement_duration_secs := elapsed,
        rr_throughput := \<lparr>tp_unit = ''requests_per_sec'', tp_value = of_nat level / max elapsed (1 / 10 ^ 9)\<rparr>,
        rr_latency_percentiles := percentiles_of_samples (pm_shared_latencies m),
        rr_error_counts := \<lparr>ec_http_errors = pm_other m, ec_timeouts = 0, ec_other = 0\<rparr>,
        rr_correctness_results :=
          \<lparr>cr_passed = point_passed m,
           cr_checks = rl_json lib
             [(''unique_requests_all_created'', JBool (length (pm_unique_latencies m) = level)),
              (''sequential_replay_returns_200_with_one_row'', JBool (pm_replay_ok m \<and> pm_replay_charge_count m = 1)),
              (''concurrent_shared_key_creates_exactly_one_charge'', JBool (shared_invariant m)),
              (''conflicting_payload_rejected_not_silently_succeeded'',
                 JBool (pm_conflict_rejected m \<and> pm_conflict_charge_count m = 1))],
           cr_failures =
             (if point_passed m then [] else [''one or more idempotency invariants failed; see checks''])\<rparr>,
        rr_extra := rl_json lib
          [(''unique_requests'', JNat level),
           (''unique_created_count'', JNat (length (pm_unique_latencies m))),
           (''unique_latency_ms'', JPercentiles (percentiles_of_samples (pm_unique_latencies m))),
           (''shared_key_requests'', JNat level),
           (''shared_key_created'', JNat (pm_created m)),
           (''shared_key_replayed'', JNat (pm_replayed m)),
           (''shared_key_charges_in_db'', JInt (pm_shared_charge_count m)),
           (''conflict_charges_in_db'', JInt (pm_conflict_charge_count m))]\<rparr>"

subsection \<open>What the service answers\<close>

text \<open>The keys of the scenario: text that a header can carry.\<close>

definition bench_key :: "string \<Rightarrow> bool" where
  "bench_key key \<longleftrightarrow> key \<noteq> [] \<and> (\<forall>c \<in> set key. graphic c)"

lemma bench_key_text: "bench_key key \<Longrightarrow> text_ok key"
  by (auto simp: bench_key_def text_ok_def graphic_def)

definition client_ok :: "('h, 'v, 'r) bench_client \<Rightarrow> bool" where
  "client_ok cl \<longleftrightarrow>
     (\<forall>key. bench_key key \<longrightarrow> Option.bind (bk_headers cl key ''idempotency-key'') (to_str (bk_service cl)) = Some key)
     \<and> (\<forall>pl. from_value (bk_service cl) (bk_body cl pl) = Inr pl)"

lemma client_key: "client_ok cl \<Longrightarrow> bench_key key \<Longrightarrow> idempotency_key (to_str (bk_service cl)) (bk_headers cl key) = Inr key"
proof -
  assume "client_ok cl" "bench_key key"
  then obtain v where "bk_headers cl key ''idempotency-key'' = Some v" "to_str (bk_service cl) v = Some key"
    "trim key = key" "key \<noteq> []"
    using trim_graphic [of key] by (auto simp: client_ok_def bench_key_def bind_eq_Some_conv)
  then show ?thesis by (simp add: idempotency_key_def Let_def)
qed

lemma client_payload:
  assumes "client_ok cl" "0 < amount"
  shows "parse_charge_payload (from_value (bk_service cl)) (bk_body cl (bench_idem_payload amount)) = Inr (bench_idem_payload amount)"
proof -
  have "trim ''bench-idem'' = ''bench-idem''" by (rule trim_graphic) (simp_all add: graphic_def)
  then show ?thesis using assms
    by (simp add: parse_charge_payload_ok client_ok_def valid_payload_def bench_idem_payload_def)
qed

definition idem_row :: "bench_call \<Rightarrow> string \<Rightarrow> int \<Rightarrow> charge_row" where
  "idem_row c key amount =
     \<lparr>ch_id = bc_id c, ch_idempotency_key = key, ch_customer_id = ''bench-idem'', ch_amount_cents = amount,
      ch_currency = ''INR'', ch_created_at = bc_now c\<rparr>"

definition serving :: "'r chaos_state \<times> 'v db \<Rightarrow> bool" where
  "serving s \<longleftrightarrow> mode (fst s) = NormalMode \<and> db_up (snd s)"

text \<open>One delivered request, by what its key holds: the answer and the charges after it.\<close>

lemma post_charge_new:
  assumes "client_ok cl" "bench_key key" "0 < amount" "serving s" "bc_delivery c = Delivered"
    and "charge_of key (snd s) = None" "bc_id c \<notin> ch_id ` set (charges (snd s))"
  obtains s' where "post_charge cl c key amount s = ((201, bc_ms c), s')" "serving s'"
    "charges (snd s') = charges (snd s) @ [idem_row c key amount]"
proof -
  obtain st db where s: "s = (st, db)" by (cases s)
  have "charge_texts_ok key ''bench-idem'' ''INR''" using bench_key_text [OF assms(2)] by (simp add: charge_texts_ok_def)
  note new = insert_or_get_new [OF this, of db amount "bc_id c" "bc_now c"]
  show thesis
    by (rule that [of "(drop_guard (track_inflight st), db\<lparr>charges := charges db @ [idem_row c key amount]\<rparr>)"])
      (use assms s new client_key [OF assms(1,2)] client_payload [OF assms(1,3)] in
        \<open>simp_all add: post_charge_def create_charge_def decide_normal serving_def respond_def answer_status_def idem_row_def
           bench_idem_payload_def Let_def\<close>)
qed

lemma post_charge_known:
  assumes "client_ok cl" "bench_key key" "0 < amount" "serving s" "bc_delivery c = Delivered"
    and "charge_of key (snd s) = Some (idem_row c0 key amount0)"
  obtains s' where "post_charge cl c key amount s = ((if amount = amount0 then 200 else 409, bc_ms c), s')" "serving s'"
    "charges (snd s') = charges (snd s)"
proof -
  obtain st db where s: "s = (st, db)" by (cases s)
  have "charge_texts_ok key ''bench-idem'' ''INR''" using bench_key_text [OF assms(2)] by (simp add: charge_texts_ok_def)
  note known = insert_or_get_known [OF this, of db amount "idem_row c0 key amount0" "bc_now c" "bc_id c"]
  show thesis
    by (rule that [of "(drop_guard (track_inflight st), db)"])
      (use assms s known client_key [OF assms(1,2)] client_payload [OF assms(1,3)] in
        \<open>auto simp: post_charge_def create_charge_def decide_normal serving_def respond_def answer_status_def outcome_for_def
           same_semantic_request_def bench_idem_payload_def charge_idempotency_conflict_def idem_row_def Let_def\<close>)
qed

lemma post_charge_same:
  assumes "client_ok cl" "bench_key key" "0 < amount" "serving s" "bc_delivery c = Delivered"
    and "charge_of key (snd s) = Some (idem_row c0 key amount)"
  obtains s' where "post_charge cl c key amount s = ((200, bc_ms c), s')" "serving s'" "charges (snd s') = charges (snd s)"
  by (rule post_charge_known [OF assms]) (simp add: that)

lemma post_charge_conflict:
  assumes "client_ok cl" "bench_key key" "0 < amount" "serving s" "bc_delivery c = Delivered"
    and "charge_of key (snd s) = Some (idem_row c0 key amount0)" "amount \<noteq> amount0"
  obtains s' where "post_charge cl c key amount s = ((409, bc_ms c), s')" "serving s'" "charges (snd s') = charges (snd s)"
  by (rule post_charge_known [OF assms(1-6)]) (simp add: that assms(7))

subsection \<open>A point passes\<close>

text \<open>Runs of requests: for one key the first is created and the others are replays; for distinct new keys all are created.\<close>

lemma charge_of_absent: "k \<notin> ch_idempotency_key ` set (charges db) \<Longrightarrow> charge_of k db = None"
  by (simp add: charge_of_None)

lemma charge_of_appended:
  assumes "charges db' = charges db @ [idem_row c key amount]"
  shows "charge_of k db' = (case charge_of k db of None \<Rightarrow> if k = key then Some (idem_row c key amount) else None | Some d \<Rightarrow> Some d)"
proof -
  have "charge_of k db' = charge_of k (db\<lparr>charges := charges db @ [idem_row c key amount]\<rparr>)"
    using assms by (simp add: charge_of_def)
  then show ?thesis by (simp add: charge_of_snoc idem_row_def eq_commute split: option.split)
qed

lemma charge_of_cong: "charges db' = charges db \<Longrightarrow> charge_of k db' = charge_of k db"
  by (simp add: charge_of_def)

lemma replays:
  assumes "client_ok cl" "bench_key key" "0 < amount" "\<forall>c \<in> set cs. bc_delivery c = Delivered"
    and "serving s" "charge_of key (snd s) = Some (idem_row c0 key amount)"
  shows "\<exists>s'. post_all cl (map (\<lambda>c. (c, key, amount)) cs) s = (map (\<lambda>c. (200, bc_ms c)) cs, s') \<and> serving s'
    \<and> charges (snd s') = charges (snd s)"
  using assms(4-)
proof (induction cs arbitrary: s)
  case (Cons c cs)
  from Cons.prems post_charge_known [OF assms(1-3), of s c c0 amount] obtain s1 where
    s1: "post_charge cl c key amount s = ((200, bc_ms c), s1)" "serving s1" "charges (snd s1) = charges (snd s)" by auto
  from Cons.IH [of s1] Cons.prems s1 charge_of_cong [OF s1(3)] show ?case by auto
qed simp

lemma shared_run:
  assumes "client_ok cl" "bench_key key" "0 < amount" "\<forall>c \<in> set (c # cs). bc_delivery c = Delivered"
    and "serving s" "charge_of key (snd s) = None" "bc_id c \<notin> ch_id ` set (charges (snd s))"
  shows "\<exists>s'. post_all cl (map (\<lambda>c. (c, key, amount)) (c # cs)) s = ((201, bc_ms c) # map (\<lambda>c. (200, bc_ms c)) cs, s')
    \<and> serving s' \<and> charges (snd s') = charges (snd s) @ [idem_row c key amount]"
proof -
  have d: "bc_delivery c = Delivered" "\<forall>c \<in> set cs. bc_delivery c = Delivered" using assms(4) by auto
  from post_charge_new [OF assms(1-3,5) d(1) assms(6,7)] obtain s1 where
    s1: "post_charge cl c key amount s = ((201, bc_ms c), s1)" "serving s1"
      "charges (snd s1) = charges (snd s) @ [idem_row c key amount]" .
  have "charge_of key (snd s1) = Some (idem_row c key amount)" using charge_of_appended [OF s1(3)] assms(6) by simp
  from replays [OF assms(1-3) d(2) s1(2) this] s1 show ?thesis by auto
qed

lemma unique_run:
  assumes "client_ok cl" "\<forall>(c, key, amount) \<in> set qs. bc_delivery c = Delivered \<and> bench_key key \<and> 0 < amount"
    and "distinct (map (\<lambda>(c, key, amount). key) qs)" "distinct (map (\<lambda>(c, key, amount). bc_id c) qs)"
    and "serving s" "(\<lambda>(c, key, amount). key) ` set qs \<inter> ch_idempotency_key ` set (charges (snd s)) = {}"
    and "(\<lambda>(c, key, amount). bc_id c) ` set qs \<inter> ch_id ` set (charges (snd s)) = {}"
  shows "\<exists>s'. post_all cl qs s = (map (\<lambda>(c, key, amount). (201, bc_ms c)) qs, s') \<and> serving s'
    \<and> charges (snd s') = charges (snd s) @ map (\<lambda>(c, key, amount). idem_row c key amount) qs"
  using assms(2-)
proof (induction qs arbitrary: s)
  case (Cons q qs)
  obtain c key amount where q: "q = (c, key, amount)" by (cases q)
  have new: "charge_of key (snd s) = None" "bc_id c \<notin> ch_id ` set (charges (snd s))"
    using Cons.prems(5,6) q by (auto intro: charge_of_absent)
  from Cons.prems(1) q post_charge_new [OF assms(1) _ _ Cons.prems(4) _ new] obtain s1 where
    s1: "post_charge cl c key amount s = ((201, bc_ms c), s1)" "serving s1"
      "charges (snd s1) = charges (snd s) @ [idem_row c key amount]" by auto
  have keys: "ch_idempotency_key (idem_row c key amount) = key" "ch_id (idem_row c key amount) = bc_id c"
    by (simp_all add: idem_row_def)
  have "(\<lambda>(c, key, amount). key) ` set qs \<inter> ch_idempotency_key ` set (charges (snd s1)) = {}"
    "(\<lambda>(c, key, amount). bc_id c) ` set qs \<inter> ch_id ` set (charges (snd s1)) = {}"
    using Cons.prems(2,3,5,6) q s1(3) keys by auto
  from Cons.IH [OF _ _ _ s1(2) this] Cons.prems(1-3) q s1 show ?case by auto
qed simp

lemma show_nat_last: "s @ show_nat n \<noteq> [] \<and> last (s @ show_nat n) \<in> set ''0123456789''"
  using show_nat_chars [of n] show_nat_nonempty [of n] by (auto simp: last_append dest: last_in_set)

lemma graphic_digits: "c \<in> set (show_nat n) \<Longrightarrow> graphic c"
  using show_nat_chars [of n] by (auto simp: graphic_def)

lemma bench_keys:
  "bench_key (unique_key k i)" "bench_key (replay_key k)" "bench_key (shared_key k)" "bench_key (conflict_key k)"
  using graphic_digits [of _ k] graphic_digits [of _ i]
  by (auto simp: bench_key_def unique_key_def replay_key_def shared_key_def conflict_key_def) (simp_all add: graphic_def)

lemma unique_key_inj: "unique_key k i = unique_key k j \<longleftrightarrow> i = j"
  using show_nat_inj [of i j] by (auto simp only: unique_key_def append_assoc same_append_eq)

lemma keys_distinct:
  "unique_key k i \<noteq> replay_key k" "unique_key k i \<noteq> shared_key k" "unique_key k i \<noteq> conflict_key k"
  "replay_key k \<noteq> shared_key k" "replay_key k \<noteq> conflict_key k" "shared_key k \<noteq> conflict_key k"
  by (simp_all add: unique_key_def replay_key_def shared_key_def conflict_key_def)

definition point_ids :: "point_calls \<Rightarrow> uuid list" where
  "point_ids pc =
     map (\<lambda>(i, c). bc_id c) (pc_unique pc) @ map bc_id ([fst (pc_replay pc)] @ pc_shared pc @ [fst (pc_conflict pc)])"

definition all_delivered :: "point_calls \<Rightarrow> bool" where
  "all_delivered pc \<longleftrightarrow>
     \<not> pc_silent pc \<and>
     (\<forall>c \<in> snd ` set (pc_unique pc) \<union> set (pc_shared pc) \<union> {fst (pc_replay pc), snd (pc_replay pc),
        fst (pc_conflict pc), snd (pc_conflict pc)}. bc_delivery c = Delivered)"

lemma charge_count_of:
  assumes "db_up db"
  shows "charge_count key db = int (length (filter (\<lambda>c. ch_idempotency_key c = key) (charges db)))"
  using assms by (simp add: charge_count_def query_def)

lemma idem_row_simps [simp]:
  "ch_idempotency_key (idem_row c key amount) = key" "ch_id (idem_row c key amount) = bc_id c"
  by (simp_all add: idem_row_def)

lemma pair_replayed:
  assumes cl: "client_ok cl" and key: "bench_key key" "0 < amount" and s: "serving s"
    and d: "bc_delivery c = Delivered" "bc_delivery c' = Delivered"
    and new: "key \<notin> ch_idempotency_key ` set (charges (snd s))" "bc_id c \<notin> ch_id ` set (charges (snd s))"
  obtains s1 s2 where "post_charge cl c key amount s = ((201, bc_ms c), s1)"
    "post_charge cl c' key amount s1 = ((200, bc_ms c'), s2)" "serving s2"
    "charges (snd s2) = charges (snd s) @ [idem_row c key amount]"
proof -
  note none = charge_of_absent [OF new(1)]
  obtain s1 where s1: "post_charge cl c key amount s = ((201, bc_ms c), s1)" "serving s1"
    "charges (snd s1) = charges (snd s) @ [idem_row c key amount]"
    by (rule post_charge_new [OF cl key s d(1) none new(2)])
  have "charge_of key (snd s1) = Some (idem_row c key amount)" using charge_of_appended [OF s1(3)] none by simp
  from post_charge_same [OF cl key s1(2) d(2) this] s1 show thesis by (metis that)
qed

lemma pair_conflicts:
  assumes cl: "client_ok cl" and key: "bench_key key" "0 < amount" "0 < amount'" "amount' \<noteq> amount" and s: "serving s"
    and d: "bc_delivery c = Delivered" "bc_delivery c' = Delivered"
    and new: "key \<notin> ch_idempotency_key ` set (charges (snd s))" "bc_id c \<notin> ch_id ` set (charges (snd s))"
  obtains s1 s2 where "post_charge cl c key amount s = ((201, bc_ms c), s1)"
    "post_charge cl c' key amount' s1 = ((409, bc_ms c'), s2)" "serving s2"
    "charges (snd s2) = charges (snd s) @ [idem_row c key amount]"
proof -
  note none = charge_of_absent [OF new(1)]
  obtain s1 where s1: "post_charge cl c key amount s = ((201, bc_ms c), s1)" "serving s1"
    "charges (snd s1) = charges (snd s) @ [idem_row c key amount]"
    by (rule post_charge_new [OF cl key(1,2) s d(1) none new(2)])
  have "charge_of key (snd s1) = Some (idem_row c key amount)" using charge_of_appended [OF s1(3)] none by simp
  from post_charge_conflict [OF cl key(1,3) s1(2) d(2) this key(4)] s1 show thesis by (metis that)
qed

lemma unique_phase:
  assumes cl: "client_ok cl" and s0: "serving s0" "charges (snd s0) = []"
    and un: "distinct (map fst us)" "distinct (map (\<lambda>(i, c). bc_id c) us)"
    and del: "\<forall>p \<in> set us. bc_delivery (snd p) = Delivered"
  obtains s1 where
    "post_all cl (map (\<lambda>(i, c). (c, unique_key k i, 100 + int i)) us) s0 = (map (\<lambda>(i, c). (201, bc_ms c)) us, s1)"
    "serving s1" "ch_idempotency_key ` set (charges (snd s1)) = unique_key k ` fst ` set us"
    "ch_id ` set (charges (snd s1)) = set (map (\<lambda>(i, c). bc_id c) us)"
proof -
  let ?qs = "map (\<lambda>(i, c). (c, unique_key k i, 100 + int i)) us"
  have keys: "map (\<lambda>(c, key, amount). key) ?qs = map (unique_key k) (map fst us)"
    "map (\<lambda>(c, key, amount). bc_id c) ?qs = map (\<lambda>(i, c). bc_id c) us"
    by (auto simp: case_prod_beta)
  have "distinct (map (\<lambda>(c, key, amount). key) ?qs)"
    unfolding keys using un(1) by (simp add: distinct_map inj_on_def unique_key_inj)
  moreover have "distinct (map (\<lambda>(c, key, amount). bc_id c) ?qs)" unfolding keys by (rule un(2))
  moreover have "\<forall>(c, key, amount) \<in> set ?qs. bc_delivery c = Delivered \<and> bench_key key \<and> 0 < amount"
    using del bench_keys(1) by auto
  ultimately obtain s1 where s1: "post_all cl ?qs s0 = (map (\<lambda>(c, key, amount). (201, bc_ms c)) ?qs, s1)" "serving s1"
    "charges (snd s1) = map (\<lambda>(c, key, amount). idem_row c key amount) ?qs"
    using unique_run [OF cl, of ?qs s0] s0 by auto
  have "map (\<lambda>(c, key, amount). (201, bc_ms c)) ?qs = map (\<lambda>(i, c). (201, bc_ms c)) us" by (simp add: case_prod_beta)
  from s1(1) [unfolded this] s1(2) show thesis
  proof (rule that)
    show "ch_idempotency_key ` set (charges (snd s1)) = unique_key k ` fst ` set us"
      "ch_id ` set (charges (snd s1)) = set (map (\<lambda>(i, c). bc_id c) us)"
      unfolding s1(3) by (force simp: image_iff)+
  qed
qed

lemma no_charge_under: "key \<notin> ch_idempotency_key ` set cs \<Longrightarrow> filter (\<lambda>c. ch_idempotency_key c = key) cs = []"
  by (auto simp: filter_empty_conv)

lemma measure_point_passes:
  assumes cl: "client_ok cl" and s0: "serving s0" "charges (snd s0) = []"
    and sh: "pc_shared pc = c # cs" and del: "all_delivered pc"
    and un: "distinct (map fst (pc_unique pc))" and ids: "distinct (point_ids pc)"
  shows "\<exists>m s. measure_point cl k pc s0 = (m, s) \<and> point_passed m
    \<and> pm_created m = 1 \<and> pm_replayed m = length cs \<and> pm_other m = 0
    \<and> length (pm_unique_latencies m) = length (pc_unique pc)
    \<and> pm_shared_latencies m = map bc_ms (c # cs)"
proof -
  obtain r1 r2 where rp: "pc_replay pc = (r1, r2)" by (cases "pc_replay pc")
  obtain x1 x2 where xp: "pc_conflict pc = (x1, x2)" by (cases "pc_conflict pc")
  have d: "bc_delivery r1 = Delivered" "bc_delivery r2 = Delivered" "bc_delivery x1 = Delivered" "bc_delivery x2 = Delivered"
    "\<forall>c' \<in> set (c # cs). bc_delivery c' = Delivered" "\<forall>p \<in> set (pc_unique pc). bc_delivery (snd p) = Delivered"
    using del unfolding all_delivered_def rp xp sh by (auto simp: ball_Un image_iff dest: bspec)
  note ids' = ids [unfolded point_ids_def rp xp sh distinct_append]
  obtain s1 where s1: "post_all cl (map (\<lambda>(i, c). (c, unique_key k i, 100 + int i)) (pc_unique pc)) s0
      = (map (\<lambda>(i, c). (201, bc_ms c)) (pc_unique pc), s1)" "serving s1"
    "ch_idempotency_key ` set (charges (snd s1)) = unique_key k ` fst ` set (pc_unique pc)"
    "ch_id ` set (charges (snd s1)) = set (map (\<lambda>(i, c). bc_id c) (pc_unique pc))"
    using unique_phase [OF cl s0 un _ d(6)] ids' by blast
  have keys1: "replay_key k \<notin> ch_idempotency_key ` set (charges (snd s1))"
    "shared_key k \<notin> ch_idempotency_key ` set (charges (snd s1))"
    "conflict_key k \<notin> ch_idempotency_key ` set (charges (snd s1))"
    unfolding s1(3) using keys_distinct(1-3) [of k] by (auto dest: sym)
  have "bc_id r1 \<notin> ch_id ` set (charges (snd s1))" using ids' s1(4) by auto
  then obtain s2 s3 where
    s3: "post_charge cl r1 (replay_key k) 555 s1 = ((201, bc_ms r1), s2)"
      "post_charge cl r2 (replay_key k) 555 s2 = ((200, bc_ms r2), s3)" "serving s3"
      "charges (snd s3) = charges (snd s1) @ [idem_row r1 (replay_key k) 555]"
    by (rule pair_replayed [OF cl bench_keys(2) zero_less_numeral s1(2) d(1,2) keys1(1)])
  have c3: "bc_id c \<notin> ch_id ` set (charges (snd s3))" using ids' s1(4) by (auto simp: s3(4))
  have "shared_key k \<notin> ch_idempotency_key ` set (charges (snd s3))" using keys1(2) keys_distinct(4) [of k] by (auto simp: s3(4))
  from shared_run [OF cl bench_keys(3) _ d(5) s3(3) charge_of_absent [OF this] c3, of 4200] obtain s4 where
    s4: "post_all cl (map (\<lambda>c. (c, shared_key k, 4200)) (c # cs)) s3 = ((201, bc_ms c) # map (\<lambda>c. (200, bc_ms c)) cs, s4)"
      "serving s4" "charges (snd s4) = charges (snd s3) @ [idem_row c (shared_key k) 4200]" by auto
  have x4: "conflict_key k \<notin> ch_idempotency_key ` set (charges (snd s4))" "bc_id x1 \<notin> ch_id ` set (charges (snd s4))"
    using keys1(3) keys_distinct(5,6) [of k] ids' s1(4) by (auto simp: s4(3) s3(4))
  have neq: "(222 :: int) \<noteq> 111" by simp
  obtain s5 s6 where s6: "post_charge cl x1 (conflict_key k) 111 s4 = ((201, bc_ms x1), s5)"
    "post_charge cl x2 (conflict_key k) 222 s5 = ((409, bc_ms x2), s6)" "serving s6"
    "charges (snd s6) = charges (snd s4) @ [idem_row x1 (conflict_key k) 111]"
    by (rule pair_conflicts [OF cl bench_keys(4) zero_less_numeral zero_less_numeral neq s4(2) d(3,4) x4])
  have counts: "charge_count (replay_key k) (snd s3) = 1" "charge_count (shared_key k) (snd s4) = 1"
    "charge_count (conflict_key k) (snd s6) = 1"
    using keys1 [THEN no_charge_under] keys_distinct(4-6) [of k] s3(3) s4(2) s6(3)
    by (simp_all add: charge_count_of serving_def s6(4) s4(3) s3(4))
  show ?thesis
    unfolding measure_point_def Let_def rp xp sh fst_conv snd_conv s1(1) s3(1,2) s4(1) s6(1,2) prod.case
    by (simp add: point_passed_def shared_invariant_def counts o_def case_prod_beta filter_map)
qed

end
