(* ===== verification/BenchDrivers.thy ===== *)
theory BenchDrivers
  imports BenchResult
begin

section \<open>The scenarios that drive the repository: claim_batch.rs and crash_recovery.rs\<close>

text \<open>
  \<open>claim_batch.rs\<close> and the failpoint part of \<open>crash_recovery.rs\<close> of \<open>src/crates/reliableq-bench/src/scenarios\<close> claim and execute
  jobs with the functions of the repository and the worker in one process. Their loops run over rounds; a \<open>schedule\<close> gives the time
  of each claim, the lease tokens drawn in it, and for each job the time of its finaliser and the time it took. The whole runs are in
  \<open>BenchPoints\<close>. The fuel of
  \<open>claim_rounds\<close> stands for the time a run is given; that a number of rounds is enough is a theorem. \<open>failpoint_rounds\<close> goes on
  until its deadline, on the clock of the harness: \<open>took\<close> is the time a round takes, \<open>sleep\<close> the wait after a round that claimed nothing.
\<close>

record schedule =
  sc_now :: "nat \<Rightarrow> timestamp"
  sc_tok :: "nat \<Rightarrow> uuid \<Rightarrow> uuid"
  sc_exec :: "nat \<Rightarrow> uuid \<Rightarrow> timestamp \<times> duration"

fun seed_jobs ::
    "('v \<Rightarrow> bool) \<Rightarrow> (nat \<Rightarrow> 'v) \<Rightarrow> int \<Rightarrow> nat \<Rightarrow> (timestamp \<times> uuid) list \<Rightarrow> 'v db \<Rightarrow> (uuid list, 'v) repo_result" where
  "seed_jobs jsonb mk mx i [] db = Inr ([], db)"
| "seed_jobs jsonb mk mx i ((now, new_id) # rest) db =
     bind_res (insert_job jsonb now new_id ''charge'' (mk i) mx db) (\<lambda>(row, db1).
     bind_res (seed_jobs jsonb mk mx (Suc i) rest db1) (\<lambda>(ids, db2).
     Inr (jid row # ids, db2)))"

subsection \<open>claim_batch.rs\<close>

fun execute_batch ::
    "('v, 'v db \<times> 'n, 'g) worker_env \<Rightarrow> (uuid \<Rightarrow> timestamp \<times> duration) \<Rightarrow> 'v claimed_job list \<Rightarrow> 'g \<times> 'v db \<times> 'n
     \<Rightarrow> 'g \<times> 'v db \<times> 'n" where
  "execute_batch env clk [] s = s"
| "execute_batch env clk (c # cs) (rng, w) =
     (case clk (jid (cj_job c)) of (now, elapsed) \<Rightarrow>
        case execute_and_finalize env c now elapsed rng w of (_, w', rng') \<Rightarrow> execute_batch env clk cs (rng', w'))"

definition batch_lease :: duration where
  "batch_lease = from_secs 10"

fun claim_rounds ::
    "('v, 'v db \<times> 'n, 'g) worker_env \<Rightarrow> schedule \<Rightarrow> int \<Rightarrow> nat \<Rightarrow> nat \<Rightarrow> 'g \<times> 'v db \<times> 'n
     \<Rightarrow> repo_error + (nat \<times> 'v db \<times> 'n) option" where
  "claim_rounds env sch batch 0 k s = Inr None"
| "claim_rounds env sch batch (Suc fuel) k (rng, db, n) =
     bind_res (claim_pending_jobs (sc_now sch k) (\<lambda>i. False) (sc_tok sch k) ''bench-claim-worker'' batch batch_lease db)
       (\<lambda>(claimed, db1).
       if claimed = [] then Inr (Some (Suc k, db1, n))
       else claim_rounds env sch batch fuel (Suc k) (execute_batch env (sc_exec sch k) claimed (rng, db1, n)))"

definition queue_latencies_ms :: "uuid list \<Rightarrow> 'v db \<Rightarrow> rat list" where
  "queue_latencies_ms ids db =
     (if db_up db
      then concat (map (\<lambda>r. map (\<lambda>a. of_int (at_started_at a - created_at r) / 10 ^ 6 * 1000)
                     (filter (\<lambda>a. at_job_id a = jid r \<and> at_number a = 1) (job_attempts db)))
             (filter (\<lambda>r. jid r \<in> set ids) (jobs db)))
      else [])"

definition driver_gate ::
    "(uuid \<Rightarrow> string) \<Rightarrow> (rat \<Rightarrow> string) \<Rightarrow> uuid list \<Rightarrow> bool \<Rightarrow> rat list \<Rightarrow> rat \<Rightarrow> 'v db \<Rightarrow> repo_error + gate_results" where
  "driver_gate show_uuid show_f0 ids expect_all_terminal samples elapsed db =
     run_gate show_uuid show_f0
       \<lparr>gi_tracked_ids = ids, gi_expect_all_terminal = expect_all_terminal, gi_worker_capacity = None,
        gi_observed_peak_inflight = None, gi_latency_samples_ms = samples, gi_measurement_window_secs = elapsed\<rparr> db"

text \<open>The record of a run at a batch size; \<open>claim_ms\<close> are the measured times of the claims.\<close>

definition claim_batch_record ::
    "'j report_lib \<Rightarrow> timestamp \<Rightarrow> 'j env_info \<Rightarrow> int \<Rightarrow> nat \<Rightarrow> uuid list \<Rightarrow> nat \<Rightarrow> (nat \<Rightarrow> rat) \<Rightarrow> rat \<Rightarrow> rat list
     \<Rightarrow> gate_results \<Rightarrow> 'j run_result" where
  "claim_batch_record lib now host batch run_number ids rounds claim_ms elapsed latencies g =
     (base_run lib now host ''claim_batch'' (rl_json lib [(''batch_size'', JInt batch)]) run_number)
       \<lparr>rr_claim_batch_size := batch,
        rr_job_count := length ids,
        rr_measurement_duration_secs := elapsed,
        rr_throughput := \<lparr>tp_unit = ''jobs_per_sec'', tp_value = of_nat (length ids) / max elapsed (1 / 10 ^ 9)\<rparr>,
        rr_latency_percentiles := percentiles_of_samples latencies,
        rr_error_counts := default_error_counts,
        rr_correctness_results := gate_correctness lib g,
        rr_extra := rl_json lib
          [(''claim_transaction_latency_ms'', JPercentiles (percentiles_of_samples (map claim_ms [0..<rounds]))),
           (''claim_rounds'', JNat rounds),
           (''claim_transactions_per_sec'', JRat (of_nat rounds / max elapsed (1 / 10 ^ 9))),
           (''queue_latency_note'', JStr ''created_at -> first job_attempts.started_at''),
           (''driver_note'', JStr (''drives reliableq_db::jobs::claim_pending_jobs + ''
              @ ''reliableq_worker::execute_and_finalize directly, not the compiled worker binary ''
              @ ''(see file header doc comment)''))]\<rparr>"

subsection \<open>crash_recovery.rs: failpoints\<close>

fun failpoint_label :: "failpoint_name \<Rightarrow> string" where
  "failpoint_label AfterClaimBeforeEffect = ''after_claim_before_effect''"
| "failpoint_label AfterEffectBeforeFinalize = ''after_effect_before_finalize''"
| "failpoint_label DuringFinalize = ''during_finalize''"

definition failpoint_lease :: duration where
  "failpoint_lease = from_secs 2"

text \<open>
  One execution under \<open>CrashFirstAttempt\<close>: a job asks for the failpoint it crashes at once at most, and the set it is looked up in
  grows exactly when it crashes there.
\<close>

definition execute_crashing ::
    "('v, 'v db \<times> 'n, 'g) worker_env \<Rightarrow> failpoint_name \<Rightarrow> 'v claimed_job \<Rightarrow> timestamp \<times> duration
     \<Rightarrow> uuid list \<times> 'g \<times> 'v db \<times> 'n \<Rightarrow> uuid list \<times> 'g \<times> 'v db \<times> 'n" where
  "execute_crashing env mine c clk s =
     (case s of (seen, rng, w) \<Rightarrow> case clk of (now, elapsed) \<Rightarrow>
        case execute_and_finalize_with_failpoints env (\<lambda>name i. fst (crash_first_attempt mine name i seen)) c now elapsed rng w of
          ((ending, _), w', rng') \<Rightarrow>
            (if ending = Crashed mine then snd (crash_first_attempt mine mine (jid (cj_job c)) seen) else seen, rng', w'))"

fun execute_crashing_all ::
    "('v, 'v db \<times> 'n, 'g) worker_env \<Rightarrow> failpoint_name \<Rightarrow> (uuid \<Rightarrow> timestamp \<times> duration) \<Rightarrow> 'v claimed_job list
     \<Rightarrow> uuid list \<times> 'g \<times> 'v db \<times> 'n \<Rightarrow> uuid list \<times> 'g \<times> 'v db \<times> 'n" where
  "execute_crashing_all env mine clk [] s = s"
| "execute_crashing_all env mine clk (c # cs) s =
     execute_crashing_all env mine clk cs (execute_crashing env mine c (clk (jid (cj_job c))) s)"

definition remaining_tracked :: "uuid list \<Rightarrow> 'v db \<Rightarrow> repo_error + nat" where
  "remaining_tracked ids db =
     query db (Inr (length (filter (\<lambda>r. jid r \<in> set ids \<and> status r \<in> {''PENDING'', ''RUNNING''}) (jobs db))))"

partial_function (option) failpoint_rounds ::
    "('v, 'v db \<times> 'n, 'g) worker_env \<Rightarrow> failpoint_name \<Rightarrow> schedule \<Rightarrow> (nat \<Rightarrow> duration) \<Rightarrow> (duration \<Rightarrow> nat \<Rightarrow> nat)
     \<Rightarrow> uuid list \<Rightarrow> nat \<Rightarrow> nat \<Rightarrow> nat \<Rightarrow> uuid list \<times> 'g \<times> 'v db \<times> 'n
     \<Rightarrow> (repo_error + (bool \<times> nat \<times> 'v db \<times> 'n)) option" where
  "failpoint_rounds env mine sch took sleep ids deadline now k s =
     (case s of (seen, rng, db, n) \<Rightarrow>
        if deadline \<le> now then Some (Inr (False, now, db, n))
        else case claim_pending_jobs (sc_now sch k) (\<lambda>i. False) (sc_tok sch k) ''bench-crash-worker'' 10 failpoint_lease db of
          Inl e \<Rightarrow> Some (Inl e)
        | Inr (claimed, db1) \<Rightarrow>
            if claimed = [] then
              (case remaining_tracked ids db1 of
                 Inl e \<Rightarrow> Some (Inl e)
               | Inr remaining \<Rightarrow>
                   if remaining = 0 then Some (Inr (True, now + took k, db1, n))
                   else failpoint_rounds env mine sch took sleep ids deadline (sleep (failpoint_lease div 4) (now + took k)) (Suc k)
                          (seen, rng, db1, n))
            else failpoint_rounds env mine sch took sleep ids deadline (now + took k) (Suc k)
                   (execute_crashing_all env mine (sc_exec sch k) claimed (seen, rng, db1, n)))"

definition recovery_gaps_ms :: "uuid list \<Rightarrow> 'v db \<Rightarrow> rat list" where
  "recovery_gaps_ms ids db =
     (if db_up db
      then concat (map (\<lambda>a1. map (\<lambda>a2. of_int (at_started_at a2 - at_started_at a1) / 10 ^ 6 * 1000)
                     (filter (\<lambda>a2. at_job_id a2 = at_job_id a1 \<and> at_number a2 = at_number a1 + 1) (job_attempts db)))
             (filter (\<lambda>a1. at_job_id a1 \<in> set ids \<and> at_number a1 = 1) (job_attempts db)))
      else [])"

definition lease_lost_count :: "uuid list \<Rightarrow> 'v db \<Rightarrow> nat" where
  "lease_lost_count ids db =
     (if db_up db
      then length (filter (\<lambda>a. at_job_id a \<in> set ids \<and> at_outcome a = Some ''LEASE_LOST'') (job_attempts db)) else 0)"

definition failpoint_record ::
    "'j report_lib \<Rightarrow> timestamp \<Rightarrow> 'j env_info \<Rightarrow> failpoint_name \<Rightarrow> nat \<Rightarrow> uuid list \<Rightarrow> bool \<Rightarrow> rat \<Rightarrow> rat list \<Rightarrow> nat
     \<Rightarrow> gate_results \<Rightarrow> 'j run_result" where
  "failpoint_record lib now host mine run_number ids reached_quiescence elapsed recovery_gaps lost g =
     (base_run lib now host ''crash_recovery_failpoint'' (rl_json lib [(''failpoint'', JStr (failpoint_label mine))]) run_number)
       \<lparr>rr_lease_duration_secs := as_secs_f64 failpoint_lease,
        rr_job_count := length ids,
        rr_measurement_duration_secs := elapsed,
        rr_throughput := \<lparr>tp_unit = ''jobs_per_sec'', tp_value = of_nat (length ids) / max elapsed (1 / 10 ^ 9)\<rparr>,
        rr_latency_percentiles := percentiles_of_samples recovery_gaps,
        rr_error_counts := default_error_counts,
        rr_correctness_results := gate_correctness lib g,
        rr_extra := rl_json lib
          [(''reached_quiescence'', JBool reached_quiescence),
           (''jobs_that_crashed_and_recovered'', JNat (length recovery_gaps)),
           (''lease_lost_attempts'', JNat lost),
           (''recovery_gap_ms_note'', JStr ''attempt1.started_at -> attempt2.started_at, i.e. crash-to-reclaim wall time''),
           (''driver_note'', JStr (''drives reliableq_worker::execute_and_finalize_with_failpoints directly; ''
              @ ''the compiled worker binary has no flag to enable failpoints (SPEC.md sec. 12)''))]\<rparr>"

end
