(* ===== verification/BenchRuns.thy ===== *)
theory BenchRuns
  imports BenchDrivers
begin

section \<open>What the driven scenarios guarantee\<close>

text \<open>
  The loop of \<open>claim_batch.rs\<close> drains the queue: with a charge service that accepts every charge, \<open>n\<close> waiting jobs are succeeded
  after \<open>n\<close> divided by the batch size rounds, rounded up, and one more that finds nothing. The rounds of the failpoint scenario keep the
  invariants of the tables.
\<close>

subsection \<open>Databases that differ in charges only\<close>

definition same_jobs :: "'v db \<Rightarrow> 'v db \<Rightarrow> bool" where
  "same_jobs db db' \<longleftrightarrow> jobs db' = jobs db \<and> job_attempts db' = job_attempts db \<and> db_up db' = db_up db"

lemma same_jobs_frame:
  assumes "same_jobs db db'"
  shows "db_inv db' = db_inv db" "owns i t db' = owns i t db" "issued_tokens db' = issued_tokens db"
  using assms by (simp_all add: same_jobs_def db_inv_def attempts_of_def owns_def issued_tokens_def)

text \<open>A sender whose every reply is a success and which does not touch the tables of jobs.\<close>

definition healthy :: "('v, 'v db \<times> 'n, 'g) worker_env \<Rightarrow> bool" where
  "healthy env \<longleftrightarrow>
     (\<forall>m db n. case we_send env m (db, n) of
        (reply, db', n') \<Rightarrow> (\<exists>code body. reply = Inr (code, body) \<and> is_success code) \<and> same_jobs db db')"

lemma healthy_charge:
  assumes "healthy env" "parse_charge_payload (we_from_value env) pl = Inr p"
  obtains ms db1 n1 where "execute_charge env i pl (db, n) = ((Inr (), ms), db1, n1)" "same_jobs db db1"
proof -
  obtain reply db1 n1 where r: "we_send env (charge_request env i p) (db, n) = (reply, db1, n1)"
    by (cases "we_send env (charge_request env i p) (db, n)") auto
  have "case we_send env (charge_request env i p) (db, n) of
      (reply, db', n') \<Rightarrow> (\<exists>code body. reply = Inr (code, body) \<and> is_success code) \<and> same_jobs db db'"
    by (rule assms(1) [unfolded healthy_def, rule_format])
  with r obtain code body where ok: "reply = Inr (code, body)" "is_success code" "same_jobs db db1" by auto
  then have "fst (judge_reply env reply) = Inr ()" by (simp add: judge_reply_ok)
  then obtain ms where "judge_reply env reply = (Inr (), ms)" by (cases "judge_reply env reply") simp
  with r assms(2) ok(3) that show thesis by (simp add: execute_charge_def)
qed

subsection \<open>Executing a batch\<close>

definition to_run :: "('v, 'w, 'g) worker_env \<Rightarrow> 'v db \<Rightarrow> 'v claimed_job \<Rightarrow> bool" where
  "to_run env db c \<longleftrightarrow>
     (\<exists>t. lease_token (cj_job c) = Some t \<and> owns (jid (cj_job c)) t db)
     \<and> (\<exists>p. parse_charge_payload (we_from_value env) (payload (cj_job c)) = Inr p)"

lemma execute_success:
  assumes "healthy env" "db_inv db" "db_up db" "to_run env db c"
  obtains t ms db1 n1 r rng' where "execute_and_finalize env c now elapsed rng (db, n)
      = (r, (verdict_db now (jid (cj_job c)) t (Success ms) db1, n1), rng')"
    "same_jobs db db1" "owns (jid (cj_job c)) t db"
proof -
  let ?i = "jid (cj_job c)"
  obtain t p where t: "lease_token (cj_job c) = Some t" "owns ?i t db"
    and p: "parse_charge_payload (we_from_value env) (payload (cj_job c)) = Inr p"
    using assms(4) by (auto simp: to_run_def)
  obtain ms db1 n1 where ch: "execute_charge env ?i (payload (cj_job c)) (db, n) = ((Inr (), ms), db1, n1)" "same_jobs db db1"
    by (rule healthy_charge [OF assms(1) p])
  have d1: "db_inv db1" "owns ?i t db1" "db_up db1"
    using same_jobs_frame [OF ch(2)] assms(2,3) t(2) ch(2) by (simp_all add: same_jobs_def)
  have "finish now ?i t (kind (cj_job c)) (Success (duration_ms elapsed)) db1
      = ((Finalized (Success (duration_ms elapsed)) True, verdict_metrics (kind (cj_job c)) (Success (duration_ms elapsed))),
         verdict_db now ?i t (Success (duration_ms elapsed)) db1)"
    using finish_result [OF d1(1)] d1(2,3) by simp
  then have "\<exists>r rng'. execute_and_finalize env c now elapsed rng (db, n)
      = (r, (verdict_db now ?i t (Success (duration_ms elapsed)) db1, n1), rng')"
    using ch(1) t(1)
    by (simp add: execute_and_finalize_def execute_and_finalize_with_failpoints_def noop_failpoints_def choose_verdict_def Let_def)
  with that ch(2) t(2) show thesis by blast
qed

definition succeeded_row :: "'v job_row \<Rightarrow> bool" where
  "succeeded_row r \<longleftrightarrow> status r = as_db_str Succeeded"

text \<open>What a batch does to the rows: those of the given ids succeed, the others stay.\<close>

definition finishes :: "uuid set \<Rightarrow> 'v db \<Rightarrow> 'v db \<Rightarrow> bool" where
  "finishes ids db db' \<longleftrightarrow>
     db_inv db' \<and> db_up db' \<and> issued_tokens db' = issued_tokens db
     \<and> (\<exists>h. jobs db' = map h (jobs db)
          \<and> (\<forall>r \<in> set (jobs db). jid (h r) = jid r \<and> (if jid r \<in> ids then succeeded_row (h r) else h r = r)))"

lemma finishes_refl: "db_inv db \<Longrightarrow> db_up db \<Longrightarrow> finishes {} db db"
  by (auto simp: finishes_def intro: exI [of _ id])

lemma finishes_trans:
  assumes "finishes A db db1" "finishes B db1 db2" "A \<inter> B = {}"
  shows "finishes (A \<union> B) db db2"
proof -
  obtain g h where g: "jobs db1 = map g (jobs db)"
      "\<And>r. r \<in> set (jobs db) \<Longrightarrow> jid (g r) = jid r \<and> (if jid r \<in> A then succeeded_row (g r) else g r = r)"
    and h: "jobs db2 = map h (jobs db1)"
      "\<And>r. r \<in> set (jobs db1) \<Longrightarrow> jid (h r) = jid r \<and> (if jid r \<in> B then succeeded_row (h r) else h r = r)"
    using assms(1,2) unfolding finishes_def by blast
  have "jid (h (g r)) = jid r \<and> (if jid r \<in> A \<union> B then succeeded_row (h (g r)) else h (g r) = r)"
    if r: "r \<in> set (jobs db)" for r
  proof -
    have "g r \<in> set (jobs db1)" using r g(1) by simp
    from h(2) [OF this] g(2) [OF r] assms(3) show ?thesis by (auto split: if_splits)
  qed
  moreover have "jobs db2 = map (\<lambda>r. h (g r)) (jobs db)" unfolding h(1) g(1) by simp
  moreover have "db_inv db2" "db_up db2" "issued_tokens db2 = issued_tokens db"
    using assms(1,2) by (simp_all add: finishes_def)
  ultimately show ?thesis unfolding finishes_def by (intro conjI exI [of _ "\<lambda>r. h (g r)"]) blast+
qed

lemma verdict_finishes:
  assumes "db_inv db" "db_up db" "owns i t db" "same_jobs db db1"
  shows "finishes {i} db (verdict_db now i t (Success ms) db1)"
proof -
  let ?h = "\<lambda>r. if holds_lease i t r then succeed_row now r else r"
  have d1: "db_inv db1" "owns i t db1" "db_up db1"
    using same_jobs_frame [OF assms(4)] assms by (simp_all add: same_jobs_def)
  have inv: "db_inv (verdict_db now i t (Success ms) db1)"
    by (rule finalize_preserves [OF d1(1) finalize_owned [OF d1]]) simp
  obtain q where q: "q \<in> set (jobs db)" "holds_lease i t q" using assms(3) by (auto simp: owns_def)
  have "holds_lease i t r" if "r \<in> set (jobs db)" "jid r = i" for r
    using db_inv_same_id [OF assms(1) q(1) that(1)] q(2) that(2) by (simp add: holds_lease_def)
  then have "\<forall>r \<in> set (jobs db). jid (?h r) = jid r \<and> (if jid r \<in> {i} then succeeded_row (?h r) else ?h r = r)"
    by (auto simp: succeed_row_def succeeded_row_def holds_lease_def)
  moreover have "issued_tokens (verdict_db now i t (Success ms) db1) = issued_tokens db"
    using same_jobs_frame(3) [OF assms(4)]
    by (simp add: verdict_db_def issued_tokens_update_attempts succeed_attempt_def)
  moreover have "jobs (verdict_db now i t (Success ms) db1) = map ?h (jobs db)" "db_up (verdict_db now i t (Success ms) db1)"
    using assms(4) d1(3) by (simp_all add: same_jobs_def)
  ultimately show ?thesis using inv unfolding finishes_def by blast
qed

lemma finishes_owns:
  assumes "finishes ids db db'" "owns j u db" "j \<notin> ids"
  shows "owns j u db'"
proof -
  obtain h r where h: "jobs db' = map h (jobs db)" "\<forall>r \<in> set (jobs db). jid r \<notin> ids \<longrightarrow> h r = r"
    and r: "r \<in> set (jobs db)" "holds_lease j u r"
    using assms(1,2) unfolding finishes_def owns_def by (metis (no_types, lifting))
  then have "h r = r" using assms(3) by (simp add: holds_lease_def)
  with h(1) r show ?thesis by (force simp: owns_def)
qed

lemma execute_batch_finishes:
  assumes "healthy env" "db_inv db" "db_up db" "distinct (map (\<lambda>c. jid (cj_job c)) cs)" "\<forall>c \<in> set cs. to_run env db c"
  shows "\<exists>rng' db' n'. execute_batch env clk cs (rng, db, n) = (rng', db', n') \<and> finishes ((\<lambda>c. jid (cj_job c)) ` set cs) db db'"
  using assms(2-)
proof (induction cs arbitrary: db n rng)
  case Nil
  then show ?case by (simp add: finishes_refl)
next
  case (Cons c cs)
  obtain now elapsed where clk: "clk (jid (cj_job c)) = (now, elapsed)" by (cases "clk (jid (cj_job c))")
  from Cons.prems(4) have "to_run env db c" by simp
  then obtain t ms db1 n1 res rng1 where e: "execute_and_finalize env c now elapsed rng (db, n)
      = (res, (verdict_db now (jid (cj_job c)) t (Success ms) db1, n1), rng1)" "same_jobs db db1" "owns (jid (cj_job c)) t db"
    by (rule execute_success [OF assms(1) Cons.prems(1,2)])
  let ?db2 = "verdict_db now (jid (cj_job c)) t (Success ms) db1"
  have f: "finishes {jid (cj_job c)} db ?db2" by (rule verdict_finishes [OF Cons.prems(1,2) e(3,2)])
  have todo: "\<forall>d \<in> set cs. to_run env ?db2 d"
  proof
    fix d assume d: "d \<in> set cs"
    then have other: "jid (cj_job d) \<notin> {jid (cj_job c)}" using Cons.prems(3) by (auto simp: image_iff)
    from d Cons.prems(4) obtain u p where "lease_token (cj_job d) = Some u" "owns (jid (cj_job d)) u db"
      "parse_charge_payload (we_from_value env) (payload (cj_job d)) = Inr p" by (auto simp: to_run_def)
    with finishes_owns [OF f _ other] show "to_run env ?db2 d" by (auto simp: to_run_def)
  qed
  have inv: "db_inv ?db2" "db_up ?db2" "distinct (map (\<lambda>c. jid (cj_job c)) cs)"
    using f Cons.prems(3) unfolding finishes_def by simp_all
  from Cons.IH [OF inv todo] obtain rng' db' n' where
    "execute_batch env clk cs (rng1, ?db2, n1) = (rng', db', n')" "finishes ((\<lambda>c. jid (cj_job c)) ` set cs) ?db2 db'"
    by blast
  moreover from finishes_trans [OF f this(2)] Cons.prems(3) have "finishes ((\<lambda>c. jid (cj_job c)) ` set (c # cs)) db db'"
    by (auto simp: image_iff)
  ultimately show ?case using clk e(1) by simp
qed

subsection \<open>One round on a quiet queue\<close>

lemma length_filter_keys:
  assumes "distinct (map f xs)" "A \<subseteq> f ` set xs"
  shows "length (filter (\<lambda>x. f x \<in> A) xs) = card A"
proof -
  have "distinct (map f (filter (\<lambda>x. f x \<in> A) xs))" using assms(1) by (rule distinct_map_filter)
  then have "card (set (map f (filter (\<lambda>x. f x \<in> A) xs))) = length (map f (filter (\<lambda>x. f x \<in> A) xs))"
    by (rule distinct_card)
  moreover have "set (map f (filter (\<lambda>x. f x \<in> A) xs)) = A" using assms(2) by auto
  ultimately show ?thesis by simp
qed

text \<open>Every job waits with a valid payload, attempts left and a schedule before \<open>t\<close>, or has succeeded.\<close>

definition waiting_row :: "('v, 'w, 'g) worker_env \<Rightarrow> timestamp \<Rightarrow> 'v job_row \<Rightarrow> bool" where
  "waiting_row env t r \<longleftrightarrow>
     status r = as_db_str Pending \<and> next_attempt_at r \<le> t \<and> attempts r < max_attempts r
     \<and> (\<exists>p. parse_charge_payload (we_from_value env) (payload r) = Inr p)"

definition quiet :: "('v, 'w, 'g) worker_env \<Rightarrow> timestamp \<Rightarrow> 'v db \<Rightarrow> bool" where
  "quiet env t db \<longleftrightarrow> (\<forall>r \<in> set (jobs db). waiting_row env t r \<or> succeeded_row r)"

definition left :: "'v db \<Rightarrow> 'v job_row list" where
  "left db = filter (\<lambda>r. \<not> succeeded_row r) (jobs db)"

lemma quiet_rows:
  assumes "quiet env t db" "t \<le> now" "r \<in> set (jobs db)"
  shows "cleaned_row now locked r = r" "claimable now r \<longleftrightarrow> \<not> succeeded_row r"
  using assms
  by (auto simp: quiet_def waiting_row_def succeeded_row_def cleaned_row_def exhausted_def expired_running_def claimable_def
      due_pending_def)

lemma quiet_cleaned:
  assumes "quiet env t db" "t \<le> now"
  shows "jobs (cleaned_db now locked db) = jobs db"
  using quiet_rows(1) [OF assms] by (simp add: map_idI)

lemma due_rows_distinct:
  assumes "distinct (map jid (jobs db))"
  shows "distinct (map jid (due_rows now locked limit db))"
proof -
  have "distinct (map jid (sort_key (\<lambda>r. (next_attempt_at r, created_at r)) (filter (claimable now) (jobs db))))"
    using distinct_map_filter [OF assms] by (simp add: distinct_map)
  then show ?thesis unfolding due_rows_def take_map [symmetric] by (intro distinct_take distinct_map_filter)
qed

lemma card_claimed_ids:
  assumes "db_inv db" "quiet env t db" "t \<le> now"
  shows "card (claimed_ids now (\<lambda>i. False) limit db) = min limit (length (left db))"
    "claimed_ids now (\<lambda>i. False) limit db \<subseteq> jid ` set (left db)"
proof -
  let ?db2 = "cleaned_db now (\<lambda>i. False) db" and ?rs = "due_rows now (\<lambda>i. False) limit (cleaned_db now (\<lambda>i. False) db)"
  have jobs: "jobs ?db2 = jobs db" by (rule quiet_cleaned [OF assms(2,3)])
  have left: "filter (claimable now) (jobs ?db2) = left db"
    unfolding jobs left_def using quiet_rows(2) [OF assms(2,3)] by (auto intro: filter_cong)
  have "distinct (map jid ?rs)" by (rule due_rows_distinct) (use db_inv_distinct [OF assms(1)] jobs in simp)
  then have "card (jid ` set ?rs) = length ?rs" by (metis distinct_card length_map list.set_map)
  also have "\<dots> = min limit (length (left db))" unfolding due_rows_def left by simp
  finally show "card (claimed_ids now (\<lambda>i. False) limit db) = min limit (length (left db))" by (simp only: claimed_ids_def)
  have "set ?rs \<subseteq> set (filter (claimable now) (jobs ?db2))" unfolding due_rows_def by (auto dest: in_set_takeD)
  then show "claimed_ids now (\<lambda>i. False) limit db \<subseteq> jid ` set (left db)" unfolding claimed_ids_def left by blast
qed

lemma issued_tokens_claimed:
  "issued_tokens (claimed_db now locked tok worker limit lease db) \<subseteq> issued_tokens db \<union> tok ` jid ` set (jobs db)"
proof
  fix t assume "t \<in> issued_tokens (claimed_db now locked tok worker limit lease db)"
  then have "Some t \<in> at_lease_token ` set (job_attempts (cleaned_db now locked db)) \<or> t \<in> tok ` jid ` set (jobs db)"
    by (auto simp: issued_tokens_def claimed_db_def Let_def new_attempt_def)
  then show "t \<in> issued_tokens db \<union> tok ` jid ` set (jobs db)"
    using issued_tokens_cleaned [of now locked db] unfolding issued_tokens_def by blast
qed

text \<open>A claim on a quiet queue: what it returns can be run, and is a batch of what is left.\<close>

lemma queue_claim:
  assumes "db_inv db" "quiet env t db" "t \<le> now" "fresh_tokens tok db"
    and "claim_pending_jobs now (\<lambda>i. False) tok worker limit lease db = Inr (cs, db1)"
  defines "ids \<equiv> (\<lambda>c. jid (cj_job c)) ` set cs"
  shows "db_inv db1" "db_up db1" "distinct (map (\<lambda>c. jid (cj_job c)) cs)" "\<forall>c \<in> set cs. to_run env db1 c"
    "card ids = min (nat limit) (length (left db))" "ids \<subseteq> jid ` set (left db)"
    "jobs db1 = map (\<lambda>r. if jid r \<in> ids then claim_row now lease (tok (jid r)) r else r) (jobs db)"
    "issued_tokens db1 \<subseteq> issued_tokens db \<union> tok ` jid ` set (jobs db)"
proof -
  note res = claim_Inr [OF assms(1,5)]
  have ids: "ids = claimed_ids now (\<lambda>i. False) (nat limit) db"
    using claimed_ids_iff [OF assms(1)] unfolding ids_def res(3) by blast
  show "db_inv db1" unfolding res(4) by (rule claimed_db_inv [OF assms(1,4)])
  show "db_up db1" by (rule claim_db_up [OF assms(1,5)])
  show "distinct (map (\<lambda>c. jid (cj_job c)) cs)" unfolding res(3) by (rule claimed_jobs_distinct [OF assms(1)])
  show "card ids = min (nat limit) (length (left db))" "ids \<subseteq> jid ` set (left db)"
    unfolding ids by (rule card_claimed_ids [OF assms(1-3)])+
  show "jobs db1 = map (\<lambda>r. if jid r \<in> ids then claim_row now lease (tok (jid r)) r else r) (jobs db)"
    unfolding res(4) claimed_db_jobs ids using quiet_rows(1) [OF assms(2,3)] by simp
  show "issued_tokens db1 \<subseteq> issued_tokens db \<union> tok ` jid ` set (jobs db)"
    unfolding res(4) by (rule issued_tokens_claimed)
  show "\<forall>c \<in> set cs. to_run env db1 c"
  proof
    fix c assume "c \<in> set cs"
    then obtain r where r: "r \<in> set (jobs db)" "claimable now r" "jid r \<in> claimed_ids now (\<lambda>i. False) (nat limit) db"
      "cj_job c = claim_row now lease (tok (jid r)) r"
      using claimed_row_before [OF assms(1)] unfolding res(3) by metis
    have "waiting_row env t r"
      using assms(2) r(1,2) quiet_rows(2) [OF assms(2,3) r(1)] by (auto simp: quiet_def)
    then show "to_run env db1 c"
      using claimed_owner(2) [OF assms(1) r(1,3)] r(4) unfolding res(4) by (auto simp: to_run_def waiting_row_def)
  qed
qed

lemma queue_round:
  assumes "db_inv db" "quiet env t db" "t \<le> now" "fresh_tokens tok db"
    and "claim_pending_jobs now (\<lambda>i. False) tok worker limit lease db = Inr (cs, db1)"
    and "finishes ((\<lambda>c. jid (cj_job c)) ` set cs) db1 db2"
  shows "quiet env t db2" "length (left db2) = length (left db) - nat limit" "map jid (jobs db2) = map jid (jobs db)"
proof -
  let ?ids = "(\<lambda>c. jid (cj_job c)) ` set cs"
  note q = queue_claim [OF assms(1-5)]
  obtain h where h: "jobs db2 = map h (jobs db1)"
    "\<forall>r \<in> set (jobs db1). jid (h r) = jid r \<and> (if jid r \<in> ?ids then succeeded_row (h r) else h r = r)"
    using assms(6) by (auto simp: finishes_def)
  obtain f where f: "jobs db2 = map f (jobs db)"
    "\<And>r. r \<in> set (jobs db) \<Longrightarrow> jid (f r) = jid r"
    "\<And>r. r \<in> set (jobs db) \<Longrightarrow> jid r \<in> ?ids \<Longrightarrow> succeeded_row (f r)"
    "\<And>r. r \<in> set (jobs db) \<Longrightarrow> jid r \<notin> ?ids \<Longrightarrow> f r = r"
  proof
    let ?c = "\<lambda>r. if jid r \<in> ?ids then claim_row now lease (tok (jid r)) r else r"
    let ?g = "\<lambda>r. h (?c r)"
    show "jobs db2 = map ?g (jobs db)" unfolding h(1) q(7) by simp
    fix r assume r: "r \<in> set (jobs db)"
    then have "?c r \<in> set (jobs db1)" unfolding q(7) by simp
    note hr = bspec [OF h(2) this]
    show "jid (?g r) = jid r" using hr by (cases "jid r \<in> ?ids") simp_all
    show "succeeded_row (?g r)" if "jid r \<in> ?ids" using hr that by simp
    show "?g r = r" if "jid r \<notin> ?ids" using hr that by simp
  qed
  have succ: "succeeded_row (f r) \<longleftrightarrow> jid r \<in> ?ids \<or> succeeded_row r" if "r \<in> set (jobs db)" for r
    using f(3,4) [OF that] by (cases "jid r \<in> ?ids") simp_all
  show "quiet env t db2" unfolding quiet_def
  proof
    fix s assume "s \<in> set (jobs db2)"
    then obtain r where r: "r \<in> set (jobs db)" "s = f r" unfolding f(1) by auto
    show "waiting_row env t s \<or> succeeded_row s"
      using f(3,4) [OF r(1)] assms(2) r unfolding quiet_def by (cases "jid r \<in> ?ids") auto
  qed
  show "map jid (jobs db2) = map jid (jobs db)" unfolding f(1) using f(2) by simp
  have "filter (\<lambda>r. \<not> succeeded_row (f r)) (jobs db) = filter (\<lambda>r. jid r \<notin> ?ids) (left db)"
    unfolding left_def filter_filter by (intro filter_cong) (auto simp: succ)
  then have "length (left db2) = length (filter (\<lambda>r. jid r \<notin> ?ids) (left db))"
    by (simp add: left_def f(1) filter_map o_def)
  then have "length (left db2) = length (left db) - length (filter (\<lambda>r. jid r \<in> ?ids) (left db))"
    using sum_length_filter_compl [of "\<lambda>r. jid r \<in> ?ids" "left db"] by simp
  moreover have "length (filter (\<lambda>r. jid r \<in> ?ids) (left db)) = card ?ids"
    by (rule length_filter_keys [OF _ q(6)]) (unfold left_def, intro distinct_map_filter db_inv_distinct assms(1))
  ultimately show "length (left db2) = length (left db) - nat limit" using q(5) by (simp add: min_def split: if_splits)
qed

subsection \<open>The loop\<close>

text \<open>The tokens drawn in the rounds from \<open>k\<close> on are new and not drawn twice.\<close>

definition draws :: "schedule \<Rightarrow> uuid set \<Rightarrow> uuid set \<Rightarrow> nat \<Rightarrow> nat \<Rightarrow> bool" where
  "draws sch ids used k fuel \<longleftrightarrow>
     (\<forall>j \<in> {k ..< k + fuel}. inj_on (sc_tok sch j) ids \<and> sc_tok sch j ` ids \<inter> used = {}
        \<and> (\<forall>l \<in> {j <..< k + fuel}. sc_tok sch j ` ids \<inter> sc_tok sch l ` ids = {}))"

lemma draws_next:
  assumes "draws sch ids used k (Suc fuel)" "used' \<subseteq> used \<union> sc_tok sch k ` ids"
  shows "draws sch ids used' (Suc k) fuel"
  using assms unfolding draws_def by (fastforce simp: disjoint_iff)

lemma draws_fresh: "draws sch (jid ` set (jobs db)) (issued_tokens db) k (Suc fuel) \<Longrightarrow> fresh_tokens (sc_tok sch k) db"
  by (simp add: draws_def fresh_tokens_def)

lemma claim_rounds_drain:
  assumes "healthy env" "db_inv db" "db_up db" "quiet env t db" "0 \<le> batch"
    and "\<forall>j \<in> {k .. k + fuel}. t \<le> sc_now sch j"
    and "draws sch (jid ` set (jobs db)) (issued_tokens db) k (Suc fuel)"
    and "length (left db) \<le> nat batch * fuel"
  shows "\<exists>rounds db' n'. claim_rounds env sch batch (Suc fuel) k (rng, db, n) = Inr (Some (rounds, db', n'))
    \<and> rounds \<le> Suc (k + fuel) \<and> db_inv db' \<and> db_up db' \<and> map jid (jobs db') = map jid (jobs db)
    \<and> (\<forall>r \<in> set (jobs db'). succeeded_row r)"
  using assms(2-4,6-)
proof (induction fuel arbitrary: db rng n k)
  case (0 db rng n k)
  obtain cs db1 where cl: "claim_pending_jobs (sc_now sch k) (\<lambda>i. False) (sc_tok sch k) ''bench-claim-worker'' batch batch_lease db = Inr (cs, db1)"
    using claim_result [OF 0(1,2) assms(5)] by blast
  have now: "t \<le> sc_now sch k" using 0(4) by simp
  note q = queue_claim [OF 0(1,3) now draws_fresh [OF 0(5)] cl]
  have none: "left db = []" using 0(6) by simp
  with q(6) have "cs = []" by simp
  moreover have "jobs db1 = jobs db" using q(7) \<open>cs = []\<close> by simp
  moreover have "\<forall>r \<in> set (jobs db). succeeded_row r" using none by (simp add: left_def filter_empty_conv)
  ultimately show ?case using cl q(1,2) by simp
next
  case (Suc fuel db rng n k)
  obtain cs db1 where cl: "claim_pending_jobs (sc_now sch k) (\<lambda>i. False) (sc_tok sch k) ''bench-claim-worker'' batch batch_lease db = Inr (cs, db1)"
    using claim_result [OF Suc.prems(1,2) assms(5)] by blast
  have now: "t \<le> sc_now sch k" using Suc.prems(4) by simp
  note q = queue_claim [OF Suc.prems(1,3) now draws_fresh [OF Suc.prems(5)] cl]
  from execute_batch_finishes [OF assms(1) q(1-4)] obtain rng' db2 n2 where
    ex: "execute_batch env (sc_exec sch k) cs (rng, db1, n) = (rng', db2, n2)" "finishes ((\<lambda>c. jid (cj_job c)) ` set cs) db1 db2"
    by blast
  note r = queue_round [OF Suc.prems(1,3) now draws_fresh [OF Suc.prems(5)] cl ex(2)]
  show ?case
  proof (cases "cs = []")
    case True
    with q(5) have "batch = 0 \<or> left db = []" using assms(5) by (auto simp: min_def split: if_splits)
    then have none: "left db = []" using Suc.prems(6) by auto
    moreover have "jobs db1 = jobs db" using q(7) True by simp
    ultimately show ?thesis using cl q(1,2) True by (auto simp: left_def filter_empty_conv)
  next
    case False
    have inv: "db_inv db2" "db_up db2" "issued_tokens db2 = issued_tokens db1" using ex(2) by (simp_all add: finishes_def)
    have ids: "jid ` set (jobs db2) = jid ` set (jobs db)" using r(3) by (metis list.set_map)
    have "draws sch (jid ` set (jobs db2)) (issued_tokens db2) (Suc k) (Suc fuel)"
      unfolding ids inv(3) by (rule draws_next [OF Suc.prems(5) q(8)])
    moreover have "\<forall>j \<in> {Suc k .. Suc k + fuel}. t \<le> sc_now sch j" using Suc.prems(4) by simp
    moreover have "length (left db2) \<le> nat batch * fuel" using r(2) Suc.prems(6) by simp
    ultimately obtain rounds db' n' where "claim_rounds env sch batch (Suc fuel) (Suc k) (rng', db2, n2) = Inr (Some (rounds, db', n'))"
      "rounds \<le> Suc (Suc k + fuel)" "db_inv db'" "db_up db'" "map jid (jobs db') = map jid (jobs db2)"
      "\<forall>r \<in> set (jobs db'). succeeded_row r"
      using Suc.IH [OF inv(1,2) r(1)] by blast
    then show ?thesis using False cl ex(1) r(3) by (simp del: claim_rounds.simps add: claim_rounds.simps(2) [of env sch batch "Suc fuel" k])
  qed
qed

subsection \<open>The failpoint rounds\<close>

text \<open>A sender that leaves the job tables alone and keeps the constraints of the charges.\<close>

definition orderly :: "('v, 'v db \<times> 'n, 'g) worker_env \<Rightarrow> bool" where
  "orderly env \<longleftrightarrow>
     (\<forall>m db n. case we_send env m (db, n) of
        (reply, db', n') \<Rightarrow> jobs db' = jobs db \<and> job_attempts db' = job_attempts db \<and> (charges_inv db \<longrightarrow> charges_inv db'))"

definition tables :: "uuid set \<Rightarrow> uuid set \<Rightarrow> 'v db \<Rightarrow> bool" where
  "tables ids used db \<longleftrightarrow>
     db_inv db \<and> charges_inv db \<and> jid ` set (jobs db) = ids \<and> issued_tokens db \<subseteq> used"

lemma verdict_tokens: "issued_tokens (verdict_db now i t v db) = issued_tokens db"
proof -
  have "at_lease_token (verdict_attempt now v a) = at_lease_token a" for a
    by (cases v) (simp_all add: succeed_attempt_def retry_attempt_def dead_attempt_def)
  then show ?thesis by (simp add: verdict_db_def issued_tokens_update_attempts)
qed

lemma finalize_tables:
  assumes "tables ids used db" "finalize now i t v db = Inr (b, db')"
  shows "tables ids used db'"
proof -
  have inv: "db_inv db" using assms(1) by (simp add: tables_def)
  note inv' = finalize_preserves [OF inv assms(2)]
  from inv assms(2) show ?thesis
  proof (cases rule: finalize_Inr_cases)
    case owned
    have key: "jid (verdict_row now v r) = jid r" for r
      by (cases v) (simp_all add: succeed_row_def retry_row_def dead_row_def)
    have "map jid (jobs db') = map jid (jobs db)" by (simp add: owned(4) key)
    then have "jid ` set (jobs db') = jid ` set (jobs db)" by (metis list.set_map)
    then show ?thesis using assms(1) inv' by (simp add: tables_def owned(4) verdict_tokens charges_inv_def)
  next
    case stale
    with assms(1) show ?thesis by simp
  qed
qed

lemma finalized_tables: "tables ids used db \<Longrightarrow> tables ids used (finalized_db (finalize now i t v db) db)"
  by (auto simp: finalized_db_def split: sum.splits dest: finalize_tables)

lemma finish_tables:
  assumes "tables ids used db" "finish now i t k v db = (e, db')"
  shows "tables ids used db'"
  using assms finalize_tables [OF assms(1)] by (auto simp: finish_def split: sum.splits prod.splits bool.splits)

lemma orderly_charge:
  assumes "orderly env" "tables ids used db" "execute_charge env i pl (db, n) = (r, db1, n1)"
  shows "tables ids used db1"
proof (cases "parse_charge_payload (we_from_value env) pl")
  case (Inr p)
  obtain reply db' n' where s: "we_send env (charge_request env i p) (db, n) = (reply, db', n')"
    by (cases "we_send env (charge_request env i p) (db, n)") auto
  have "case we_send env (charge_request env i p) (db, n) of
      (reply, db', n') \<Rightarrow> jobs db' = jobs db \<and> job_attempts db' = job_attempts db \<and> (charges_inv db \<longrightarrow> charges_inv db')"
    by (rule assms(1) [unfolded orderly_def, rule_format])
  with s Inr assms(2,3) have same: "jobs db1 = jobs db" "job_attempts db1 = job_attempts db" "charges_inv db1"
    by (simp_all add: execute_charge_def tables_def)
  then have "db_inv db1 = db_inv db" "issued_tokens db1 = issued_tokens db"
    by (simp_all add: db_inv_def attempts_of_def issued_tokens_def)
  with same assms(2) show ?thesis by (simp add: tables_def)
qed (use assms in \<open>simp add: execute_charge_def\<close>)

lemma execute_tables:
  assumes "orderly env" "tables ids used db"
    and "execute_and_finalize_with_failpoints env fp c now elapsed rng (db, n) = (e, (db', n'), rng')"
  shows "tables ids used db'"
proof (cases "lease_token (cj_job c)")
  case (Some t)
  obtain outcome ms db1 n1 where ch: "execute_charge env (jid (cj_job c)) (payload (cj_job c)) (db, n) = ((outcome, ms), db1, n1)"
    by (metis prod.exhaust)
  note t1 = orderly_charge [OF assms(1,2) ch]
  obtain v rng1 where v: "choose_verdict env (cj_attempt_number c) (max_attempts (cj_job c)) elapsed rng outcome = (v, rng1)"
    by (metis prod.exhaust)
  obtain fe db2 where f: "finish now (jid (cj_job c)) t (kind (cj_job c)) v db1 = (fe, db2)" by (metis prod.exhaust)
  note t2 = finish_tables [OF t1 f] finalized_tables [OF t1]
  show ?thesis using assms(2,3) Some ch v f t1 t2
    by (auto simp: execute_and_finalize_with_failpoints_def Let_def split: if_splits prod.splits)
qed (use assms in \<open>simp add: execute_and_finalize_with_failpoints_def Let_def\<close>)

lemma crashing_tables:
  assumes "orderly env" "tables ids used db" "execute_crashing env mine c clk (seen, rng, db, n) = (seen', rng', db', n')"
  shows "tables ids used db'"
proof -
  obtain now elapsed where clk: "clk = (now, elapsed)" by (cases clk)
  obtain ending ms db1 n1 rng1 where e: "execute_and_finalize_with_failpoints env (\<lambda>name i. fst (crash_first_attempt mine name i seen))
      c now elapsed rng (db, n) = ((ending, ms), (db1, n1), rng1)"
    by (metis prod.exhaust)
  from execute_tables [OF assms(1,2) e] assms(3) e show ?thesis by (simp add: execute_crashing_def clk)
qed

lemma crashing_all_tables:
  assumes "orderly env" "tables ids used db" "execute_crashing_all env mine clk cs (seen, rng, db, n) = (seen', rng', db', n')"
  shows "tables ids used db'"
  using assms(2,3)
proof (induction cs arbitrary: seen rng db n)
  case (Cons c cs)
  obtain seen1 rng1 db1 n1 where e: "execute_crashing env mine c (clk (jid (cj_job c))) (seen, rng, db, n) = (seen1, rng1, db1, n1)"
    by (metis prod.exhaust)
  from Cons.IH [OF crashing_tables [OF assms(1) Cons.prems(1) e]] Cons.prems(2) e show ?case by simp
qed simp

lemma terminal_status:
  assumes "job_ok r as" "status r \<notin> {''PENDING'', ''RUNNING''}"
  shows "status r \<in> {as_db_str Succeeded, as_db_str Dead}"
proof -
  obtain x where "parse_db_str (status r) = Some x" using assms(1) by (auto simp: job_ok_def job_checks_def)
  then have "status r = as_db_str x" by (simp add: status_text.dec_Some_iff)
  with assms(2) show ?thesis by (cases x) (simp_all add: as_db_str.simps)
qed

lemma claim_tables:
  assumes t: "tables ids used db" and fresh: "fresh_tokens tok db"
    and cl: "claim_pending_jobs now locked tok worker limit lease db = Inr (cs, db1)"
  shows "tables ids (used \<union> tok ` ids) db1"
proof -
  have inv: "db_inv db" "jid ` set (jobs db) = ids" "issued_tokens db \<subseteq> used" using t by (simp_all add: tables_def)
  note res = claim_Inr [OF inv(1) cl]
  have "issued_tokens db1 \<subseteq> issued_tokens db \<union> tok ` jid ` set (jobs db)"
    unfolding res(4) by (rule issued_tokens_claimed)
  then have "issued_tokens db1 \<subseteq> used \<union> tok ` ids"
    unfolding inv(2) using inv(3) by (rule subset_trans [OF _ Un_mono [OF _ subset_refl]])
  moreover have "map jid (jobs db1) = map jid (jobs db)"
    unfolding res(4) claimed_db_jobs by (simp add: o_def if_distrib [of jid] cong: if_cong)
  then have "jid ` set (jobs db1) = ids" unfolding inv(2) [symmetric] by (metis list.set_map)
  moreover have "charges_inv db1" using t unfolding res(4) by (simp add: tables_def charges_inv_def claimed_db_def Let_def)
  ultimately show ?thesis unfolding tables_def res(4) using claimed_db_inv [OF inv(1) fresh] by simp
qed

text \<open>A round takes time, and a sleep at least the time it is asked for; so the number of rounds is bounded by the time that is left.\<close>

definition rounds_take_time :: "(nat \<Rightarrow> duration) \<Rightarrow> (duration \<Rightarrow> nat \<Rightarrow> nat) \<Rightarrow> bool" where
  "rounds_take_time took sleep \<longleftrightarrow> (\<forall>j. 0 < took j) \<and> (\<forall>d t. t + d \<le> sleep d t)"

lemma rounds_take_timeD:
  assumes "rounds_take_time took sleep" "deadline \<le> now + Suc m"
  shows "deadline \<le> (now + took k) + m" "deadline \<le> sleep d (now + took k) + m"
proof -
  have "0 < took k" "now + took k + d \<le> sleep d (now + took k)" using assms(1) unfolding rounds_take_time_def by blast+
  with assms(2) show "deadline \<le> (now + took k) + m" "deadline \<le> sleep d (now + took k) + m" by linarith+
qed

lemma failpoint_rounds_ends:
  assumes "rounds_take_time took sleep" "deadline \<le> now + m"
  shows "failpoint_rounds env mine sch took sleep tracked deadline now k s \<noteq> None"
  using assms(2)
proof (induction m arbitrary: now k s)
  case 0
  obtain seen rng db n where s: "s = (seen, rng, db, n)" by (metis prod.exhaust)
  with 0 show ?case by (simp add: failpoint_rounds.simps)
next
  case (Suc m)
  obtain seen rng db n where s: "s = (seen, rng, db, n)" by (metis prod.exhaust)
  note later = rounds_take_timeD(1) [OF assms(1) Suc.prems, where k = k]
    rounds_take_timeD(2) [OF assms(1) Suc.prems, where k = k and d = "failpoint_lease div 4"]
  show ?case
    unfolding s
    by (subst failpoint_rounds.simps)
      (use Suc.IH [OF later(1)] Suc.IH [OF later(2)] in \<open>simp split: sum.split prod.split\<close>)
qed

lemma failpoint_rounds_tables:
  assumes "orderly env" "rounds_take_time took sleep" "tables ids used db" "draws sch ids used k m" "deadline \<le> now + m"
    and "failpoint_rounds env mine sch took sleep tracked deadline now k (seen, rng, db, n) = Some (Inr (reached, t, db', n'))"
  shows "db_inv db' \<and> charges_inv db' \<and> jid ` set (jobs db') = ids
    \<and> (reached \<longrightarrow> db_up db' \<and> (\<forall>r \<in> set (jobs db'). jid r \<in> set tracked \<longrightarrow> status r \<in> {as_db_str Succeeded, as_db_str Dead}))"
  using assms(3-)
proof (induction m arbitrary: now k seen rng db n used)
  case 0
  then show ?case by (simp add: failpoint_rounds.simps tables_def)
next
  case (Suc m)
  note going_on = Suc.prems(4)
  show ?case
  proof (cases "deadline \<le> now")
    case True
    with going_on Suc.prems(1) show ?thesis by (simp add: failpoint_rounds.simps tables_def)
  next
    case going: False
    have inv: "db_inv db" "jid ` set (jobs db) = ids" "issued_tokens db \<subseteq> used" using Suc.prems(1) by (simp_all add: tables_def)
    have fresh: "fresh_tokens (sc_tok sch k) db"
      using Suc.prems(2) inv(2,3) by (fastforce simp: draws_def fresh_tokens_def)
    obtain cs db1 where cl: "claim_pending_jobs (sc_now sch k) (\<lambda>i. False) (sc_tok sch k) ''bench-crash-worker'' 10 failpoint_lease db = Inr (cs, db1)"
      using going_on going by (subst (asm) failpoint_rounds.simps) (auto split: sum.splits)
    let ?used = "used \<union> sc_tok sch k ` ids"
    have t1: "tables ids ?used db1" by (rule claim_tables [OF Suc.prems(1) fresh cl])
    have dr: "draws sch ids ?used (Suc k) m" by (rule draws_next [OF Suc.prems(2) subset_refl])
    note later = rounds_take_timeD(1) [OF assms(2) Suc.prems(3), where k = k]
      rounds_take_timeD(2) [OF assms(2) Suc.prems(3), where k = k and d = "failpoint_lease div 4"]
    show ?thesis
    proof (cases "cs = []")
      case True
      obtain todo where todo: "remaining_tracked tracked db1 = Inr todo"
        using going_on going cl True by (subst (asm) failpoint_rounds.simps) (auto split: sum.splits)
      show ?thesis
      proof (cases "todo = 0")
        case z: True
        with going_on going cl True todo have "reached" "db' = db1" by (simp_all add: failpoint_rounds.simps)
        moreover have "db_up db1 \<and> (\<forall>r \<in> set (jobs db1). jid r \<in> set tracked \<longrightarrow> status r \<notin> {''PENDING'', ''RUNNING''})"
          using todo z by (auto simp: remaining_tracked_def query_def filter_empty_conv split: if_splits)
        ultimately show ?thesis using t1 terminal_status [OF db_inv_job] by (fastforce simp: tables_def)
      next
        case False
        with going_on going cl True todo have "failpoint_rounds env mine sch took sleep tracked deadline
            (sleep (failpoint_lease div 4) (now + took k)) (Suc k) (seen, rng, db1, n) = Some (Inr (reached, t, db', n'))"
          by (subst (asm) failpoint_rounds.simps) simp
        from Suc.IH [OF t1 dr later(2) this] show ?thesis .
      qed
    next
      case False
      obtain seen1 rng1 db2 n2 where e: "execute_crashing_all env mine (sc_exec sch k) cs (seen, rng, db1, n) = (seen1, rng1, db2, n2)"
        by (metis prod.exhaust)
      with going_on going cl False have "failpoint_rounds env mine sch took sleep tracked deadline (now + took k) (Suc k)
          (seen1, rng1, db2, n2) = Some (Inr (reached, t, db', n'))"
        by (subst (asm) failpoint_rounds.simps) simp
      from Suc.IH [OF crashing_all_tables [OF assms(1) t1 e] dr later(1) this] show ?thesis .
    qed
  qed
qed

text \<open>The gate on tables that satisfy the invariants: only the completeness and the measured checks can fail.\<close>

lemma gate_on_tables:
  assumes "db_inv db" "charges_inv db" "db_up db" "distinct ids" "set ids \<subseteq> jid ` set (jobs db)"
    and "expected \<Longrightarrow> \<forall>r \<in> set (jobs db). jid r \<in> set ids \<longrightarrow> status r \<in> {as_db_str Succeeded, as_db_str Dead}"
  shows "\<exists>g. run_gate show_uuid show_f0 \<lparr>gi_tracked_ids = ids, gi_expect_all_terminal = expected, gi_worker_capacity = None,
      gi_observed_peak_inflight = None, gi_latency_samples_ms = samples, gi_measurement_window_secs = window\<rparr> db = Inr g
    \<and> (gr_passed g \<longleftrightarrow> snd (gate_latency show_f0 samples window) = [])"
proof -
  have "snd (gate_all_found ids (gate_found ids db)) = []"
    using gate_found_length [OF assms(1,4,5)] by (simp add: gate_all_found_def bool_check_ok)
  with gate_terminal_ok [OF assms(6)] gate_found_budget [OF assms(1)] gate_charges_ok [OF assms(2)]
    gate_single_success_ok [OF assms(1)] assms(3)
  show ?thesis by (simp add: run_gate_def query_def gate_capacity_def Let_def)
qed

end
