(* ===== verification/BenchSession.thy ===== *)
theory BenchSession
  imports Startup BenchIdempotency
begin

section \<open>The state a benchmark run works on\<close>

text \<open>
  What a run of a scenario (\<open>src/crates/reliableq-bench/src/scenarios\<close>) reads and changes while it goes: the clock, the processes of
  the operating system, the children whose handle it holds, the failure injection of the charge service it started, the tables and
  the records it has written. An asynchronous function of the benchmark is a \<open>step\<close> on that state: it ends with a value, with an
  error that the \<open>?\<close> operator hands on, or never. \<open>hoare\<close> states what a step leaves when it ends, with a rule for each way to
  compose steps.
\<close>

subsection \<open>The outside\<close>

text \<open>
  The operating system and the network: joining a path, starting a child, an HTTP request (\<open>ha_get\<close> takes the time it is sent and
  gives the status, if any, and the time it is there, or nothing when the request is never answered: the clients of the benchmark
  have no timeout), sleeping, and the signals. \<open>'w\<close> is the state of the operating system, times
  are nanoseconds. \<open>ha_pid\<close> is \<open>None\<close> for a child that was waited for; \<open>ha_wait\<close> tells whether the child ended within the time;
  \<open>ha_drop\<close> is the end of the life of a handle whose command had \<open>kill_on_drop(true)\<close>.
\<close>

record ('p, 'w) harness =
  ha_join :: "string \<Rightarrow> string \<Rightarrow> string"
  ha_spawn :: "string \<Rightarrow> env \<Rightarrow> 'w \<Rightarrow> (string + 'p) \<times> 'w"
  ha_get :: "string \<Rightarrow> nat \<Rightarrow> (http_status option \<times> nat) option"
  ha_sleep :: "duration \<Rightarrow> nat \<Rightarrow> nat"
  ha_pid :: "'p \<Rightarrow> 'w \<Rightarrow> nat option"
  ha_term :: "nat \<Rightarrow> 'w \<Rightarrow> 'w"
  ha_wait :: "duration \<Rightarrow> 'p \<Rightarrow> 'w \<Rightarrow> bool \<times> 'w"
  ha_kill :: "'p \<Rightarrow> 'w \<Rightarrow> 'w"
  ha_reap :: "'p \<Rightarrow> 'w \<Rightarrow> 'w"
  ha_drop :: "'p \<Rightarrow> 'w \<Rightarrow> 'w"

record 'p managed_process =
  mp_label :: string
  mp_child :: 'p

subsection \<open>The state\<close>

text \<open>\<open>se_chaos\<close> and \<open>se_control\<close> are of the charge service started last: its failure injection, and whether it takes control requests.\<close>

record ('p, 'w, 'r, 'v, 'j) session =
  se_now :: nat
  se_os :: 'w
  se_held :: "'p list"
  se_chaos :: "'r chaos_state"
  se_control :: bool
  se_db :: "'v db"
  se_written :: "'j run_result list"

datatype bench_error =
    DbError repo_error
  | Failed string

text \<open>\<open>None\<close> is a step that never ends.\<close>

type_synonym ('s, 'a) step = "'s \<Rightarrow> ((bench_error + 'a) \<times> 's) option"

definition ret :: "'a \<Rightarrow> ('s, 'a) step" where
  "ret x = (\<lambda>s. Some (Inr x, s))"

definition then_do :: "('s, 'a) step \<Rightarrow> ('a \<Rightarrow> ('s, 'b) step) \<Rightarrow> ('s, 'b) step" where
  "then_do m f = (\<lambda>s.
     case m s of
       None \<Rightarrow> None
     | Some (Inl e, s') \<Rightarrow> Some (Inl e, s')
     | Some (Inr x, s') \<Rightarrow> f x s')"

definition look :: "('s \<Rightarrow> 'a) \<Rightarrow> ('s, 'a) step" where
  "look f = (\<lambda>s. Some (Inr (f s), s))"

definition alter :: "('s \<Rightarrow> 's) \<Rightarrow> ('s, unit) step" where
  "alter f = (\<lambda>s. Some (Inr (), f s))"

text \<open>A step that sends requests over a client without a timeout: it never ends when one of them is never answered.\<close>

definition awaiting :: "bool \<Rightarrow> ('s, 'a) step \<Rightarrow> ('s, 'a) step" where
  "awaiting silent m = (if silent then (\<lambda>s. None) else m)"

text \<open>A result of the repository handed on; a polling loop, which may not end; an error that is dropped (\<open>let _ =\<close>, \<open>ok()\<close>).\<close>

definition or_error :: "repo_error + 'a \<Rightarrow> ('s, 'a) step" where
  "or_error r = (\<lambda>s. Some (map_err DbError r, s))"

definition polled :: "repo_error + 'a option \<Rightarrow> ('s, 'a) step" where
  "polled r = (\<lambda>s.
     case r of
       Inl e \<Rightarrow> Some (Inl (DbError e), s)
     | Inr None \<Rightarrow> None
     | Inr (Some x) \<Rightarrow> Some (Inr x, s))"

definition ok_of :: "('s, 'a) step \<Rightarrow> ('s, 'a option) step" where
  "ok_of m = (\<lambda>s.
     case m s of
       None \<Rightarrow> None
     | Some (Inl e, s') \<Rightarrow> Some (Inr None, s')
     | Some (Inr x, s') \<Rightarrow> Some (Inr (Some x), s'))"

fun each :: "('x \<Rightarrow> ('s, 'a) step) \<Rightarrow> 'x list \<Rightarrow> ('s, 'a list) step" where
  "each f [] = ret []"
| "each f (x # xs) = then_do (f x) (\<lambda>y. then_do (each f xs) (\<lambda>ys. ret (y # ys)))"

subsection \<open>The end of a scope\<close>

text \<open>
  When the function of a run returns, with a value or with an error, the handles it still holds are dropped, the last one first. A
  handle whose child was waited for is dropped without effect, which \<open>ha_drop\<close> covers.
\<close>

definition scoped :: "('p, 'w) harness \<Rightarrow> (('p, 'w, 'r, 'v, 'j) session, 'a) step \<Rightarrow> (('p, 'w, 'r, 'v, 'j) session, 'a) step" where
  "scoped ha m = (\<lambda>s.
     map_option (\<lambda>(r, s'). (r, s'\<lparr>se_os := fold (ha_drop ha) (se_held s') (se_os s'), se_held := se_held s\<rparr>))
       (m (s\<lparr>se_held := []\<rparr>)))"

subsection \<open>What a step leaves\<close>

definition hoare :: "('s \<Rightarrow> bool) \<Rightarrow> ('s, 'a) step \<Rightarrow> ('a \<Rightarrow> 's \<Rightarrow> bool) \<Rightarrow> ('s \<Rightarrow> bool) \<Rightarrow> bool" where
  "hoare P m Q E \<longleftrightarrow> (\<forall>s r s'. P s \<longrightarrow> m s = Some (r, s') \<longrightarrow> (case r of Inl e \<Rightarrow> E s' | Inr x \<Rightarrow> Q x s'))"

lemma hoareI:
  "(\<And>s x s'. P s \<Longrightarrow> m s = Some (Inr x, s') \<Longrightarrow> Q x s') \<Longrightarrow> (\<And>s e s'. P s \<Longrightarrow> m s = Some (Inl e, s') \<Longrightarrow> E s') \<Longrightarrow> hoare P m Q E"
  unfolding hoare_def by (auto split: sum.split)

lemma hoareD:
  assumes "hoare P m Q E" "P s"
  shows "m s = Some (Inr x, s') \<Longrightarrow> Q x s'" "m s = Some (Inl e, s') \<Longrightarrow> E s'"
  using assms unfolding hoare_def by force+

lemma hoare_then_do:
  assumes "hoare P m Q E" "\<And>x. hoare (Q x) (f x) R E"
  shows "hoare P (then_do m f) R E"
  by (rule hoareI)
    (auto simp: then_do_def split: option.splits sum.splits prod.splits dest: hoareD [OF assms(1)] hoareD [OF assms(2)])

lemma hoare_ret: "(\<And>s. P s \<Longrightarrow> Q x s) \<Longrightarrow> hoare P (ret x) Q E"
  by (rule hoareI) (auto simp: ret_def)

lemma hoare_look: "(\<And>s. P s \<Longrightarrow> Q (f s) s) \<Longrightarrow> hoare P (look f) Q E"
  by (rule hoareI) (auto simp: look_def)

lemma hoare_alter: "(\<And>s. P s \<Longrightarrow> Q () (f s)) \<Longrightarrow> hoare P (alter f) Q E"
  by (rule hoareI) (auto simp: alter_def)

lemma hoare_or_error: "(\<And>s. P s \<Longrightarrow> E s) \<Longrightarrow> (\<And>x s. P s \<Longrightarrow> Q x s) \<Longrightarrow> hoare P (or_error r) Q E"
  by (rule hoareI) (auto simp: or_error_def)

lemma hoare_polled: "(\<And>s. P s \<Longrightarrow> E s) \<Longrightarrow> (\<And>x s. P s \<Longrightarrow> Q x s) \<Longrightarrow> hoare P (polled r) Q E"
  by (rule hoareI) (auto simp: polled_def split: sum.splits option.splits)

lemma hoare_ok_of: "hoare P m (\<lambda>x. Q (Some x)) (Q None) \<Longrightarrow> hoare P (ok_of m) Q E"
  by (rule hoareI) (auto simp: ok_of_def split: option.splits sum.splits prod.splits dest: hoareD)

lemma hoare_each:
  assumes "\<And>x. x \<in> set xs \<Longrightarrow> hoare P (f x) (\<lambda>y. P) E"
  shows "hoare P (each f xs) (\<lambda>ys. P) E"
  using assms
proof (induction xs)
  case (Cons x xs)
  have "hoare P (f x) (\<lambda>y. P) E" "hoare P (each f xs) (\<lambda>ys. P) E" using Cons by simp_all
  then show ?case by (auto intro!: hoare_then_do hoare_ret)
qed (simp add: hoare_ret)

lemma hoare_if: "(c \<Longrightarrow> hoare P m Q E) \<Longrightarrow> (\<not> c \<Longrightarrow> hoare P m' Q E) \<Longrightarrow> hoare P (if c then m else m') Q E"
  by simp

end
