(* ===== verification/BenchSamples.thy ===== *)
theory BenchSamples
  imports BenchSession Samples
begin

section \<open>Concrete instances for the witnesses of the benchmark\<close>

text \<open>A JSON library that prints only keys, and the host of a clean run.\<close>

definition sample_report :: "string report_lib" where
  "sample_report =
     \<lparr>rl_json = (\<lambda>items. concat (map fst items)), rl_get = (\<lambda>v k. None), rl_null = '''', rl_as_f64 = (\<lambda>v. None),
      rl_as_u64 = (\<lambda>v. None), rl_as_str = Some, rl_as_array = (\<lambda>v. None), rl_entries = (\<lambda>v. None), rl_text = (\<lambda>v. v),
      rl_show_f64 = (\<lambda>q. '''')\<rparr>"

definition sample_host :: "string env_info" where
  "sample_host =
     \<lparr>ei_git_commit = ''abc'', ei_git_dirty = False, ei_rust_version = ''1'', ei_os = ''linux'', ei_os_version = ''6'',
      ei_architecture = ''x86_64'', ei_cpu_model = None, ei_logical_cpu_count = 8, ei_memory_bytes = None,
      ei_docker_version = None, ei_postgres_version = None, ei_postgres_configuration = ''''\<rparr>"

definition sample_client :: "(string, charge_payload, nat) bench_client" where
  "sample_client =
     \<lparr>bk_service = sample_charge, bk_headers = (\<lambda>key name. Some key), bk_body = (\<lambda>pl. pl)\<rparr>"

definition sample_call :: "uuid \<Rightarrow> bench_call" where
  "sample_call i = \<lparr>bc_now = 10, bc_id = i, bc_ms = 2, bc_delivery = Delivered\<rparr>"

definition sample_calls :: point_calls where
  "sample_calls =
     \<lparr>pc_unique = [(1, sample_call 1), (0, sample_call 2)], pc_replay = (sample_call 3, sample_call 4),
      pc_shared = [sample_call 5, sample_call 6], pc_conflict = (sample_call 7, sample_call 8), pc_elapsed = 1,
      pc_silent = False\<rparr>"

text \<open>A machine whose processes are numbered in the order they are started; the state is the next number and the running ones.\<close>

definition sample_harness :: "(nat, nat \<times> nat set) harness" where
  "sample_harness =
     \<lparr>ha_join = (\<lambda>d n. d @ ''/'' @ n), ha_spawn = (\<lambda>b e (n, ps). (Inr n, (Suc n, insert n ps))),
      ha_get = (\<lambda>u t. Some (if from_secs 1 \<le> t then Some 200 else None, t + 1000)), ha_sleep = (\<lambda>d t. t + d),
      ha_pid = (\<lambda>p (n, ps). if p \<in> ps then Some p else None), ha_term = (\<lambda>pid (n, ps). (n, ps - {pid})),
      ha_wait = (\<lambda>d p (n, ps). (p \<notin> ps, (n, ps))), ha_kill = (\<lambda>p (n, ps). (n, ps - {p})), ha_reap = (\<lambda>p w. w),
      ha_drop = (\<lambda>p (n, ps). (n, ps - {p}))\<rparr>"

end
