(* ===== verification/CrashSamples.thy ===== *)
theory CrashSamples
  imports BenchRuns BenchSamples
begin

section \<open>A job that crashes and is recovered\<close>

text \<open>
  A concrete run of the failpoint scenario for its witness. In round 0 the job of \<open>Samples\<close> is claimed and crashes between its
  effect and its finaliser; in round 1 its lease has expired, it is reclaimed with a new token and succeeds; in round 2 nothing is
  left to do. A round takes three seconds, the lease two.
\<close>

definition crash_schedule :: schedule where
  "crash_schedule =
     \<lparr>sc_now = (\<lambda>j. 200 + 3000000 * int j), sc_tok = (\<lambda>j i. of_nat (55 + j)),
      sc_exec = (\<lambda>j i. (300 + 3000000 * int j, 0))\<rparr>"

definition crash_took :: "nat \<Rightarrow> duration" where
  "crash_took = (\<lambda>j. 3000000)"

definition crash_sleep :: "duration \<Rightarrow> nat \<Rightarrow> nat" where
  "crash_sleep = (\<lambda>d t. t + d)"

definition crash_worker :: "(charge_payload, charge_payload db \<times> unit, nat) worker_env" where
  "crash_worker = sample_worker"

definition crash_worker_id :: string where
  "crash_worker_id = ''bench-crash-worker''"

definition crashed_row :: "charge_payload job_row" where
  "crashed_row = claim_row 200 failpoint_lease 55 sample_pending"

definition crashed_db :: "charge_payload db" where
  "crashed_db = empty_db\<lparr>jobs := [crashed_row], job_attempts := [new_attempt 200 crash_worker_id crashed_row]\<rparr>"

definition reclaimed_row :: "charge_payload job_row" where
  "reclaimed_row = claim_row 3000200 failpoint_lease 56 crashed_row"

definition reclaimed_db :: "charge_payload db" where
  "reclaimed_db = empty_db\<lparr>jobs := [reclaimed_row],
     job_attempts := [lose_attempt 3000200 (new_attempt 200 crash_worker_id crashed_row), new_attempt 3000200 crash_worker_id reclaimed_row]\<rparr>"

definition recovered_db :: "charge_payload db" where
  "recovered_db = verdict_db 3000300 7 56 (Success 0) reclaimed_db"

lemma crash_rows [simp]:
  "jid crashed_row = 7" "status crashed_row = as_db_str Running" "payload crashed_row = sample_payload" "kind crashed_row = ''charge''"
  "attempts crashed_row = 1" "max_attempts crashed_row = 3" "lease_token crashed_row = Some 55"
  "lease_expires_at crashed_row = Some 2000200"
  "jid reclaimed_row = 7" "status reclaimed_row = as_db_str Running" "payload reclaimed_row = sample_payload"
  "kind reclaimed_row = ''charge''" "attempts reclaimed_row = 2" "max_attempts reclaimed_row = 3" "lease_token reclaimed_row = Some 56"
  "lease_expires_at reclaimed_row = Some 5000200"
  by (simp_all add: crashed_row_def reclaimed_row_def claim_row_def failpoint_lease_def interval_us_secs)

subsection \<open>The claims\<close>

lemma first_claim:
  "claim_pending_jobs 200 (\<lambda>i. False) (\<lambda>i. 55) crash_worker_id 10 failpoint_lease sample_pending_db
     = Inr ([\<lparr>cj_job = crashed_row, cj_attempt_number = 1, cj_was_reclaimed = False\<rparr>], crashed_db)"
proof -
  have due: "due_rows 200 (\<lambda>i. False) 10 sample_pending_db = [sample_pending]"
    by (simp add: due_rows_def sample_pending_db_def claimable_def due_pending_def)
  have clean: "close_expired_attempts 200 sample_pending_db = sample_pending_db"
    by (simp add: close_expired_attempts_def update_attempts_def sample_pending_db_def)
  have bury: "bury_exhausted 200 (\<lambda>i. False) sample_pending_db = Inr (0, sample_pending_db)"
    by (simp add: bury_exhausted_def update_jobs_def sample_pending_db_def exhausted_def expired_running_def)
  have checks: "job_checks crashed_row" by (simp add: job_checks_def)
  show ?thesis
    by (simp add: claim_pending_jobs_def query_def clean bury due)
      (simp add: sample_pending_db_def update_jobs_def insert_attempt_row_def new_attempt_def checks
        crashed_row_def [symmetric] crashed_db_def)
qed

lemma second_claim:
  "claim_pending_jobs 3000200 (\<lambda>i. False) (\<lambda>i. 56) crash_worker_id 10 failpoint_lease crashed_db
     = Inr ([\<lparr>cj_job = reclaimed_row, cj_attempt_number = 2, cj_was_reclaimed = True\<rparr>], reclaimed_db)"
proof -
  let ?db1 = "crashed_db\<lparr>job_attempts := [lose_attempt 3000200 (new_attempt 200 crash_worker_id crashed_row)]\<rparr>"
  have clean: "close_expired_attempts 3000200 crashed_db = ?db1"
    by (simp add: close_expired_attempts_def update_attempts_def crashed_db_def expired_running_def new_attempt_def)
  have due: "due_rows 3000200 (\<lambda>i. False) 10 ?db1 = [crashed_row]"
    by (simp add: due_rows_def crashed_db_def claimable_def due_pending_def expired_running_def)
  have bury: "bury_exhausted 3000200 (\<lambda>i. False) ?db1 = Inr (0, ?db1)"
    by (simp add: bury_exhausted_def update_jobs_def crashed_db_def exhausted_def expired_running_def)
  have checks: "job_checks reclaimed_row" by (simp add: job_checks_def)
  have up: "db_up crashed_db" by (simp add: crashed_db_def)
  show ?thesis
    by (simp add: claim_pending_jobs_def query_def clean bury due up)
      (simp add: crashed_db_def update_jobs_def insert_attempt_row_def new_attempt_def lose_attempt_def checks
        reclaimed_row_def [symmetric] reclaimed_db_def)
qed

lemma crash_invs: "db_inv crashed_db" "db_inv reclaimed_db"
proof -
  have "db_inv (claimed_db 200 (\<lambda>i. False) (\<lambda>i. 55) crash_worker_id (nat 10) failpoint_lease sample_pending_db)"
    by (rule claimed_db_inv [OF sample_pending_inv sample_fresh])
  then show first: "db_inv crashed_db" using claim_Inr(4) [OF sample_pending_inv first_claim] by simp
  have "fresh_tokens (\<lambda>i. 56) crashed_db" by (simp add: fresh_tokens_def crashed_db_def issued_tokens_def new_attempt_def)
  then have "db_inv (claimed_db 3000200 (\<lambda>i. False) (\<lambda>i. 56) crash_worker_id (nat 10) failpoint_lease crashed_db)"
    by (rule claimed_db_inv [OF first])
  then show "db_inv reclaimed_db" using claim_Inr(4) [OF first second_claim] by simp
qed

subsection \<open>The executions\<close>

lemma sample_charge_done: "\<exists>ms. \<forall>w. execute_charge crash_worker 7 sample_payload w = ((Inr (), ms), w)"
proof -
  have "parse_charge_payload (we_from_value crash_worker) sample_payload = Inr sample_payload"
    using sample_payload_ok by (simp add: job_payload_def sample_lib_def sample_worker_def crash_worker_def)
  moreover have "we_send crash_worker m w = (Inr (201, None), w)" for m w by (simp add: crash_worker_def sample_worker_def)
  moreover have "fst (judge_reply crash_worker (Inr (201, None))) = Inr ()" by (simp add: judge_reply_ok is_success_def)
  then obtain ms where "judge_reply crash_worker (Inr (201, None)) = (Inr (), ms)"
    by (cases "judge_reply crash_worker (Inr (201, None))") simp
  ultimately show ?thesis by (intro exI [of _ ms]) (simp add: execute_charge_def)
qed

lemma crash_execution:
  "execute_crashing crash_worker AfterEffectBeforeFinalize \<lparr>cj_job = crashed_row, cj_attempt_number = 1, cj_was_reclaimed = False\<rparr>
     (300, 0) ([], 0, crashed_db, ()) = ([7], 0, crashed_db, ())"
proof -
  obtain ms where "\<forall>w. execute_charge crash_worker 7 sample_payload w = ((Inr (), ms), w)" using sample_charge_done by blast
  then show ?thesis
    by (simp add: execute_crashing_def execute_and_finalize_with_failpoints_def crash_first_attempt_def Let_def)
qed

lemma recovery_execution:
  "execute_crashing crash_worker AfterEffectBeforeFinalize \<lparr>cj_job = reclaimed_row, cj_attempt_number = 2, cj_was_reclaimed = True\<rparr>
     (3000300, 0) ([7], 0, reclaimed_db, ()) = ([7], 0, recovered_db, ())"
proof -
  have "owns 7 56 reclaimed_db" "db_up reclaimed_db"
    by (simp_all add: owns_def holds_lease_def reclaimed_db_def)
  with finish_result [OF crash_invs(2)] have "finish 3000300 7 56 ''charge'' (Success 0) reclaimed_db
      = ((Finalized (Success 0) True, verdict_metrics ''charge'' (Success 0)), recovered_db)"
    by (simp add: recovered_db_def)
  moreover have "duration_ms 0 = 0" by (simp add: duration_ms_def as_millis_def i64_max_def)
  moreover obtain ms where "\<forall>w. execute_charge crash_worker 7 sample_payload w = ((Inr (), ms), w)" using sample_charge_done by blast
  ultimately show ?thesis
    by (simp add: execute_crashing_def execute_and_finalize_with_failpoints_def crash_first_attempt_def choose_verdict_def Let_def)
qed

lemma recovered_jobs: "jobs recovered_db = [succeed_row 3000300 reclaimed_row]" "db_up recovered_db"
  by (simp_all add: recovered_db_def reclaimed_db_def holds_lease_def)

lemma third_claim:
  obtains db where "claim_pending_jobs 6000200 (\<lambda>i. False) (\<lambda>i. 57) crash_worker_id 10 failpoint_lease recovered_db = Inr ([], db)"
    "jobs db = jobs recovered_db" "db_up db"
proof -
  have "owns 7 56 reclaimed_db" "db_up reclaimed_db"
    by (simp_all add: owns_def holds_lease_def reclaimed_db_def)
  then have inv: "db_inv recovered_db"
    unfolding recovered_db_def by (intro finalize_preserves [OF crash_invs(2) finalize_owned [OF crash_invs(2)]]) simp_all
  have quiet: "quiet crash_worker 6000200 recovered_db"
    using recovered_jobs(2) by (simp add: quiet_def recovered_jobs(1) succeeded_row_def succeed_row_def)
  have none: "left recovered_db = []" by (simp add: left_def recovered_jobs(1) succeeded_row_def succeed_row_def)
  have fresh: "fresh_tokens (\<lambda>i. 57) recovered_db"
  proof -
    have "issued_tokens recovered_db = {55, 56}"
      by (simp add: recovered_db_def verdict_tokens) (auto simp: reclaimed_db_def issued_tokens_def new_attempt_def lose_attempt_def)
    then show ?thesis by (simp add: fresh_tokens_def recovered_jobs(1) succeed_row_def)
  qed
  obtain cs db where cl: "claim_pending_jobs 6000200 (\<lambda>i. False) (\<lambda>i. 57) crash_worker_id 10 failpoint_lease recovered_db = Inr (cs, db)"
    using claim_result [OF inv recovered_jobs(2)] by fastforce
  note q = queue_claim [OF inv quiet order_refl fresh cl]
  from q(6) none have "cs = []" by simp
  with cl q(2,7) that show thesis by simp
qed

subsection \<open>The run\<close>

lemma crash_and_recover:
  obtains db where "failpoint_rounds crash_worker AfterEffectBeforeFinalize crash_schedule crash_took crash_sleep [7] 60000000 0 0
      ([], 0, sample_pending_db, ()) = Some (Inr (True, 9000000, db, ()))"
    "jobs db = [succeed_row 3000300 reclaimed_row]" "db_up db"
proof -
  obtain db where third: "claim_pending_jobs 6000200 (\<lambda>i. False) (\<lambda>i. 57) crash_worker_id 10 failpoint_lease recovered_db = Inr ([], db)"
    "jobs db = jobs recovered_db" "db_up db" by (rule third_claim)
  have none: "remaining_tracked [7] db = Inr 0"
    using third(3) by (simp add: remaining_tracked_def query_def third(2) recovered_jobs succeed_row_def as_db_str.simps)
  have tok: "sc_tok crash_schedule 0 = (\<lambda>i. 55)" "sc_tok crash_schedule (Suc 0) = (\<lambda>i. 56)" "sc_tok crash_schedule (Suc (Suc 0)) = (\<lambda>i. 57)"
    and now: "sc_now crash_schedule 0 = 200" "sc_now crash_schedule (Suc 0) = 3000200" "sc_now crash_schedule (Suc (Suc 0)) = 6000200"
    and ex: "sc_exec crash_schedule 0 i = (300, 0)" "sc_exec crash_schedule (Suc 0) i = (3000300, 0)" for i
    by (simp_all add: crash_schedule_def)
  let ?loop = "failpoint_rounds crash_worker AfterEffectBeforeFinalize crash_schedule crash_took crash_sleep [7] 60000000"
  have "?loop 6000000 (Suc (Suc 0)) ([7], 0, recovered_db, ()) = Some (Inr (True, 9000000, db, ()))"
    by (subst failpoint_rounds.simps) (simp add: tok now third(1) [unfolded crash_worker_id_def] none crash_took_def)
  then have "?loop 3000000 (Suc 0) ([7], 0, crashed_db, ()) = Some (Inr (True, 9000000, db, ()))"
    by (subst failpoint_rounds.simps) (simp add: tok now ex second_claim [unfolded crash_worker_id_def] recovery_execution crash_took_def)
  then have "?loop 0 0 ([], 0, sample_pending_db, ()) = Some (Inr (True, 9000000, db, ()))"
    by (subst failpoint_rounds.simps) (simp add: tok now ex first_claim [unfolded crash_worker_id_def] crash_execution crash_took_def)
  from that [OF this] third(2,3) recovered_jobs(1) show thesis by simp
qed

lemma crash_draws: "draws crash_schedule {7} {} 0 60000000"
proof -
  have "(of_nat (55 + j) :: uuid) \<noteq> of_nat (55 + l)" if "j < l" "l < 60000000" for j l
  proof
    assume "(of_nat (55 + j) :: uuid) = of_nat (55 + l)"
    then have "take_bit LENGTH(128) (55 + j) = take_bit LENGTH(128) (55 + l)" by (simp only: word_of_nat_eq_iff)
    moreover have "take_bit LENGTH(128) (55 + l) = 55 + l" "take_bit LENGTH(128) (55 + j) = 55 + j"
      using that by (simp_all add: take_bit_nat_eq_self)
    ultimately have "55 + j = 55 + l" by simp
    with that show False by simp
  qed
  then show ?thesis by (auto simp: draws_def crash_schedule_def)
qed

end
