(* ===== verification/BenchProps.thy ===== *)
theory BenchProps
  imports BenchFacts BenchIdempotency CrashSamples
begin

section \<open>Properties of the benchmark\<close>

text \<open>
  The scenarios that drive the services and the repository directly, and the published report.
\<close>

subsection \<open>Scenarios\<close>

text \<open>C28. The claim loop drains the queue: with a charge service that accepts every charge, a loop that claims a batch and executes it
  ends by itself after at most the number of waiting jobs divided by the batch size, rounded up, and one more rounds; then every job
  has succeeded and the tables are consistent.\<close>

theorem claim_loop_drains_the_queue:
  assumes "healthy env" "db_inv db" "db_up db" "quiet env t db" "0 \<le> batch" "length (left db) \<le> nat batch * fuel"
    and "\<forall>j \<in> {0 .. fuel}. t \<le> sc_now sch j" "draws sch (jid ` set (jobs db)) (issued_tokens db) 0 (Suc fuel)"
  shows "\<exists>rounds db' n'. claim_rounds env sch batch (Suc fuel) 0 (rng, db, n) = Inr (Some (rounds, db', n'))
    \<and> rounds \<le> Suc fuel \<and> db_inv db' \<and> map jid (jobs db') = map jid (jobs db)
    \<and> list_all (\<lambda>r. status r = as_db_str Succeeded) (jobs db')"
  using claim_rounds_drain [OF assms(1-5), of 0 fuel sch rng n] assms(6-8)
  by (auto simp: list_all_iff succeeded_row_def)

theorem claim_loop_drains_the_queue_witness:
  "\<exists>rounds db' n'. claim_rounds sample_worker \<lparr>sc_now = (\<lambda>j. 200), sc_tok = (\<lambda>j i. if j = 0 then 55 else 56), sc_exec = (\<lambda>j i. (300, 0))\<rparr>
     3 2 0 (0, sample_pending_db, ()) = Inr (Some (rounds, db', n'))
     \<and> list_all (\<lambda>r. status r = as_db_str Succeeded) (jobs db')"
proof -
  let ?sch = "\<lparr>sc_now = (\<lambda>j. 200), sc_tok = (\<lambda>j i. if j = 0 then 55 else 56), sc_exec = (\<lambda>j i. (300, 0))\<rparr> :: schedule"
  have healthy: "healthy (sample_worker :: (charge_payload, charge_payload db \<times> unit, nat) worker_env)"
    by (simp add: healthy_def sample_worker_def is_success_def same_jobs_def)
  have "draws ?sch (jid ` set (jobs sample_pending_db)) (issued_tokens sample_pending_db) 0 (Suc 1)"
    by (auto simp: draws_def sample_pending_db_def issued_tokens_def)
  moreover have "valid_payload sample_payload" using sample_payload_ok by (simp add: job_payload_def parse_charge_payload_ok)
  then have "quiet (sample_worker :: (charge_payload, charge_payload db \<times> unit, nat) worker_env) 200 sample_pending_db"
    by (simp add: quiet_def waiting_row_def sample_pending_db_def parse_charge_payload_ok sample_worker_def)
  moreover have "length (left sample_pending_db) \<le> nat 3 * 1" by (simp add: left_def sample_pending_db_def)
  moreover have "db_up sample_pending_db" by (simp add: sample_pending_db_def)
  ultimately show ?thesis
    using claim_loop_drains_the_queue [OF healthy, of sample_pending_db 200 3 1 ?sch 0 "()"] sample_pending_inv
    by (auto simp: numeral_2_eq_2)
qed

text \<open>C29. A run of the failpoint scenario leaves tables on which the correctness gate passes, whichever failpoint its jobs crash at and
  however the crashed jobs are reclaimed: the loop ends, at its deadline at the latest, and as far as the database goes no check can
  then fail; when the loop saw that none of the tracked jobs is waiting or running, they are all finished. Only samples that are too
  long for the measured time fail the gate.\<close>

theorem failpoint_runs_pass_the_gate:
  assumes "orderly env" "db_inv db" "charges_inv db" "distinct tracked" "set tracked \<subseteq> jid ` set (jobs db)"
    and "rounds_take_time took sleep" "draws sch (jid ` set (jobs db)) (issued_tokens db) 0 (deadline - now)"
  shows "\<exists>r. failpoint_rounds env mine sch took sleep tracked deadline now 0 ([], rng, db, n) = Some r
    \<and> (\<forall>reached t db' n'. r = Inr (reached, t, db', n') \<and> db_up db' \<longrightarrow>
        (\<exists>g. run_gate show_uuid show_f0 \<lparr>gi_tracked_ids = tracked, gi_expect_all_terminal = reached, gi_worker_capacity = None,
            gi_observed_peak_inflight = None, gi_latency_samples_ms = samples, gi_measurement_window_secs = window\<rparr> db' = Inr g
          \<and> (gr_passed g \<longleftrightarrow> snd (gate_latency show_f0 samples window) = [])))"
proof -
  have enough: "deadline \<le> now + (deadline - now)" by simp
  obtain r where r: "failpoint_rounds env mine sch took sleep tracked deadline now 0 ([], rng, db, n) = Some r"
    using failpoint_rounds_ends [OF assms(6) enough] by blast
  have start: "tables (jid ` set (jobs db)) (issued_tokens db) db" using assms(2,3) by (simp add: tables_def)
  have "\<exists>g. run_gate show_uuid show_f0 \<lparr>gi_tracked_ids = tracked, gi_expect_all_terminal = reached, gi_worker_capacity = None,
            gi_observed_peak_inflight = None, gi_latency_samples_ms = samples, gi_measurement_window_secs = window\<rparr> db' = Inr g
          \<and> (gr_passed g \<longleftrightarrow> snd (gate_latency show_f0 samples window) = [])"
    if "r = Inr (reached, t, db', n')" "db_up db'" for reached t db' n'
    by (rule gate_on_tables)
      (use failpoint_rounds_tables [OF assms(1,6) start assms(7) enough r [unfolded that(1)]] assms(4,5) that(2) in auto)
  with r show ?thesis by blast
qed

text \<open>The run of \<open>CrashSamples\<close>: its job crashes after the effect, is reclaimed when its lease has expired, and succeeds.\<close>

theorem failpoint_runs_pass_the_gate_witness:
  "\<exists>db' g. failpoint_rounds crash_worker AfterEffectBeforeFinalize crash_schedule crash_took crash_sleep [7] 60000000 0 0
        ([], 0, sample_pending_db, ()) = Some (Inr (True, 9000000, db', ()))
     \<and> map attempts (jobs db') = [2] \<and> map status (jobs db') = [as_db_str Succeeded]
     \<and> run_gate sample_show_uuid (\<lambda>q. []) \<lparr>gi_tracked_ids = [7], gi_expect_all_terminal = True, gi_worker_capacity = None,
        gi_observed_peak_inflight = None, gi_latency_samples_ms = [], gi_measurement_window_secs = 9\<rparr> db' = Inr g \<and> gr_passed g"
proof -
  obtain db' where r: "failpoint_rounds crash_worker AfterEffectBeforeFinalize crash_schedule crash_took crash_sleep [7] 60000000 0 0
        ([], 0, sample_pending_db, ()) = Some (Inr (True, 9000000, db', ()))"
    "jobs db' = [succeed_row 3000300 reclaimed_row]" "db_up db'" by (rule crash_and_recover)
  have orderly: "orderly crash_worker" by (simp add: orderly_def crash_worker_def sample_worker_def)
  have start: "charges_inv sample_pending_db" "set [7] \<subseteq> jid ` set (jobs sample_pending_db)" "distinct [7 :: uuid]"
    by (simp_all add: charges_inv_def sample_pending_db_def)
  have timed: "rounds_take_time crash_took crash_sleep" by (simp add: rounds_take_time_def crash_took_def crash_sleep_def)
  have draws: "draws crash_schedule (jid ` set (jobs sample_pending_db)) (issued_tokens sample_pending_db) 0 (60000000 - 0)"
    using crash_draws by (simp add: sample_pending_db_def issued_tokens_def)
  from failpoint_runs_pass_the_gate [OF orderly sample_pending_inv start(1,3,2) timed draws, of AfterEffectBeforeFinalize 0 "()"
      sample_show_uuid "\<lambda>q. []" "[]" 9] r(1,3)
  obtain g where "run_gate sample_show_uuid (\<lambda>q. []) \<lparr>gi_tracked_ids = [7], gi_expect_all_terminal = True, gi_worker_capacity = None,
        gi_observed_peak_inflight = None, gi_latency_samples_ms = [], gi_measurement_window_secs = 9\<rparr> db' = Inr g"
      "gr_passed g \<longleftrightarrow> snd (gate_latency (\<lambda>q :: rat. [] :: string) [] 9) = []"
    by auto
  with r(1,2) show ?thesis by (simp add: gate_latency_def succeed_row_def)
qed

subsection \<open>The report\<close>

text \<open>C30. The tables of the report split the clean runs: one table for each scenario in order of its name, one row for each distinct
  parameters in their order, with exactly the runs that have them, in the order they were read; no run is lost or counted twice.\<close>

theorem tables_partition_the_runs:
  "group_scenarios (group_runs lib runs) =
     map (\<lambda>s. (s, map (\<lambda>p. \<lparr>gp_scenario = s, gp_params = p, gp_runs = filter (\<lambda>r. run_key lib r = (s, p)) runs\<rparr>)
            (sorted_list_of_set (params_of_scenario lib runs s))))
       (sorted_list_of_set (rr_scenario ` set runs))
   \<and> mset (concat (map gp_runs (concat (map snd (group_scenarios (group_runs lib runs)))))) = mset runs"
  using group_scenarios_group_runs mset_runs_of_tables by blast

text \<open>C31. The published document has, for every clean run, the row of the runs that share its scenario and parameters; that row ends in
  pass exactly when every one of them passed the correctness gate, and its throughput is their mean, those that failed the gate included.\<close>

theorem every_clean_run_is_in_a_row:
  fixes lib :: "'j report_lib"
  assumes "r \<in> set all_runs" "\<not> rr_git_dirty r"
  defines "g \<equiv> \<lparr>gp_scenario = rr_scenario r, gp_params = rl_text lib (rr_scenario_params r),
     gp_runs = filter (\<lambda>q. \<not> rr_git_dirty q \<and> run_key lib q = run_key lib r) all_runs\<rparr>"
  shows "sublist (result_row g) (generate lib all_runs)
    \<and> (suffix ('' | pass |'' @ nl) (result_row g) \<longleftrightarrow> list_all run_passed (gp_runs g))
    \<and> (\<exists>pre post. result_row g = pre @ '' | '' @ format_fixed 1 (group_mean_throughput g) @ '' | '' @ post)
    \<and> r \<in> set (gp_runs g)"
proof (intro conjI)
  have clean: "r \<in> set (clean all_runs)" using assms(1,2) by (simp add: clean_def)
  have "gp_runs g = filter (\<lambda>q. run_key lib q = run_key lib r) (clean all_runs)" by (simp add: g_def clean_def conj_commute)
  with row_in_tables [OF clean, of lib]
  have row: "sublist (result_row g) (concat (map scenario_table (group_scenarios (group_runs lib (clean all_runs)))))"
    by (simp add: g_def)
  have ne: "clean all_runs \<noteq> []" using clean by auto
  show "sublist (result_row g) (generate lib all_runs)"
    unfolding generate_def Let_def if_not_P [OF ne]
    by (rule sublist_after, rule sublist_after, rule sublist_after, rule sublist_after, rule sublist_after,
        rule sublist_before, rule row)
  show "suffix ('' | pass |'' @ nl) (result_row g) \<longleftrightarrow> list_all run_passed (gp_runs g)" by (rule result_row_passes)
  show "\<exists>pre post. result_row g = pre @ '' | '' @ format_fixed 1 (group_mean_throughput g) @ '' | '' @ post"
    by (rule result_row_throughput)
  show "r \<in> set (gp_runs g)" using assms(1,2) by (simp add: g_def)
qed

definition sample_run :: "bool \<Rightarrow> rat \<Rightarrow> string run_result" where
  "sample_run ok x =
     (base_run sample_report 5 sample_host ''execution'' ''p'' 1)
       \<lparr>rr_throughput := \<lparr>tp_unit = ''jobs_per_sec'', tp_value = x\<rparr>,
        rr_correctness_results := \<lparr>cr_passed = ok, cr_checks = ''c'', cr_failures = []\<rparr>\<rparr>"

lemma sample_run_simps [simp]:
  "rr_scenario (sample_run ok x) = ''execution''" "rr_scenario_params (sample_run ok x) = ''p''"
  "\<not> rr_git_dirty (sample_run ok x)" "run_passed (sample_run ok x) = ok" "tp_value (rr_throughput (sample_run ok x)) = x"
  by (simp_all add: sample_run_def base_run_def sample_host_def run_passed_def)

theorem every_clean_run_is_in_a_row_witness:
  "\<exists>row. sublist row (generate sample_report [sample_run True 100, sample_run False 300])
    \<and> \<not> suffix ('' | pass |'' @ nl) row
    \<and> (\<exists>pre post. row = pre @ '' | '' @ format_fixed 1 200 @ '' | '' @ post)"
proof -
  let ?runs = "[sample_run True 100, sample_run False 300]"
  let ?g = "\<lparr>gp_scenario = ''execution'', gp_params = rl_text sample_report ''p'', gp_runs = ?runs\<rparr>"
  have "group_mean_throughput ?g = 200" by (simp add: group_mean_throughput_def mean_def)
  with every_clean_run_is_in_a_row [of "sample_run True 100" ?runs sample_report] show ?thesis
    by (intro exI [of _ "result_row ?g"]) (simp add: run_key_def)
qed

text \<open>The saturation point of the analysis is the concurrency before the first step whose gain is below 15 percent; when the
  report says that throughput kept scaling, it grew by at least 15 percent at every step.\<close>

theorem saturation_point_is_the_first_flat_step:
  "(snd (saturation points) = Some c \<longleftrightarrow>
      (\<exists>i. Suc i < length points \<and> flat (points ! i, points ! Suc i) \<and> fst (points ! i) = c
         \<and> (\<forall>j<i. \<not> flat (points ! j, points ! Suc j))))
   \<and> (snd (saturation points) = None \<and> points \<noteq> [] \<and> 0 < snd (hd points) \<longrightarrow>
        (115 / 100) ^ (length points - 1) * snd (hd points) \<le> snd (last points))"
  using saturation_Some saturation_None by blast

theorem saturation_point_is_the_first_flat_step_witness:
  "snd (saturation [(1, 100), (2, 190), (4, 200), (8, 210)]) = Some 2"
proof -
  let ?ps = "[(1, 100), (2, 190), (4, 200), (8, 210)] :: (rat \<times> rat) list"
  have "\<exists>i. Suc i < length ?ps \<and> flat (?ps ! i, ?ps ! Suc i) \<and> fst (?ps ! i) = 2 \<and> (\<forall>j<i. \<not> flat (?ps ! j, ?ps ! Suc j))"
    by (rule exI [of _ 1]) (simp add: flat_def marginal_gain_def)
  with saturation_point_is_the_first_flat_step [of ?ps 2] show ?thesis by blast
qed

end
