(* ===== verification/BenchProcs.thy ===== *)
theory BenchProcs
  imports BenchSession
begin

section \<open>The processes of the benchmark: procs.rs and chaos\_client.rs\<close>

text \<open>
  \<open>src/crates/reliableq-bench/src/procs.rs\<close> starts the compiled services with settings passed in the environment and waits until they
  answer; \<open>chaos_client.rs\<close> switches the failure injection of the charge service. \<open>Command::envs\<close> adds the variables to those the
  process inherits. Starting a child, signalling it and reaching it over HTTP are the parameters of \<open>harness\<close>.
\<close>

definition with_vars :: "env \<Rightarrow> (string \<times> string) list \<Rightarrow> env" where
  "with_vars parent vars = (\<lambda>k. case map_of vars k of Some v \<Rightarrow> Present v | None \<Rightarrow> parent k)"

definition probe_interval :: duration where
  "probe_interval = from_millis 150"

text \<open>
  The loop that waits for a service. \<open>None\<close> is a loop that never ends, and so is a request that is never answered: the deadline is
  looked at only after a request has returned.
\<close>

partial_function (option) probe_until :: "('p, 'w) harness \<Rightarrow> string \<Rightarrow> nat \<Rightarrow> nat \<Rightarrow> (string + nat) option" where
  "probe_until ha target deadline now =
     (case ha_get ha target now of
        None \<Rightarrow> None
      | Some (reply, t) \<Rightarrow>
          if (case reply of Some code \<Rightarrow> is_success code | None \<Rightarrow> False) then Some (Inr t)
          else if deadline \<le> t then Some (Inl (''timed out waiting for '' @ target @ '' to become ready''))
          else probe_until ha target deadline (ha_sleep ha probe_interval t))"

definition wait_for_http_ok :: "('p, 'w) harness \<Rightarrow> string \<Rightarrow> duration \<Rightarrow> nat \<Rightarrow> (string + nat) option" where
  "wait_for_http_ok ha target timeout now = probe_until ha target (now + timeout) now"

definition ready_timeout :: duration where
  "ready_timeout = from_secs 15"

text \<open>A child is held from its start: when it does not answer in time its handle goes with the others.\<close>

definition spawn_child ::
    "('p, 'w) harness \<Rightarrow> string \<Rightarrow> env \<Rightarrow> (string \<times> string) list \<Rightarrow> string \<Rightarrow> string \<Rightarrow> string
     \<Rightarrow> (('p, 'w, 'r, 'v, 'j) session, 'p managed_process) step" where
  "spawn_child ha binary parent vars name lbl target = (\<lambda>s.
     case ha_spawn ha binary (with_vars parent vars) (se_os s) of
       (Inl e, w) \<Rightarrow> Some (Inl (Failed (''spawning '' @ name @ '': '' @ e)), s\<lparr>se_os := w\<rparr>)
     | (Inr child, w) \<Rightarrow>
         let s1 = s\<lparr>se_os := w, se_held := child # se_held s\<rparr>
         in case wait_for_http_ok ha target ready_timeout (se_now s) of
              None \<Rightarrow> None
            | Some (Inl e) \<Rightarrow> Some (Inl (Failed e), s1)
            | Some (Inr t) \<Rightarrow> Some (Inr \<lparr>mp_label = lbl, mp_child = child\<rparr>, s1\<lparr>se_now := t\<rparr>))"

definition mp_pid :: "('p, 'w) harness \<Rightarrow> 'p managed_process \<Rightarrow> 'w \<Rightarrow> nat option" where
  "mp_pid ha p w = ha_pid ha (mp_child p) w"

subsection \<open>The three services\<close>

definition fake_charge_vars :: "string \<Rightarrow> string \<Rightarrow> (string \<times> string) list" where
  "fake_charge_vars database_url bind =
     [(''DATABASE_URL'', database_url), (''FAKE_CHARGE_BIND_ADDR'', bind),
      (''FAKE_CHARGE_ENABLE_TEST_CONTROL'', ''true''), (''LOG_FORMAT'', ''pretty''), (''RUST_LOG'', ''warn'')]"

text \<open>A charge service that starts has its failure injection as it is by default; \<open>entropy\<close> seeds its generator.\<close>

definition spawn_fake_charge ::
    "('p, 'w) harness \<Rightarrow> env \<Rightarrow> string \<Rightarrow> string \<Rightarrow> string \<Rightarrow> 'r
     \<Rightarrow> (('p, 'w, 'r, 'v, 'j) session, 'p managed_process) step" where
  "spawn_fake_charge ha parent binary_dir database_url bind entropy =
     then_do (spawn_child ha (ha_join ha binary_dir ''fake-charge'') parent (fake_charge_vars database_url bind)
                ''fake-charge'' ''fake_charge'' (''http://'' @ bind @ ''/v1/test/inflight'')) (\<lambda>charge.
     then_do (alter (\<lambda>s. s\<lparr>se_chaos := default_chaos entropy,
                           se_control := test_control_enabled (with_vars parent (fake_charge_vars database_url bind))\<rparr>)) (\<lambda>_.
     ret charge))"

definition api_vars :: "string \<Rightarrow> string \<Rightarrow> (string \<times> string) list" where
  "api_vars database_url bind =
     [(''DATABASE_URL'', database_url), (''API_BIND_ADDR'', bind), (''LOG_FORMAT'', ''pretty''), (''RUST_LOG'', ''warn'')]"

definition spawn_api ::
    "('p, 'w) harness \<Rightarrow> env \<Rightarrow> string \<Rightarrow> string \<Rightarrow> string \<Rightarrow> (('p, 'w, 'r, 'v, 'j) session, 'p managed_process) step" where
  "spawn_api ha parent binary_dir database_url bind =
     spawn_child ha (ha_join ha binary_dir ''reliableq-api'') parent (api_vars database_url bind)
       ''reliableq-api'' ''api'' (''http://'' @ bind @ ''/health/ready'')"

record worker_spec =
  ws_binary_dir :: string
  ws_database_url :: string
  ws_charge_service_url :: string
  ws_concurrency :: nat
  ws_lease_duration_secs :: nat
  ws_poll_interval_ms :: nat
  ws_metrics_bind_addr :: string
  ws_retry_base_delay_ms :: "nat option"

definition worker_vars :: "worker_spec \<Rightarrow> (string \<times> string) list" where
  "worker_vars spec =
     [(''DATABASE_URL'', ws_database_url spec),
      (''WORKER_CHARGE_SERVICE_URL'', ws_charge_service_url spec),
      (''WORKER_CONCURRENCY'', show_nat (ws_concurrency spec)),
      (''WORKER_LEASE_DURATION_SECS'', show_nat (ws_lease_duration_secs spec)),
      (''WORKER_POLL_INTERVAL_MS'', show_nat (ws_poll_interval_ms spec)),
      (''WORKER_METRICS_BIND_ADDR'', ws_metrics_bind_addr spec),
      (''LOG_FORMAT'', ''pretty''), (''RUST_LOG'', ''warn'')]
     @ (case ws_retry_base_delay_ms spec of
          None \<Rightarrow> [] | Some base \<Rightarrow> [(''WORKER_RETRY_BASE_DELAY_MS'', show_nat base)])"

definition spawn_worker ::
    "('p, 'w) harness \<Rightarrow> env \<Rightarrow> worker_spec \<Rightarrow> (('p, 'w, 'r, 'v, 'j) session, 'p managed_process) step" where
  "spawn_worker ha parent spec =
     spawn_child ha (ha_join ha (ws_binary_dir spec) ''reliableq-worker'') parent (worker_vars spec)
       ''reliableq-worker'' ''worker'' (''http://'' @ ws_metrics_bind_addr spec @ ''/metrics'')"

subsection \<open>chaos\_client.rs\<close>

text \<open>A call of the control surface; \<open>NotDelivered\<close> and \<open>ReplyLost\<close> are the errors of the HTTP client.\<close>

definition chaos_call ::
    "('h, 'v, 'r) charge_env \<Rightarrow> (nat \<Rightarrow> 'r) \<Rightarrow> bool \<Rightarrow> delivery \<Rightarrow> ('h, 'v) charge_request \<Rightarrow> (charge_reply \<Rightarrow> string + 'a)
     \<Rightarrow> 'r chaos_state \<times> 'v db \<Rightarrow> (string + 'a) \<times> 'r chaos_state \<times> 'v db" where
  "chaos_call env seed mounted d req f s =
     (case d of
        NotDelivered \<Rightarrow> (Inl ''error sending request'', s)
      | _ \<Rightarrow> (case charge_app env seed mounted 0 0 req s of
                (r, s') \<Rightarrow> (if d = ReplyLost then Inl ''error sending request'' else f r, s')))"

fun charge_reply_status :: "charge_reply \<Rightarrow> http_status" where
  "charge_reply_status (ChargeReply code resp) = code"
| "charge_reply_status (OkReply b) = 200"
| "charge_reply_status (PeakReply n) = 200"
| "charge_reply_status (ErrorReply e) = ce_status e"
| "charge_reply_status NotFoundReply = 404"

definition check_reply :: "(http_status \<Rightarrow> string) \<Rightarrow> string \<Rightarrow> charge_reply \<Rightarrow> string + unit" where
  "check_reply show_code what r =
     ensure (is_success (charge_reply_status r)) (what @ '' returned '' @ show_code (charge_reply_status r))"

definition chaos_control ::
    "('h, 'v, 'r) charge_env \<Rightarrow> (nat \<Rightarrow> 'r) \<Rightarrow> bool \<Rightarrow> delivery \<Rightarrow> control_request
     \<Rightarrow> 'r chaos_state \<times> 'v db \<Rightarrow> (string + unit) \<times> 'r chaos_state \<times> 'v db" where
  "chaos_control env seed mounted d body =
     chaos_call env seed mounted d (PostControl body) (check_reply (show_status env) ''chaos control'')"

definition set_normal ::
    "('h, 'v, 'r) charge_env \<Rightarrow> (nat \<Rightarrow> 'r) \<Rightarrow> bool \<Rightarrow> delivery 
     \<Rightarrow> 'r chaos_state \<times> 'v db \<Rightarrow> (string + unit) \<times> 'r chaos_state \<times> 'v db" where
  "set_normal env seed mounted d = chaos_control env seed mounted d CNormal"

definition set_delay_ms ::
    "('h, 'v, 'r) charge_env \<Rightarrow> (nat \<Rightarrow> 'r) \<Rightarrow> bool \<Rightarrow> delivery \<Rightarrow> nat
     \<Rightarrow> 'r chaos_state \<times> 'v db \<Rightarrow> (string + unit) \<times> 'r chaos_state \<times> 'v db" where
  "set_delay_ms env seed mounted d ms = chaos_control env seed mounted d (CDelayMs ms)"

definition set_fail_rate ::
    "('h, 'v, 'r) charge_env \<Rightarrow> (nat \<Rightarrow> 'r) \<Rightarrow> bool \<Rightarrow> delivery \<Rightarrow> rat \<Rightarrow> nat \<Rightarrow> nat
     \<Rightarrow> 'r chaos_state \<times> 'v db \<Rightarrow> (string + unit) \<times> 'r chaos_state \<times> 'v db" where
  "set_fail_rate env seed mounted d rate code sd = chaos_control env seed mounted d (CFailRate rate code (Some sd))"

fun read_peak :: "charge_reply \<Rightarrow> string + nat" where
  "read_peak (PeakReply n) = Inr n"
| "read_peak (ChargeReply code resp) = Inr 0"
| "read_peak (OkReply b) = Inr 0"
| "read_peak (ErrorReply e) = Inr 0"
| "read_peak NotFoundReply = Inl ''error decoding response body''"

definition peak_inflight_of ::
    "('h, 'v, 'r) charge_env \<Rightarrow> (nat \<Rightarrow> 'r) \<Rightarrow> bool \<Rightarrow> delivery
     \<Rightarrow> 'r chaos_state \<times> 'v db \<Rightarrow> (string + nat) \<times> 'r chaos_state \<times> 'v db" where
  "peak_inflight_of env seed mounted d = chaos_call env seed mounted d GetInflight read_peak"

definition reset_inflight ::
    "('h, 'v, 'r) charge_env \<Rightarrow> (nat \<Rightarrow> 'r) \<Rightarrow> bool \<Rightarrow> delivery
     \<Rightarrow> 'r chaos_state \<times> 'v db \<Rightarrow> (string + unit) \<times> 'r chaos_state \<times> 'v db" where
  "reset_inflight env seed mounted d =
     chaos_call env seed mounted d PostInflightReset (check_reply (show_status env) ''inflight reset'')"

text \<open>A call of the client as a step of a run, against the charge service of its state; \<open>silent\<close>: it is never answered.\<close>

definition chaos_step ::
    "bool \<Rightarrow> (bool \<Rightarrow> 'r chaos_state \<times> 'v db \<Rightarrow> (string + 'a) \<times> 'r chaos_state \<times> 'v db)
     \<Rightarrow> (('p, 'w, 'r, 'v, 'j) session, 'a) step" where
  "chaos_step silent f = awaiting silent (\<lambda>s.
     case f (se_control s) (se_chaos s, se_db s) of
       (r, chaos, db) \<Rightarrow> Some (map_err Failed r, s\<lparr>se_chaos := chaos, se_db := db\<rparr>))"

subsection \<open>Waiting for a service\<close>

text \<open>Time does not run backwards, and a sleep takes at least as long as it is asked to.\<close>

definition clock_ok :: "('p, 'w) harness \<Rightarrow> bool" where
  "clock_ok ha \<longleftrightarrow> (\<forall>u t reply t'. ha_get ha u t = Some (reply, t') \<longrightarrow> t \<le> t') \<and> (\<forall>d t. t + d \<le> ha_sleep ha d t)"

definition answered :: "http_status option \<Rightarrow> bool" where
  "answered reply = (case reply of Some code \<Rightarrow> is_success code | None \<Rightarrow> False)"

definition probe_outcome :: "('p, 'w) harness \<Rightarrow> string \<Rightarrow> nat \<Rightarrow> nat \<Rightarrow> string + nat \<Rightarrow> bool" where
  "probe_outcome ha target deadline now r \<longleftrightarrow>
     (\<exists>sent reply t. now \<le> sent \<and> ha_get ha target sent = Some (reply, t)
        \<and> (case r of
              Inr t' \<Rightarrow> t' = t \<and> answered reply
            | Inl e \<Rightarrow> \<not> answered reply \<and> deadline \<le> t
                       \<and> e = ''timed out waiting for '' @ target @ '' to become ready''))"

lemma probe_outcome_later: "probe_outcome ha target deadline later r \<Longrightarrow> now \<le> later \<Longrightarrow> probe_outcome ha target deadline now r"
  unfolding probe_outcome_def using le_trans by blast

lemma probe_until_ends:
  assumes "clock_ok ha" "\<And>t. ha_get ha target t \<noteq> None"
  shows "\<exists>r. probe_until ha target deadline now = Some r \<and> probe_outcome ha target deadline now r"
proof (induction "deadline - now" arbitrary: now rule: less_induct)
  case less
  obtain reply t where get: "ha_get ha target now = Some (reply, t)" using assms(2) [of now] by (metis not_None_eq surj_pair)
  define later where "later = ha_sleep ha probe_interval t"
  have "now \<le> t" using assms(1) get unfolding clock_ok_def by blast
  moreover have "t + probe_interval \<le> later" using assms(1) by (simp add: clock_ok_def later_def)
  moreover have "0 < probe_interval" by (simp add: probe_interval_def from_millis_def)
  ultimately have now: "now < later" by simp
  have step: "probe_until ha target deadline now =
      (if answered reply then Some (Inr t)
       else if deadline \<le> t then Some (Inl (''timed out waiting for '' @ target @ '' to become ready''))
       else probe_until ha target deadline later)"
    by (subst probe_until.simps) (simp add: get answered_def later_def)
  show ?case
  proof (cases "answered reply \<or> deadline \<le> t")
    case True
    with get show ?thesis by (auto simp: step probe_outcome_def)
  next
    case False
    with \<open>now \<le> t\<close> now have "deadline - later < deadline - now" by (simp add: diff_less_mono2)
    from less [OF this] obtain r where r: "probe_until ha target deadline later = Some r"
      "probe_outcome ha target deadline later r" by blast
    have "probe_until ha target deadline now = Some r" using False r(1) unfolding step by simp
    moreover have "probe_outcome ha target deadline now r"
      using probe_outcome_later [OF r(2) less_imp_le [OF now]] .
    ultimately show ?thesis by blast
  qed
qed

subsection \<open>What a started process reads back\<close>

lemma trim_show_nat [std_simps]: "trim (show_nat n) = show_nat n"
proof (rule trim_graphic)
  show ne: "show_nat n \<noteq> []" using show_nat_head [of n] by auto
  have "graphic c" if "c \<in> set (show_nat n)" for c
  proof -
    from that show_nat_chars [of n] have "c \<in> set ''0123456789''" by blast
    then show ?thesis by (auto simp: graphic_def)
  qed
  with ne show "graphic (hd (show_nat n))" "graphic (last (show_nat n))" by simp_all
qed

lemma parse_env_show_nat: "env k = Present (show_nat n) \<Longrightarrow> n \<le> mx \<Longrightarrow> parse_env mx env k d = Inr n"
  by (simp add: parse_env_def std_simps)

lemma pretty_log: "env ''LOG_FORMAT'' = Present ''pretty'' \<Longrightarrow> log_format_from_env env = Inr Pretty"
proof -
  assume "env ''LOG_FORMAT'' = Present ''pretty''"
  moreover have "trim ''pretty'' = ''pretty''" by (rule trim_graphic) (simp_all add: graphic_def)
  moreover have "to_ascii_lowercase ''pretty'' = ''pretty''"
    by (simp add: to_ascii_lowercase_def is_ascii_uppercase_def)
  ultimately show ?thesis by (simp add: log_format_from_env_def)
qed

definition spec_in_range :: "worker_spec \<Rightarrow> bool" where
  "spec_in_range spec \<longleftrightarrow>
     ws_concurrency spec \<le> u32_max \<and> ws_lease_duration_secs spec \<le> u64_max \<and> ws_poll_interval_ms spec \<le> u64_max
     \<and> (\<forall>base. ws_retry_base_delay_ms spec = Some base \<longrightarrow> base \<le> u64_max)"

lemma worker_var:
  "with_vars parent (worker_vars spec) ''WORKER_CHARGE_SERVICE_URL'' = Present (ws_charge_service_url spec)"
  "with_vars parent (worker_vars spec) ''WORKER_CONCURRENCY'' = Present (show_nat (ws_concurrency spec))"
  "with_vars parent (worker_vars spec) ''WORKER_LEASE_DURATION_SECS'' = Present (show_nat (ws_lease_duration_secs spec))"
  "with_vars parent (worker_vars spec) ''WORKER_POLL_INTERVAL_MS'' = Present (show_nat (ws_poll_interval_ms spec))"
  "with_vars parent (worker_vars spec) ''WORKER_METRICS_BIND_ADDR'' = Present (ws_metrics_bind_addr spec)"
  "with_vars parent (worker_vars spec) ''LOG_FORMAT'' = Present ''pretty''"
  "with_vars parent (worker_vars spec) ''WORKER_RETRY_BASE_DELAY_MS'' =
     (case ws_retry_base_delay_ms spec of Some base \<Rightarrow> Present (show_nat base) | None \<Rightarrow> parent ''WORKER_RETRY_BASE_DELAY_MS'')"
  by (simp_all add: with_vars_def worker_vars_def split: option.splits)

lemma worker_other_var:
  "k \<in> {''WORKER_CHARGE_REQUEST_TIMEOUT_SECS'', ''WORKER_RETRY_MULTIPLIER'', ''WORKER_RETRY_MAX_DELAY_SECS'',
        ''WORKER_SHUTDOWN_GRACE_SECS''} \<Longrightarrow> with_vars parent (worker_vars spec) k = parent k"
  by (auto simp: with_vars_def worker_vars_def split: option.splits)


text \<open>The settings the specification gives, and what is left to the environment the harness itself runs in.\<close>

definition reads_spec :: "(string \<Rightarrow> 'addr option) \<Rightarrow> worker_spec \<Rightarrow> 'addr worker_config \<Rightarrow> bool" where
  "reads_spec parse_addr spec c \<longleftrightarrow>
     concurrency c = ws_concurrency spec
     \<and> lease_duration c = from_secs (ws_lease_duration_secs spec)
     \<and> poll_interval c = from_millis (ws_poll_interval_ms spec)
     \<and> charge_service_url c = ws_charge_service_url spec
     \<and> parse_addr (ws_metrics_bind_addr spec) = Some (metrics_bind_addr c)
     \<and> (case ws_retry_base_delay_ms spec of Some base \<Rightarrow> retry_base_delay c = from_millis base | None \<Rightarrow> True)"

lemma spec_parsed:
  assumes "spec_in_range spec"
  shows "parse_env u64_max (with_vars parent (worker_vars spec)) ''WORKER_CONCURRENCY'' d = Inr (ws_concurrency spec)"
    "parse_env u64_max (with_vars parent (worker_vars spec)) ''WORKER_LEASE_DURATION_SECS'' d = Inr (ws_lease_duration_secs spec)"
    "parse_env u64_max (with_vars parent (worker_vars spec)) ''WORKER_POLL_INTERVAL_MS'' d = Inr (ws_poll_interval_ms spec)"
    "ws_retry_base_delay_ms spec = Some base \<Longrightarrow>
       parse_env u64_max (with_vars parent (worker_vars spec)) ''WORKER_RETRY_BASE_DELAY_MS'' d = Inr base"
proof -
  have "u32_max \<le> u64_max" by (simp add: u32_max_def u64_max_def)
  with assms show
    "parse_env u64_max (with_vars parent (worker_vars spec)) ''WORKER_CONCURRENCY'' d = Inr (ws_concurrency spec)"
    "parse_env u64_max (with_vars parent (worker_vars spec)) ''WORKER_LEASE_DURATION_SECS'' d = Inr (ws_lease_duration_secs spec)"
    "parse_env u64_max (with_vars parent (worker_vars spec)) ''WORKER_POLL_INTERVAL_MS'' d = Inr (ws_poll_interval_ms spec)"
    "ws_retry_base_delay_ms spec = Some base \<Longrightarrow>
       parse_env u64_max (with_vars parent (worker_vars spec)) ''WORKER_RETRY_BASE_DELAY_MS'' d = Inr base"
    by (auto intro!: parse_env_show_nat simp: worker_var spec_in_range_def)
qed

lemma worker_reads_spec:
  assumes "spec_in_range spec" "worker_from_env parse_addr (with_vars parent (worker_vars spec)) = Inr c"
  shows "reads_spec parse_addr spec c"
proof (cases "ws_retry_base_delay_ms spec")
  case None
  with assms(2) show ?thesis
    unfolding worker_from_env_def Let_def
    by (auto simp: res_simps spec_parsed [OF assms(1)] worker_var reads_spec_def)
next
  case (Some base)
  with assms(2) spec_parsed(4) [OF assms(1) Some] show ?thesis
    unfolding worker_from_env_def Let_def
    by (auto simp: res_simps spec_parsed [OF assms(1)] worker_var reads_spec_def)
qed

text \<open>With nothing inherited the rest are the defaults, and the only ways to fail are the address and the bounds.\<close>

definition spec_config :: "worker_spec \<Rightarrow> 'addr \<Rightarrow> 'addr worker_config" where
  "spec_config spec addr =
     \<lparr>concurrency = ws_concurrency spec, poll_interval = from_millis (ws_poll_interval_ms spec),
      lease_duration = from_secs (ws_lease_duration_secs spec), charge_service_url = ws_charge_service_url spec,
      charge_request_timeout = from_secs default_charge_request_timeout_secs,
      retry_base_delay = from_millis (case ws_retry_base_delay_ms spec of
                                        Some base \<Rightarrow> base | None \<Rightarrow> default_retry_base_delay_ms),
      retry_multiplier = default_retry_multiplier, retry_max_delay = from_secs default_retry_max_delay_secs,
      shutdown_grace = from_secs default_shutdown_grace_secs, metrics_bind_addr = addr\<rparr>"

lemma worker_from_clean_env:
  assumes "spec_in_range spec" "\<And>k. parent k = NotPresent"
  shows "worker_from_env parse_addr (with_vars parent (worker_vars spec)) =
     bind_res (ok_or (Invalid ''WORKER_METRICS_BIND_ADDR'' (Quoting '''' (ws_metrics_bind_addr spec) '' is not host:port''))
                 (parse_addr (ws_metrics_bind_addr spec)))
       (\<lambda>addr. bind_res (worker_validate (spec_config spec addr)) (\<lambda>_. Inr (spec_config spec addr)))"
proof -
  have dflt: "parse_env mx (with_vars parent (worker_vars spec)) k d = Inr d"
    if "with_vars parent (worker_vars spec) k = NotPresent" for mx k d
    using that by (simp add: parse_env_def)
  have rest: "parse_env mx (with_vars parent (worker_vars spec)) ''WORKER_CHARGE_REQUEST_TIMEOUT_SECS'' d = Inr d"
    "parse_env mx (with_vars parent (worker_vars spec)) ''WORKER_RETRY_MULTIPLIER'' d = Inr d"
    "parse_env mx (with_vars parent (worker_vars spec)) ''WORKER_RETRY_MAX_DELAY_SECS'' d = Inr d"
    "parse_env mx (with_vars parent (worker_vars spec)) ''WORKER_SHUTDOWN_GRACE_SECS'' d = Inr d" for mx d
    using worker_other_var [of _ parent spec] assms(2) by (auto intro!: dflt)
  have base: "parse_env u64_max (with_vars parent (worker_vars spec)) ''WORKER_RETRY_BASE_DELAY_MS'' d
      = Inr (case ws_retry_base_delay_ms spec of Some base \<Rightarrow> base | None \<Rightarrow> d)" for d
    using spec_parsed(4) [OF assms(1)] assms(2)
    by (cases "ws_retry_base_delay_ms spec") (simp_all add: dflt worker_var)
  show ?thesis
    unfolding worker_from_env_def
    by (simp add: Let_def spec_parsed [OF assms(1)] rest base worker_var spec_config_def)
qed

end
