(* ===== verification/ProcsProps.thy ===== *)
theory ProcsProps
  imports BenchProcs BenchSamples
begin

section \<open>Properties of starting the services\<close>

text \<open>
  What the processes do that the entry points start, and what the processes do that the benchmark starts with settings of its own.
\<close>

definition sample_platform :: "(string, 'v) platform" where
  "sample_platform =
     \<lparr>pf_parse_addr = Some, pf_connect = (\<lambda>u n d. Inr empty_db), pf_migrate = Inr, pf_bind = (\<lambda>a. Inr ()),
      pf_client = (\<lambda>t c. Inr ())\<rparr>"

definition no_vars :: env where
  "no_vars = (\<lambda>k. NotPresent)"

definition sample_db_url :: string where
  "sample_db_url = ''postgres://db''"

lemma sample_database_read:
  assumes "env ''DATABASE_URL'' = Present sample_db_url" "env ''DATABASE_MAX_CONNECTIONS'' = NotPresent"
    "env ''DATABASE_CONNECT_TIMEOUT_SECS'' = NotPresent"
  shows "database_from_env env = Inr \<lparr>url = sample_db_url, max_connections = 10, connect_timeout = from_secs 5\<rparr>"
proof -
  have "trim sample_db_url = sample_db_url" by (rule trim_graphic) (simp_all add: sample_db_url_def graphic_def)
  with assms show ?thesis
    by (simp add: database_from_env_def database_validate_def parse_env_def Let_def default_max_connections_def
        default_connect_timeout_secs_def max_allowed_connections_def max_allowed_connect_timeout_secs_def
        starts_with_def sample_db_url_def is_zero_def from_secs_def)
qed

lemma sample_http_read:
  assumes "env (p @ ''_BIND_ADDR'') = Present addr" "env (p @ ''_MAX_BODY_BYTES'') = NotPresent"
    "env (p @ ''_REQUEST_TIMEOUT_SECS'') = NotPresent"
  shows "\<exists>c. http_from_env Some env p d = Inr c"
  using assms
  by (simp add: http_from_env_def http_validate_def parse_env_def Let_def default_max_body_bytes_def
      default_request_timeout_secs_def max_allowed_body_bytes_def max_allowed_request_timeout_secs_def is_zero_def
      from_secs_def)

subsection \<open>Failure injection is off unless it is asked for\<close>

text \<open>C36. Unless the variable \<open>FAKE_CHARGE_ENABLE_TEST_CONTROL\<close> of its environment is \<open>true\<close> or \<open>1\<close>, a charge service that starts
  never injects a failure, whatever requests it is sent: no call of the control surface succeeds or changes its state, and no
  request of any sequence is answered with an injected failure.\<close>

theorem service_without_test_control:
  assumes "charge_main pf entropy env = Inr sv"
    and "env ''FAKE_CHARGE_ENABLE_TEST_CONTROL'' \<notin> {Present ''true'', Present ''1''}"
    and "run_charge_server cenv seed sv reqs = (replies, st', db')"
  shows "mode st' = NormalMode \<and> (\<forall>e. ErrorReply e \<in> set replies \<longrightarrow> ce_code e \<noteq> ''INJECTED_FAILURE'')
    \<and> (\<exists>why. chaos_control cenv seed (csv_control sv) d body (st', db') = (Inl why, st', db'))"
proof -
  have off: "\<not> csv_control sv"
    using charge_main_Inr(2) [OF assms(1)] assms(2)
    by (cases "env ''FAKE_CHARGE_ENABLE_TEST_CONTROL''") (auto simp: test_control_enabled_def)
  have "mode (csv_chaos sv) = NormalMode" using charge_main_Inr(1) [OF assms(1)] by (simp add: default_chaos_def)
  with off assms(3) have "mode st' = NormalMode \<and> (\<forall>e. ErrorReply e \<in> set replies \<longrightarrow> ce_code e \<noteq> ''INJECTED_FAILURE'')"
    by (intro normal_mode_forever [of "csv_chaos sv" cenv seed reqs "csv_db sv"]) (simp_all add: run_charge_server_def)
  moreover have "\<exists>why. chaos_control cenv seed (csv_control sv) d body (st', db') = (Inl why, st', db')"
    using off by (cases d) (simp_all add: chaos_control_def chaos_call_def check_reply_def ensure_def is_success_def)
  ultimately show ?thesis by blast
qed

definition plain_env :: env where
  "plain_env = with_vars no_vars [(''DATABASE_URL'', sample_db_url), (''FAKE_CHARGE_BIND_ADDR'', ''a:1'')]"

lemma plain_env_starts: "\<exists>sv. charge_main sample_platform 0 plain_env = Inr sv"
proof -
  obtain c where "http_from_env Some plain_env ''FAKE_CHARGE'' ''0.0.0.0:8081'' = Inr c"
    using sample_http_read [of plain_env "''FAKE_CHARGE''" "''a:1''" "''0.0.0.0:8081''"]
    by (auto simp: plain_env_def with_vars_def no_vars_def)
  moreover have "database_from_env plain_env = Inr \<lparr>url = sample_db_url, max_connections = 10, connect_timeout = from_secs 5\<rparr>"
    by (rule sample_database_read) (simp_all add: plain_env_def with_vars_def no_vars_def)
  moreover have "log_format_from_env plain_env = Inr Json"
    by (simp add: log_format_from_env_def plain_env_def with_vars_def no_vars_def)
  ultimately show ?thesis
    by (simp add: charge_main_def or_exit_def or_fail_def sample_platform_def create_pool_def run_migrations_def)
qed

theorem service_without_test_control_witness:
  "\<exists>sv replies st' db'. charge_main sample_platform 0 plain_env = Inr sv
    \<and> run_charge_server sample_charge (\<lambda>n. n) sv [(0, 1, PostControl CPermanentReject)] = (replies, st', db')
    \<and> mode st' = NormalMode"
proof -
  obtain sv :: "(string, charge_payload, nat) charge_server" where sv: "charge_main sample_platform 0 plain_env = Inr sv"
    using plain_env_starts by blast
  obtain replies st' db' where run:
    "run_charge_server sample_charge (\<lambda>n. n) sv [(0, 1, PostControl CPermanentReject)] = (replies, st', db')"
    by (metis surj_pair)
  have "plain_env ''FAKE_CHARGE_ENABLE_TEST_CONTROL'' \<notin> {Present ''true'', Present ''1''}"
    by (simp add: plain_env_def with_vars_def no_vars_def)
  from service_without_test_control [OF sv this run] sv run show ?thesis by blast
qed

subsection \<open>The services the benchmark starts\<close>

lemma fake_charge_var:
  "with_vars parent (fake_charge_vars u b) ''FAKE_CHARGE_ENABLE_TEST_CONTROL'' = Present ''true''"
  "with_vars parent (fake_charge_vars u b) ''FAKE_CHARGE_BIND_ADDR'' = Present b"
  "with_vars parent (fake_charge_vars u b) ''LOG_FORMAT'' = Present ''pretty''"
  "with_vars parent (fake_charge_vars u b) ''DATABASE_URL'' = Present u"
  by (simp_all add: with_vars_def fake_charge_vars_def)

text \<open>A charge service started by the benchmark takes every control the scenarios send, whatever it inherits from the environment of
  the harness.\<close>

theorem spawned_service_takes_control:
  assumes "charge_main pf entropy (with_vars parent (fake_charge_vars u b)) = Inr sv"
  shows "csv_log sv = Pretty" "pf_parse_addr pf b = Some (bind_addr (csv_http sv))"
    and "set_delay_ms cenv seed (csv_control sv) Delivered ms (st, db) = (Inr (), st\<lparr>mode := DelayMs ms\<rparr>, db)"
    and "0 \<le> rate \<and> rate \<le> 1 \<Longrightarrow>
      set_fail_rate cenv seed (csv_control sv) Delivered rate code sd (st, db)
        = (Inr (), st\<lparr>fail_rng := seed sd, mode := FailRate rate code\<rparr>, db)"
proof -
  note r = charge_main_Inr [OF assms]
  have on: "csv_control sv" using r(2) by (simp add: test_control_enabled_def fake_charge_var)
  show "csv_log sv = Pretty" using r(4) by (simp add: pretty_log fake_charge_var)
  show "pf_parse_addr pf b = Some (bind_addr (csv_http sv))"
    using http_from_env_addr [OF r(3)] by (simp add: fake_charge_var)
  show "set_delay_ms cenv seed (csv_control sv) Delivered ms (st, db) = (Inr (), st\<lparr>mode := DelayMs ms\<rparr>, db)"
    using on by (simp add: set_delay_ms_def chaos_control_def chaos_call_def set_control_def check_reply_def ensure_def
        is_success_def reply_of_def)
  show "0 \<le> rate \<and> rate \<le> 1 \<Longrightarrow>
      set_fail_rate cenv seed (csv_control sv) Delivered rate code sd (st, db)
        = (Inr (), st\<lparr>fail_rng := seed sd, mode := FailRate rate code\<rparr>, db)"
    using on by (simp add: set_fail_rate_def chaos_control_def chaos_call_def set_control_def check_reply_def ensure_def
        is_success_def reply_of_def)
qed

text \<open>C37. A worker reads back what the benchmark passes it as text: if a worker process started with a specification comes up, then
  whatever else it inherits its concurrency, lease, polling interval, charge service and metrics address, and the base delay when
  one is given, are those of the specification, and its poll loop starts with as many permits; and when it inherits nothing, its
  settings are exactly the specification with the defaults, and only an address or a bound can keep it from reading them.\<close>

theorem spawned_worker_reads_spec:
  assumes "spec_in_range spec"
  shows "(worker_main pf show_uuid i (with_vars parent (worker_vars spec)) = Inr p \<longrightarrow>
      reads_spec (pf_parse_addr pf) spec (wp_config p) \<and> wp_log p = Pretty
      \<and> permits (worker_poll p) = ws_concurrency spec)
    \<and> (worker_from_env parse_addr (with_vars no_vars (worker_vars spec)) = Inr c \<longleftrightarrow>
        (\<exists>addr. parse_addr (ws_metrics_bind_addr spec) = Some addr \<and> c = spec_config spec addr \<and> worker_validate c = Inr ()))"
proof (intro conjI impI)
  assume "worker_main pf show_uuid i (with_vars parent (worker_vars spec)) = Inr p"
  note r = worker_main_Inr [OF this]
  from worker_reads_spec [OF assms r(1)] show spec: "reads_spec (pf_parse_addr pf) spec (wp_config p)" .
  then show "permits (worker_poll p) = ws_concurrency spec"
    by (simp add: worker_poll_def poll_init_def reads_spec_def)
  from r(3) show "wp_log p = Pretty" by (simp add: pretty_log worker_var)
next
  have "\<And>k. no_vars k = NotPresent" by (simp add: no_vars_def)
  with assms have "worker_from_env parse_addr (with_vars no_vars (worker_vars spec)) =
     bind_res (ok_or (Invalid ''WORKER_METRICS_BIND_ADDR'' (Quoting [] (ws_metrics_bind_addr spec) '' is not host:port''))
                 (parse_addr (ws_metrics_bind_addr spec)))
       (\<lambda>addr. bind_res (worker_validate (spec_config spec addr)) (\<lambda>_. Inr (spec_config spec addr)))"
    by (rule worker_from_clean_env)
  then show "worker_from_env parse_addr (with_vars no_vars (worker_vars spec)) = Inr c \<longleftrightarrow>
        (\<exists>addr. parse_addr (ws_metrics_bind_addr spec) = Some addr \<and> c = spec_config spec addr \<and> worker_validate c = Inr ())"
    by (auto simp: res_simps)
qed

definition sample_spec :: worker_spec where
  "sample_spec =
     \<lparr>ws_binary_dir = ''bin'', ws_database_url = sample_db_url, ws_charge_service_url = ''http://c'', ws_concurrency = 12,
      ws_lease_duration_secs = 10, ws_poll_interval_ms = 100, ws_metrics_bind_addr = ''m:1'',
      ws_retry_base_delay_ms = Some 200\<rparr>"

lemma sample_spec_valid: "worker_validate (spec_config sample_spec ''m:1'') = Inr ()"
  by (simp add: worker_validate_def spec_config_def sample_spec_def is_zero_def from_millis_def from_secs_def starts_with_def
      max_allowed_concurrency_def max_allowed_poll_interval_ms_def max_allowed_lease_duration_secs_def
      max_allowed_charge_request_timeout_secs_def max_allowed_retry_max_delay_secs_def max_allowed_shutdown_grace_secs_def
      default_charge_request_timeout_secs_def default_retry_multiplier_def default_retry_max_delay_secs_def
      default_shutdown_grace_secs_def)

theorem spawned_worker_reads_spec_witness:
  "\<exists>p. worker_main (sample_platform :: (string, charge_payload) platform) sample_show_uuid 3
      (with_vars no_vars (worker_vars sample_spec)) = Inr p
    \<and> permits (worker_poll p) = 12"
proof -
  let ?env = "with_vars no_vars (worker_vars sample_spec)"
  have range: "spec_in_range sample_spec" by (simp add: spec_in_range_def sample_spec_def u32_max_def u64_max_def)
  have "Some (ws_metrics_bind_addr sample_spec) = Some ''m:1''" by (simp add: sample_spec_def)
  with spawned_worker_reads_spec [OF range, where parse_addr = Some and c = "spec_config sample_spec ''m:1''", THEN conjunct2, THEN iffD2] sample_spec_valid
  have "worker_from_env Some ?env = Inr (spec_config sample_spec ''m:1'')" by blast
  moreover have "database_from_env ?env = Inr \<lparr>url = sample_db_url, max_connections = 10, connect_timeout = from_secs 5\<rparr>"
    by (rule sample_database_read) (simp_all add: with_vars_def worker_vars_def no_vars_def sample_spec_def)
  moreover have "log_format_from_env ?env = Inr Pretty" by (rule pretty_log) (rule worker_var)
  ultimately obtain p where p: "worker_main (sample_platform :: (string, charge_payload) platform) sample_show_uuid 3 ?env = Inr p"
    by (simp add: worker_main_def or_exit_def or_fail_def sample_platform_def create_pool_def run_migrations_def)
  have "permits (worker_poll p) = ws_concurrency sample_spec"
    using spawned_worker_reads_spec [OF range, THEN conjunct1, THEN mp, OF p] by simp
  then have "permits (worker_poll p) = 12" by (simp add: sample_spec_def)
  with p show ?thesis by blast
qed

subsection \<open>Waiting for a service\<close>

text \<open>The loop that waits for a started service ends, when each of its requests returns (its client has no timeout). It reports the service ready only on a successful answer to a
  request sent meanwhile, and gives up only after an answer that failed and came when the whole timeout had passed.\<close>

theorem waiting_for_a_service_ends:
  assumes "clock_ok ha" "\<And>t. ha_get ha target t \<noteq> None"
  shows "\<exists>r. wait_for_http_ok ha target timeout now = Some r
    \<and> (\<exists>sent reply t. now \<le> sent \<and> ha_get ha target sent = Some (reply, t)
        \<and> (r = Inr t \<and> answered reply
           \<or> r = Inl (''timed out waiting for '' @ target @ '' to become ready'') \<and> \<not> answered reply \<and> now + timeout \<le> t))"
proof -
  obtain r where r: "probe_until ha target (now + timeout) now = Some r" "probe_outcome ha target (now + timeout) now r"
    using probe_until_ends [OF assms] by blast
  then show ?thesis
    by (cases r) (auto simp: wait_for_http_ok_def probe_outcome_def)
qed

theorem waiting_for_a_service_ends_witness:
  "\<exists>t. wait_for_http_ok sample_harness ''http://m:1/metrics'' ready_timeout 0 = Some (Inr t)"
proof -
  have "clock_ok sample_harness" by (simp add: clock_ok_def sample_harness_def)
  moreover have "ha_get sample_harness u t \<noteq> None" for u t by (simp add: sample_harness_def)
  ultimately show ?thesis
    using waiting_for_a_service_ends [of sample_harness "''http://m:1/metrics''" ready_timeout 0]
    by (auto simp: sample_harness_def answered_def is_success_def ready_timeout_def from_secs_def split: if_splits)
qed

end
