(* ===== verification/BenchSubmit.thy ===== *)
theory BenchSubmit
  imports BenchResult ApiRoutes
begin

section \<open>Submitting the jobs of a benchmark: reliableq-bench, db.rs\<close>

text \<open>
  \<open>submit_job\<close> and \<open>submit_many\<close> of \<open>src/crates/reliableq-bench/src/db.rs\<close>, driven against the job API of \<open>Api\<close>. The requests of a
  \<open>submit_many\<close> run concurrently, a semaphore bounding how many; they are served in the order of the list of calls, which is any
  order. A call brings the time and the id the service takes for it, the time the client measured, and what is lost on the way.
\<close>

datatype exchange =
    Answered
  | BodyLost
  | AnswerLost
  | RequestLost

record submit_call =
  sm_now :: timestamp
  sm_id :: uuid
  sm_ms :: rat
  sm_exchange :: exchange

record submit_outcome =
  so_elapsed_ms :: rat
  so_status :: http_status
  so_id :: "uuid option"

text \<open>The API the benchmark talks to, and the JSON of its requests and answers.\<close>

record 'v bench_api =
  ba_env :: "'v api_env"
  ba_payload :: "charge_payload \<Rightarrow> 'v"
  ba_read_id :: "submit_response \<Rightarrow> uuid option"

definition bench_body :: "'v bench_api \<Rightarrow> string \<Rightarrow> nat \<Rightarrow> int \<Rightarrow> 'v submit_request" where
  "bench_body ba scenario i mx =
     \<lparr>sr_kind = ''charge'', sr_payload = ba_payload ba (bench_charge_payload scenario i), sr_max_attempts = Some mx\<rparr>"

definition bench_submit_job ::
    "'v bench_api \<Rightarrow> string \<Rightarrow> int \<Rightarrow> nat \<Rightarrow> submit_call \<Rightarrow> 'v db \<Rightarrow> submit_outcome \<times> 'v db" where
  "bench_submit_job ba scenario mx i c db =
     (if sm_exchange c = RequestLost then (\<lparr>so_elapsed_ms = sm_ms c, so_status = 0, so_id = None\<rparr>, db)
      else case submit_job (ba_env ba) (sm_now c) (sm_id c) (bench_body ba scenario i mx) db of
        (r, db') \<Rightarrow>
          (if sm_exchange c = AnswerLost then (\<lparr>so_elapsed_ms = sm_ms c, so_status = 0, so_id = None\<rparr>, db')
           else case r of
             Inl e \<Rightarrow> (\<lparr>so_elapsed_ms = sm_ms c, so_status = er_status e, so_id = None\<rparr>, db')
           | Inr (code, resp) \<Rightarrow>
               (\<lparr>so_elapsed_ms = sm_ms c, so_status = code,
                 so_id = (if code = 202 \<and> sm_exchange c = Answered then ba_read_id ba resp else None)\<rparr>, db')))"

fun submit_all ::
    "'v bench_api \<Rightarrow> string \<Rightarrow> int \<Rightarrow> (nat \<times> submit_call) list \<Rightarrow> 'v db \<Rightarrow> submit_outcome list \<times> 'v db" where
  "submit_all ba scenario mx [] db = ([], db)"
| "submit_all ba scenario mx ((i, c) # rest) db =
     (case bench_submit_job ba scenario mx i c db of
        (o1, db1) \<Rightarrow> (case submit_all ba scenario mx rest db1 of (os, db2) \<Rightarrow> (o1 # os, db2)))"

definition submit_many ::
    "'v bench_api \<Rightarrow> string \<Rightarrow> nat \<Rightarrow> int \<Rightarrow> (nat \<times> submit_call) list \<Rightarrow> 'v db \<Rightarrow> submit_outcome list \<times> 'v db" where
  "submit_many ba scenario start_index mx order db =
     submit_all ba scenario mx (map (\<lambda>(i, c). (start_index + i, c)) order) db"

text \<open>The ids a scenario tracks from then on.\<close>

definition tracked :: "submit_outcome list \<Rightarrow> uuid list" where
  "tracked outcomes = List.map_filter so_id outcomes"

subsection \<open>What a submission leaves\<close>

definition api_ok :: "'v bench_api \<Rightarrow> bool" where
  "api_ok ba \<longleftrightarrow>
     (\<forall>pl. ae_from_value (ba_env ba) (ba_payload ba pl) = Inr pl)
     \<and> (\<forall>pl. text_ok (customer_id pl) \<and> text_ok (currency pl) \<longrightarrow> ae_jsonb (ba_env ba) (ba_payload ba pl)) \<and> (\<forall>resp. ba_read_id ba resp = Some (sub_id resp))"

definition bench_row :: "'v bench_api \<Rightarrow> string \<Rightarrow> int \<Rightarrow> nat \<times> submit_call \<Rightarrow> 'v job_row" where
  "bench_row ba scenario mx = (\<lambda>(i, c).
     new_job_row (sm_now c) (sm_id c) ''charge'' (ba_payload ba (bench_charge_payload scenario i)) mx)"

definition arrived :: "nat \<times> submit_call \<Rightarrow> bool" where
  "arrived ic \<longleftrightarrow> sm_exchange (snd ic) \<noteq> RequestLost"

definition scenario_name :: "string \<Rightarrow> bool" where
  "scenario_name s \<longleftrightarrow> length s \<le> 64 \<and> text_ok s"

lemma show_nat_length: "n < 10 ^ k \<Longrightarrow> 1 \<le> k \<Longrightarrow> length (show_nat n) \<le> k"
proof (induction k arbitrary: n)
  case (Suc k)
  show ?case
  proof (cases "n < 10")
    case True
    then show ?thesis by (simp add: show_nat.simps [of n])
  next
    case False
    with Suc.prems(1) have "n div 10 < 10 ^ k" "1 \<le> k" by (simp_all add: less_mult_imp_div_less) (cases k; simp)
    with Suc.IH False show ?thesis by (simp add: show_nat.simps [of n])
  qed
qed simp

lemma bench_payload_valid:
  assumes "scenario_name scenario" "i < 10 ^ 20"
  shows "valid_payload (bench_charge_payload scenario i)"
proof -
  let ?c = "''bench-'' @ scenario @ ''-'' @ show_nat i"
  have ne: "show_nat i \<noteq> []" using show_nat_head [of i] by auto
  have "last (show_nat i) \<in> set ''0123456789''" using show_nat_chars [of i] last_in_set [OF ne] by blast
  then have "graphic (last (show_nat i))" by (auto simp: graphic_def)
  then have "trim ?c = ?c" using ne by (intro trim_graphic) (simp_all add: graphic_def)
  moreover have "length (show_nat i) \<le> 20" using assms(2) by (intro show_nat_length) simp_all
  ultimately show ?thesis
    using assms(1) by (simp add: valid_payload_def bench_charge_payload_def scenario_name_def less_eq_char_def)
qed

definition outcome_of :: "nat \<times> submit_call \<Rightarrow> submit_outcome" where
  "outcome_of ic =
     \<lparr>so_elapsed_ms = sm_ms (snd ic),
      so_status = (if sm_exchange (snd ic) \<in> {Answered, BodyLost} then 202 else 0),
      so_id = (if sm_exchange (snd ic) = Answered then Some (sm_id (snd ic)) else None)\<rparr>"

lemma bench_submit_result:
  assumes "api_ok ba" "scenario_name scenario" "i < 10 ^ 20" "1 \<le> mx" "mx \<le> 20"
    and "db_up db" "sm_id c \<notin> jid ` set (jobs db)"
  shows "bench_submit_job ba scenario mx i c db =
    (outcome_of (i, c), if arrived (i, c) then db\<lparr>jobs := jobs db @ [bench_row ba scenario mx (i, c)]\<rparr> else db)"
proof -
  have "parse_charge_payload (ae_from_value (ba_env ba)) (ba_payload ba (bench_charge_payload scenario i))
    = Inr (bench_charge_payload scenario i)"
    using assms(1) bench_payload_valid [OF assms(2,3)] by (simp add: parse_charge_payload_ok api_ok_def)
  moreover have "validate_kind ''charge'' = Inr ()"
    using trim_graphic [of "''charge''"] by (simp add: validate_kind_ok graphic_def)
  moreover have "validate_max_attempts mx = Inr ()" using assms(4,5) by (simp add: validate_max_attempts_ok)
  moreover have fits: "ae_jsonb (ba_env ba) (ba_payload ba (bench_charge_payload scenario i))"
    using assms(1,2) by (simp add: api_ok_def scenario_name_def bench_charge_payload_def)
  ultimately have "submit_job (ba_env ba) (sm_now c) (sm_id c) (bench_body ba scenario i mx) db =
      (Inr (202, \<lparr>sub_id = sm_id c, sub_status = Pending, sub_attempts = 0, sub_max_attempts = mx,
                  sub_created_at = sm_now c\<rparr>), db\<lparr>jobs := jobs db @ [bench_row ba scenario mx (i, c)]\<rparr>)"
    using insert_job_result [where jsonb = "ae_jsonb (ba_env ba)", OF assms(6,4,7) _ fits]
    by (simp add: submit_job_def bench_body_def row_status_api_def row_status_def bench_row_def) (simp add: new_job_row_def)
  with assms(1) show ?thesis
    by (cases "sm_exchange c") (simp_all add: bench_submit_job_def outcome_of_def arrived_def api_ok_def)
qed

lemma disjoint_insert_subset: "A \<subseteq> insert x B \<Longrightarrow> x \<notin> K \<Longrightarrow> K \<inter> B = {} \<Longrightarrow> K \<inter> A = {}"
  by auto

lemma submit_all_result:
  assumes "api_ok ba" "scenario_name scenario" "1 \<le> mx" "mx \<le> 20" "db_up db"
    and "\<forall>(i, c) \<in> set calls. i < 10 ^ 20"
    and "distinct (map (sm_id \<circ> snd) calls)" "(sm_id \<circ> snd) ` set calls \<inter> jid ` set (jobs db) = {}"
  shows "submit_all ba scenario mx calls db =
    (map outcome_of calls, db\<lparr>jobs := jobs db @ map (bench_row ba scenario mx) (filter arrived calls)\<rparr>)"
  using assms(5-)
proof (induction calls arbitrary: db)
  case (Cons ic calls)
  obtain i c where ic: "ic = (i, c)" by (cases ic)
  have new: "sm_id c \<notin> jid ` set (jobs db)" "i < 10 ^ 20" using Cons.prems(2,4) ic by auto
  note one = bench_submit_result [OF assms(1,2) new(2) assms(3,4) Cons.prems(1) new(1)]
  let ?db1 = "if arrived ic then db\<lparr>jobs := jobs db @ [bench_row ba scenario mx ic]\<rparr> else db"
  have "jid (bench_row ba scenario mx ic) = sm_id c" by (simp add: bench_row_def ic new_job_row_jid)
  then have "jid ` set (jobs ?db1) \<subseteq> insert (sm_id c) (jid ` set (jobs db))" by auto
  moreover have "sm_id c \<notin> (sm_id \<circ> snd) ` set calls" using Cons.prems(3) by (simp add: ic)
  moreover have "(sm_id \<circ> snd) ` set calls \<inter> jid ` set (jobs db) = {}" using Cons.prems(4) by auto
  ultimately have disj: "(sm_id \<circ> snd) ` set calls \<inter> jid ` set (jobs ?db1) = {}"
    by (rule disjoint_insert_subset)
  have "db_up ?db1" using Cons.prems(1) by simp
  moreover have "\<forall>(i, c) \<in> set calls. i < 10 ^ 20" using Cons.prems(2) by (metis list.set_intros(2))
  moreover have "distinct (map (sm_id \<circ> snd) calls)" using Cons.prems(3) by (metis distinct.simps(2) list.simps(9))
  ultimately have "submit_all ba scenario mx calls ?db1 =
      (map outcome_of calls, ?db1\<lparr>jobs := jobs ?db1 @ map (bench_row ba scenario mx) (filter arrived calls)\<rparr>)"
    using disj by (rule Cons.IH)
  with one show ?case by (cases "arrived ic") (simp_all add: ic)
qed simp

end
