(* ===== verification/BenchPlan.thy ===== *)
theory BenchPlan
  imports BenchResult
begin

section \<open>The plan of a benchmark: reliableq-bench, config.rs and main.rs\<close>

text \<open>
  The configuration (\<open>src/crates/reliableq-bench/src/config.rs\<close>; the parser of TOML is a parameter, \<open>f64\<close> rates are exact rationals)
  and the runs that \<open>run_command\<close> of \<open>main.rs\<close> makes of it: each scenario goes over its parameters and repeats every point; a run that fails ends the command there. A run is
  named here by its parameters and its number; what it does is in \<open>BenchPoints\<close>.
\<close>

subsection \<open>config.rs\<close>

record environment_config =
  ec_api_bind :: string
  ec_worker_metrics_bind_base_port :: nat
  ec_fake_charge_bind :: string
  ec_database_url :: string
  ec_binary_dir :: string

record ingestion_config =
  in_enabled :: bool
  in_requests :: nat
  in_warmup_requests :: nat
  in_concurrencies :: "nat list"

record execution_config =
  ex_enabled :: bool
  ex_job_count :: nat
  ex_warmup_jobs :: nat
  ex_concurrencies :: "nat list"
  ex_latencies_ms :: "nat list"

definition default_scaling_latency_ms :: nat where "default_scaling_latency_ms = 20"

record scaling_config =
  sl_enabled :: bool
  sl_job_count :: nat
  sl_warmup_jobs :: nat
  sl_fixed_total :: "(nat \<times> nat) list"
  sl_increasing :: "(nat \<times> nat) list"
  sl_latency_ms :: nat

record claim_batch_config =
  cb_enabled :: bool
  cb_job_count :: nat
  cb_batch_sizes :: "int list"

record downstream_latency_config =
  dl_enabled :: bool
  dl_job_count :: nat
  dl_worker_concurrency :: nat
  dl_latencies_ms :: "nat list"

record retry_degradation_config =
  rd_enabled :: bool
  rd_job_count :: nat
  rd_worker_concurrency :: nat
  rd_failure_rates :: "rat list"

record backlog_config =
  bl_enabled :: bool
  bl_backlogs :: "nat list"
  bl_worker_concurrency :: nat

record crash_recovery_config =
  cc_enabled :: bool
  cc_jobs_per_failpoint :: nat

record idempotency_config =
  ic_enabled :: bool
  ic_concurrency_levels :: "nat list"

definition default_repeat :: nat where "default_repeat = 3"

record bench_config =
  bc_environment :: environment_config
  bc_repeat :: nat
  bc_ingestion :: "ingestion_config option"
  bc_execution :: "execution_config option"
  bc_scaling :: "scaling_config option"
  bc_claim_batch :: "claim_batch_config option"
  bc_downstream_latency :: "downstream_latency_config option"
  bc_retry_degradation :: "retry_degradation_config option"
  bc_backlog :: "backlog_config option"
  bc_crash_recovery :: "crash_recovery_config option"
  bc_idempotency :: "idempotency_config option"

definition load_config ::
    "(string \<Rightarrow> string + string) \<Rightarrow> (string \<Rightarrow> string + bench_config) \<Rightarrow> string \<Rightarrow> string + bench_config" where
  "load_config read parse path =
     bind_res (map_err (\<lambda>e. ''reading '' @ path @ '': '' @ e) (read path)) (\<lambda>raw.
     map_err (\<lambda>e. ''parsing '' @ path @ '': '' @ e) (parse raw))"

subsection \<open>The loops of the scenarios\<close>

datatype bench_point =
    IngestionPoint nat nat nat
  | ExecutionPoint string nat nat nat nat
  | ScalingPoint string nat nat nat nat nat
  | ClaimBatchPoint int nat
  | RetryPoint rat nat nat
  | BacklogPoint nat nat
  | RealKillPoint nat
  | FailpointPoint failpoint_name nat
  | IdempotencyPoint nat

type_synonym planned = "bench_point \<times> nat"

text \<open>\<open>for p in points { for run_number in 1..=repeat { .. } }\<close>\<close>

definition repeated :: "nat \<Rightarrow> bench_point list \<Rightarrow> planned list" where
  "repeated n points = concat (map (\<lambda>p. map (\<lambda>k. (p, k)) [1 ..< n + 1]) points)"

definition enabled :: "('c \<Rightarrow> bool) \<Rightarrow> ('c \<Rightarrow> 'p list) \<Rightarrow> 'c option \<Rightarrow> 'p list" where
  "enabled on f c = (case c of None \<Rightarrow> [] | Some cfg \<Rightarrow> if on cfg then f cfg else [])"

definition ingestion_plan :: "bench_config \<Rightarrow> planned list" where
  "ingestion_plan c =
     enabled in_enabled
       (\<lambda>cfg. repeated (bc_repeat c)
          (map (\<lambda>conc. IngestionPoint conc (in_requests cfg) (in_warmup_requests cfg)) (in_concurrencies cfg))) (bc_ingestion c)"

definition execution_plan :: "bench_config \<Rightarrow> planned list" where
  "execution_plan c =
     enabled ex_enabled
       (\<lambda>cfg. repeated (bc_repeat c)
          (concat (map (\<lambda>l. map (\<lambda>w. ExecutionPoint ''execution'' l w (ex_job_count cfg) (ex_warmup_jobs cfg))
                    (ex_concurrencies cfg)) (ex_latencies_ms cfg)))) (bc_execution c)
     @ enabled dl_enabled
         (\<lambda>cfg. repeated (bc_repeat c)
            (map (\<lambda>l. ExecutionPoint ''downstream_latency_sensitivity'' l (dl_worker_concurrency cfg) (dl_job_count cfg)
                        (dl_job_count cfg div 10)) (dl_latencies_ms cfg))) (bc_downstream_latency c)"

definition scaling_plan :: "bench_config \<Rightarrow> planned list" where
  "scaling_plan c =
     enabled sl_enabled
       (\<lambda>cfg. repeated (bc_repeat c)
          (map (\<lambda>(w, p). ScalingPoint ''fixed_total_concurrency'' w p (sl_job_count cfg) (sl_warmup_jobs cfg) (sl_latency_ms cfg))
            (sl_fixed_total cfg))
        @ repeated (bc_repeat c)
          (map (\<lambda>(w, p). ScalingPoint ''increasing_total_concurrency'' w p (sl_job_count cfg) (sl_warmup_jobs cfg) (sl_latency_ms cfg))
            (sl_increasing cfg))) (bc_scaling c)"

definition claim_batch_plan :: "bench_config \<Rightarrow> planned list" where
  "claim_batch_plan c =
     enabled cb_enabled
       (\<lambda>cfg. repeated (bc_repeat c) (map (\<lambda>batch. ClaimBatchPoint batch (cb_job_count cfg)) (cb_batch_sizes cfg)))
       (bc_claim_batch c)"

definition retry_degradation_plan :: "bench_config \<Rightarrow> planned list" where
  "retry_degradation_plan c =
     enabled rd_enabled
       (\<lambda>cfg. repeated (bc_repeat c)
          (map (\<lambda>rate. RetryPoint rate (rd_job_count cfg) (rd_worker_concurrency cfg)) (rd_failure_rates cfg)))
       (bc_retry_degradation c)"

definition backlog_plan :: "bench_config \<Rightarrow> planned list" where
  "backlog_plan c =
     enabled bl_enabled
       (\<lambda>cfg. repeated (bc_repeat c) (map (\<lambda>backlog. BacklogPoint backlog (bl_worker_concurrency cfg)) (bl_backlogs cfg)))
       (bc_backlog c)"

definition crash_recovery_plan :: "bench_config \<Rightarrow> planned list" where
  "crash_recovery_plan c =
     enabled cc_enabled
       (\<lambda>cfg. repeated (bc_repeat c) [RealKillPoint 3]
        @ repeated (bc_repeat c)
            (map (\<lambda>name. FailpointPoint name (cc_jobs_per_failpoint cfg))
              [AfterClaimBeforeEffect, AfterEffectBeforeFinalize, DuringFinalize])) (bc_crash_recovery c)"

definition idempotency_plan :: "bench_config \<Rightarrow> planned list" where
  "idempotency_plan c =
     enabled ic_enabled (\<lambda>cfg. repeated (bc_repeat c) (map IdempotencyPoint (ic_concurrency_levels cfg))) (bc_idempotency c)"

subsection \<open>main.rs\<close>

definition scenario_plans :: "(string \<times> (bench_config \<Rightarrow> planned list)) list" where
  "scenario_plans =
     [(''ingestion'', ingestion_plan), (''execution'', execution_plan), (''scaling'', scaling_plan),
      (''claim_batch'', claim_batch_plan), (''retry_degradation'', retry_degradation_plan), (''backlog'', backlog_plan),
      (''crash_recovery'', crash_recovery_plan), (''idempotency'', idempotency_plan)]"

definition run_command :: "bench_config \<Rightarrow> string \<Rightarrow> planned list" where
  "run_command c scenario =
     (let run_all = (scenario = ''all'')
      in concat (map (\<lambda>(name, plan). if run_all \<or> scenario = name then plan c else []) scenario_plans))"

subsection \<open>What is planned\<close>

lemma repeated_set: "set (repeated n ps) = set ps \<times> {1 .. n}"
proof -
  have "{1 ..< n + 1} = {1 .. n}" by auto
  then show ?thesis by (auto simp: repeated_def simp del: upt_Suc)
qed

lemma repeated_distinct: "distinct ps \<Longrightarrow> distinct (repeated n ps)"
  by (induction ps) (auto simp: repeated_def distinct_map inj_on_def)

lemma repeated_length: "length (repeated n ps) = n * length ps"
  by (induction ps) (simp_all add: repeated_def)

text \<open>A plan repeats each of its points: the runs of a point are numbered one to \<open>n\<close>.\<close>

definition repeats :: "nat \<Rightarrow> planned list \<Rightarrow> bool" where
  "repeats n plan \<longleftrightarrow> set plan = fst ` set plan \<times> {1 .. n}"

lemma repeats_repeated: "repeats n (repeated n ps)"
  by (cases "n = 0") (auto simp: repeats_def repeated_set)

lemma repeats_append: "repeats n xs \<Longrightarrow> repeats n ys \<Longrightarrow> repeats n (xs @ ys)"
  unfolding repeats_def set_append image_Un by (metis Sigma_Un_distrib1)

lemma repeats_Nil: "repeats n []"
  by (simp add: repeats_def)

lemma repeats_enabled: "(\<And>cfg. repeats n (f cfg)) \<Longrightarrow> repeats n (enabled on f c)"
  by (cases c) (simp_all add: enabled_def repeats_Nil)

lemmas repeats_intros = repeats_repeated repeats_append repeats_Nil repeats_enabled

lemma scenario_plans_repeat:
  "(name, plan) \<in> set scenario_plans \<Longrightarrow> repeats (bc_repeat c) (plan c)"
  by (auto simp: scenario_plans_def ingestion_plan_def execution_plan_def scaling_plan_def claim_batch_plan_def
      retry_degradation_plan_def backlog_plan_def crash_recovery_plan_def idempotency_plan_def intro!: repeats_intros)

lemma repeats_concat: "(\<And>x. x \<in> set xs \<Longrightarrow> repeats n (f x)) \<Longrightarrow> repeats n (concat (map f xs))"
  by (induction xs) (simp_all add: repeats_Nil repeats_append)

lemma run_command_repeats: "repeats (bc_repeat c) (run_command c scenario)"
  unfolding run_command_def Let_def
  by (rule repeats_concat) (auto simp: repeats_Nil intro: scenario_plans_repeat)

end
