(* ===== verification/BenchHost.thy ===== *)
theory BenchHost
  imports BenchReport
begin

section \<open>Measuring the host: reliableq-bench, resource.rs and env\_info.rs\<close>

text \<open>
  What the benchmark reads of the machine (\<open>src/crates/reliableq-bench/src/resource.rs\<close>, \<open>env_info.rs\<close>): the output of \<open>ps\<close> and
  \<open>docker stats\<close>, the sampler that accumulates it, and the facts recorded with every run. Running a command, reading a file, the
  constants of the platform and the parsing of an \<open>f64\<close> are the parameters \<open>host\<close>; products of \<open>u64\<close> wrap as in a release build. The queries for the size of the
  database and for the WAL position only pass on what PostgreSQL answers and are left out.
\<close>

record host =
  ho_run :: "string \<Rightarrow> string list \<Rightarrow> (bool \<times> string) option"
  ho_read :: "string \<Rightarrow> string option"
  ho_parse_f64 :: "string \<Rightarrow> rat option"
  ho_macos :: bool
  ho_os :: string
  ho_arch :: string
  ho_parallelism :: "nat option"

subsection \<open>Reading text\<close>

text \<open>\<open>str::split_whitespace\<close>, \<open>str::lines\<close> and \<open>str::split\<close> at a character.\<close>

fun take_word :: "string \<Rightarrow> string \<times> string" where
  "take_word [] = ([], [])"
| "take_word (c # cs) =
     (case strip_one white_space (c # cs) of
        Some t \<Rightarrow> ([], t)
      | None \<Rightarrow> (case take_word cs of (w, r) \<Rightarrow> (c # w, r)))"

lemma take_word_rest: "take_word s = (w, r) \<Longrightarrow> length r \<le> length s"
proof (induction s arbitrary: w r)
  case (Cons c cs)
  then show ?case
    by (cases "strip_one white_space (c # cs)") (auto split: prod.splits dest: strip_one_shorter intro: le_SucI)
qed simp

lemma take_word_shorter: "s \<noteq> [] \<Longrightarrow> take_word s = (w, r) \<Longrightarrow> length r < length s"
  by (cases s) (auto split: option.splits prod.splits dest: strip_one_shorter take_word_rest)

function split_whitespace :: "string \<Rightarrow> string list" where
  "split_whitespace s =
     (let t = strip_all white_space s
      in if t = [] then [] else case take_word t of (w, r) \<Rightarrow> w # split_whitespace r)"
  by pat_completeness auto
termination
  by (relation "measure length")
    (auto dest!: sym [of "(_, _)"] take_word_shorter intro: less_le_trans [OF _ strip_all_length])

declare split_whitespace.simps [simp del]

fun split_char :: "char \<Rightarrow> string \<Rightarrow> string list" where
  "split_char d [] = [[]]"
| "split_char d (c # cs) =
     (if c = d then [] # split_char d cs
      else case split_char d cs of [] \<Rightarrow> [[c]] | w # ws \<Rightarrow> (c # w) # ws)"

definition strip_cr :: "string \<Rightarrow> string" where
  "strip_cr s = (if s \<noteq> [] \<and> last s = CHR 0x0D then butlast s else s)"

definition text_lines :: "string \<Rightarrow> string list" where
  "text_lines s =
     (let ls = split_char (CHR 0x0A) s
      in map strip_cr (butlast ls) @ (if last ls = [] then [] else [last ls]))"

definition nth_opt :: "'a list \<Rightarrow> nat \<Rightarrow> 'a option" where
  "nth_opt xs n = (if n < length xs then Some (xs ! n) else None)"

subsection \<open>resource.rs\<close>

definition output_of :: "(bool \<times> string) option \<Rightarrow> string option" where
  "output_of r = Option.bind r (\<lambda>(success, out). if success then Some out else None)"

definition sample_pid :: "host \<Rightarrow> nat \<Rightarrow> (rat \<times> nat) option" where
  "sample_pid h pid =
     Option.bind (output_of (ho_run h ''ps'' [''-o'', ''%cpu=,rss='', ''-p'', show_nat pid])) (\<lambda>text.
     let parts = split_whitespace text in
     Option.bind (Option.bind (nth_opt parts 0) (ho_parse_f64 h)) (\<lambda>cpu.
     Option.bind (Option.bind (nth_opt parts 1) (parse_uint u64_max)) (\<lambda>rss_kb.
     Some (cpu, rss_kb * 1024 mod 2 ^ 64))))"

record accumulator =
  ac_cpu_samples :: "rat list"
  ac_rss_peak :: nat

definition default_accumulator :: accumulator where
  "default_accumulator = \<lparr>ac_cpu_samples = [], ac_rss_peak = 0\<rparr>"

text \<open>One turn of the sampling task; a sample that cannot be taken is skipped.\<close>

definition accumulate :: "(rat \<times> nat) option \<Rightarrow> accumulator \<Rightarrow> accumulator" where
  "accumulate sample acc =
     (case sample of
        None \<Rightarrow> acc
      | Some (cpu, rss) \<Rightarrow>
          acc\<lparr>ac_cpu_samples := ac_cpu_samples acc @ [cpu], ac_rss_peak := max (ac_rss_peak acc) rss\<rparr>)"

definition sampled :: "(rat \<times> nat) option list \<Rightarrow> accumulator" where
  "sampled samples = fold accumulate samples default_accumulator"

definition stop_and_collect :: "accumulator \<Rightarrow> resource_sample" where
  "stop_and_collect acc =
     (if ac_cpu_samples acc = []
      then \<lparr>rs_cpu_pct_avg = None, rs_cpu_pct_peak = None, rs_rss_bytes_peak = None,
            rs_note = Some ''no samples collected (process may have exited too quickly)''\<rparr>
      else \<lparr>rs_cpu_pct_avg = Some (sum_list (ac_cpu_samples acc) / of_nat (length (ac_cpu_samples acc))),
            rs_cpu_pct_peak = Some (foldl max 0 (ac_cpu_samples acc)),
            rs_rss_bytes_peak = Some (ac_rss_peak acc), rs_note = None\<rparr>)"

definition sample_postgres_container :: "host \<Rightarrow> string \<Rightarrow> resource_sample option" where
  "sample_postgres_container h name =
     Option.bind (output_of (ho_run h ''docker''
         [''stats'', ''--no-stream'', ''--format'', ''{{.CPUPerc}}'' @ [CHR 0x09] @ ''{{.MemUsage}}'', name])) (\<lambda>text.
     Option.bind (nth_opt (split_char (CHR 0x09) (trim text)) 0) (\<lambda>first.
     let cpu_pct = ho_parse_f64 h (rev (dropWhile (\<lambda>c. c = CHR ''%'') (rev first))) in
     Some \<lparr>rs_cpu_pct_avg = cpu_pct, rs_cpu_pct_peak = cpu_pct, rs_rss_bytes_peak = None,
           rs_note = Some ''single docker-stats sample, not a time series''\<rparr>))"

text \<open>The queries about the database: what is fetched is given, and an error is \<open>None\<close> (\<open>ok()\<close>).\<close>

definition database_size_bytes :: "(string \<Rightarrow> string + int) \<Rightarrow> string \<Rightarrow> int option" where
  "database_size_bytes fetch db_name = result_option (fetch db_name)"

definition current_wal_lsn :: "string + string \<Rightarrow> string option" where
  "current_wal_lsn fetched = result_option fetched"

definition wal_bytes_since :: "string + string \<Rightarrow> (string \<Rightarrow> string \<Rightarrow> string + int) \<Rightarrow> string option \<Rightarrow> int option" where
  "wal_bytes_since current diff since_lsn =
     Option.bind (result_option current) (\<lambda>now. Option.bind since_lsn (\<lambda>since. result_option (diff now since)))"

subsection \<open>env\_info.rs\<close>

definition run_text :: "host \<Rightarrow> string \<Rightarrow> string list \<Rightarrow> string option" where
  "run_text h cmd args = map_option trim (output_of (ho_run h cmd args))"

definition or_unknown :: "string option \<Rightarrow> string" where
  "or_unknown s = (case s of Some t \<Rightarrow> t | None \<Rightarrow> ''unknown'')"

definition line_starting :: "string \<Rightarrow> string \<Rightarrow> string option" where
  "line_starting prefix text = List.find (\<lambda>l. starts_with l prefix) (text_lines text)"

definition host_cpu_model :: "host \<Rightarrow> string option" where
  "host_cpu_model h =
     (if ho_macos h then run_text h ''sysctl'' [''-n'', ''machdep.cpu.brand_string'']
      else Option.bind (ho_read h ''/proc/cpuinfo'') (\<lambda>s.
           Option.bind (line_starting ''model name'' s) (\<lambda>l.
           map_option trim (nth_opt (split_char CHR '':'' l) 1))))"

definition host_memory_bytes :: "host \<Rightarrow> nat option" where
  "host_memory_bytes h =
     (if ho_macos h then Option.bind (run_text h ''sysctl'' [''-n'', ''hw.memsize'']) (parse_uint u64_max)
      else Option.bind (ho_read h ''/proc/meminfo'') (\<lambda>s.
           Option.bind (line_starting ''MemTotal:'' s) (\<lambda>l.
           Option.bind (nth_opt (split_whitespace l) 1) (\<lambda>kb.
           map_option (\<lambda>n. n * 1024 mod 2 ^ 64) (parse_uint u64_max kb)))))"

text \<open>\<open>pg\<close> is the database, if there is one: its version, and the value of a setting where \<open>SHOW\<close> works.\<close>

definition capture ::
    "host \<Rightarrow> 'j report_lib \<Rightarrow> (string option \<times> (string \<Rightarrow> string option)) option \<Rightarrow> 'j env_info" where
  "capture h lib pg =
     \<lparr>ei_git_commit = or_unknown (run_text h ''git'' [''rev-parse'', ''HEAD'']),
      ei_git_dirty = (case run_text h ''git'' [''status'', ''--porcelain''] of Some s \<Rightarrow> trim s \<noteq> [] | None \<Rightarrow> True),
      ei_rust_version = or_unknown (run_text h ''rustc'' [''--version'']),
      ei_os = ho_os h,
      ei_os_version = or_unknown (run_text h ''uname'' [''-r'']),
      ei_architecture = ho_arch h,
      ei_cpu_model = host_cpu_model h,
      ei_logical_cpu_count = (case ho_parallelism h of Some n \<Rightarrow> n | None \<Rightarrow> 1),
      ei_memory_bytes = host_memory_bytes h,
      ei_docker_version = run_text h ''docker'' [''version'', ''--format'', ''{{.Server.Version}}''],
      ei_postgres_version = (case pg of Some (v, settings) \<Rightarrow> v | None \<Rightarrow> None),
      ei_postgres_configuration =
        (case pg of
           Some (v, settings) \<Rightarrow>
             rl_json lib (filter_map (\<lambda>k. map_option (\<lambda>x. (k, JStr x)) (settings k))
               [''max_connections'', ''shared_buffers'', ''effective_cache_size''])
         | None \<Rightarrow> rl_null lib)\<rparr>"

subsection \<open>What is recorded\<close>

lemma sampled_fields:
  "ac_cpu_samples (sampled samples) = map fst (List.map_filter (\<lambda>x. x) samples)"
  "ac_rss_peak (sampled samples) = foldl max 0 (map snd (List.map_filter (\<lambda>x. x) samples))"
proof -
  have "ac_cpu_samples (fold accumulate samples acc) = ac_cpu_samples acc @ map fst (List.map_filter (\<lambda>x. x) samples)
    \<and> ac_rss_peak (fold accumulate samples acc) = foldl max (ac_rss_peak acc) (map snd (List.map_filter (\<lambda>x. x) samples))" for acc
    by (induction samples arbitrary: acc)
      (auto simp: accumulate_def List.map_filter_simps split: option.splits)
  then show "ac_cpu_samples (sampled samples) = map fst (List.map_filter (\<lambda>x. x) samples)"
    "ac_rss_peak (sampled samples) = foldl max 0 (map snd (List.map_filter (\<lambda>x. x) samples))"
    by (simp_all add: sampled_def default_accumulator_def)
qed

lemma foldl_max_ge: "(a :: 'a :: linorder) \<le> foldl max a xs" "x \<in> set xs \<Longrightarrow> x \<le> foldl max a xs"
proof -
  show le: "a \<le> foldl max a xs" for a :: "'a :: linorder" and xs
    by (induction xs arbitrary: a) (auto intro: order_trans [OF max.cobounded1])
  show "x \<in> set xs \<Longrightarrow> x \<le> foldl max a xs"
    by (induction xs arbitrary: a) (auto intro: order_trans [OF max.cobounded2 le])
qed

text \<open>The mean of the samples never exceeds the peak.\<close>

lemma collected_mean_le_peak:
  assumes "stop_and_collect acc = s" "rs_cpu_pct_avg s = Some avg" "rs_cpu_pct_peak s = Some peak"
  shows "avg \<le> peak"
proof -
  let ?xs = "ac_cpu_samples acc"
  have ne: "?xs \<noteq> []" and v: "avg = sum_list ?xs / of_nat (length ?xs)" "peak = foldl max 0 ?xs"
    using assms by (auto simp: stop_and_collect_def split: if_splits)
  have "sum_list ?xs \<le> sum_list (map (\<lambda>x. peak) ?xs)"
    using sum_list_mono [of ?xs "\<lambda>x. x" "\<lambda>x. peak"] foldl_max_ge(2) [of _ ?xs 0] by (simp add: v(2))
  then have "sum_list ?xs \<le> of_nat (length ?xs) * peak" by (simp add: sum_list_triv)
  then show ?thesis using ne by (simp add: v(1) divide_le_eq mult.commute)
qed

text \<open>A worktree whose state cannot be determined counts as dirty.\<close>

lemma undetermined_is_dirty:
  "output_of (ho_run h ''git'' [''status'', ''--porcelain'']) = None \<Longrightarrow> ei_git_dirty (capture h lib pg)"
  by (simp add: capture_def run_text_def)

end
