(* ===== verification/BenchLive.thy ===== *)
theory BenchLive
  imports BenchSubmit BenchPlan BenchProcs BenchHost
begin

section \<open>The scenarios that run the compiled services: reliableq-bench, scenarios\<close>

text \<open>
  \<open>ingestion.rs\<close>, \<open>execution.rs\<close>, \<open>scaling.rs\<close>, \<open>retry_degradation.rs\<close>, \<open>backlog.rs\<close> and the run of \<open>crash_recovery.rs\<close> that kills a
  worker, all under \<open>src/crates/reliableq-bench/src/scenarios\<close>: what each of them measures on the tables once the queue is drained,
  and the record it makes of it. The whole runs, from the empty tables to the last process stopped, are in \<open>BenchPoints\<close>.
\<close>

record ('v, 'j) bench_lib =
  bl_api :: "'v bench_api"
  bl_lib :: "'j report_lib"
  bl_show_uuid :: "uuid \<Rightarrow> string"
  bl_show_f0 :: "rat \<Rightarrow> string"
  bl_host :: "'j env_info"

text \<open>\<open>unwrap_or_default\<close> and \<open>unwrap_or(0)\<close> of a query.\<close>

definition rows_or_none :: "repo_error + 'a list \<Rightarrow> 'a list" where
  "rows_or_none r = (case r of Inl e \<Rightarrow> [] | Inr xs \<Rightarrow> xs)"

definition count_or_zero :: "repo_error + nat \<Rightarrow> nat" where
  "count_or_zero r = (case r of Inl e \<Rightarrow> 0 | Inr n \<Rightarrow> n)"

text \<open>What the scenarios with workers measure: read the latencies, run the gate.\<close>

record measured =
  md_outcomes :: "submit_outcome list"
  md_drained :: bool
  md_elapsed :: rat
  md_latencies :: "rat list"
  md_gate :: gate_results

definition md_ids :: "measured \<Rightarrow> uuid list" where
  "md_ids m = tracked (md_outcomes m)"

definition submit_errors :: "measured \<Rightarrow> nat" where
  "submit_errors m = length (md_outcomes m) - length (md_ids m)"

definition measure_live ::
    "('v, 'j) bench_lib \<Rightarrow> submit_outcome list \<Rightarrow> nat option \<Rightarrow> nat option \<Rightarrow> bool \<Rightarrow> rat \<Rightarrow> 'v db \<Rightarrow> repo_error + measured" where
  "measure_live bl outcomes capacity peak drained elapsed db =
     (let ids = tracked outcomes; latencies = rows_or_none (end_to_end_latencies_ms ids db)
      in bind_res (run_gate (bl_show_uuid bl) (bl_show_f0 bl)
           \<lparr>gi_tracked_ids = ids, gi_expect_all_terminal = drained, gi_worker_capacity = capacity,
            gi_observed_peak_inflight = peak, gi_latency_samples_ms = latencies,
            gi_measurement_window_secs = elapsed\<rparr> db) (\<lambda>g.
         Inr \<lparr>md_outcomes = outcomes, md_drained = drained, md_elapsed = elapsed, md_latencies = latencies, md_gate = g\<rparr>))"

text \<open>The fields that the records of these runs share.\<close>

definition live_record ::
    "('v, 'j) bench_lib \<Rightarrow> timestamp \<Rightarrow> string \<Rightarrow> (string \<times> json_item) list \<Rightarrow> nat \<Rightarrow> measured \<Rightarrow> 'j run_result" where
  "live_record bl now scenario params run_number m =
     (base_run (bl_lib bl) now (bl_host bl) scenario (rl_json (bl_lib bl) params) run_number)
       \<lparr>rr_api_process_count := 1,
        rr_job_count := length (md_ids m),
        rr_measurement_duration_secs := md_elapsed m,
        rr_throughput := \<lparr>tp_unit = ''jobs_per_sec'', tp_value = throughput_per_sec (length (md_ids m)) (md_elapsed m)\<rparr>,
        rr_latency_percentiles := percentiles_of_samples (md_latencies m),
        rr_correctness_results := gate_correctness (bl_lib bl) (md_gate m)\<rparr>"

definition http_errors :: "nat \<Rightarrow> error_counts" where
  "http_errors n = \<lparr>ec_http_errors = n, ec_timeouts = 0, ec_other = 0\<rparr>"

subsection \<open>ingestion.rs\<close>

definition ingestion_gate :: "('v, 'j) bench_lib \<Rightarrow> submit_outcome list \<Rightarrow> 'v db \<Rightarrow> repo_error + gate_results" where
  "ingestion_gate bl outcomes db =
     run_gate (bl_show_uuid bl) (bl_show_f0 bl)
       \<lparr>gi_tracked_ids = tracked outcomes, gi_expect_all_terminal = False, gi_worker_capacity = None,
        gi_observed_peak_inflight = None, gi_latency_samples_ms = [], gi_measurement_window_secs = 0\<rparr> db"

definition ingestion_record ::
    "('v, 'j) bench_lib \<Rightarrow> timestamp \<Rightarrow> nat \<Rightarrow> nat \<Rightarrow> rat \<Rightarrow> rat \<Rightarrow> submit_outcome list \<Rightarrow> gate_results \<Rightarrow> 'j run_result" where
  "ingestion_record bl now conc run_number warmup_secs elapsed outcomes g =
     (let successes = tracked outcomes;
          latencies = map so_elapsed_ms (filter (\<lambda>o1. so_status o1 = 202) outcomes)
      in (base_run (bl_lib bl) now (bl_host bl) ''ingestion'' (rl_json (bl_lib bl) [(''concurrency'', JNat conc)]) run_number)
           \<lparr>rr_api_process_count := 1,
            rr_worker_process_count := 0,
            rr_job_count := length outcomes,
            rr_warmup_duration_secs := Some warmup_secs,
            rr_measurement_duration_secs := elapsed,
            rr_throughput := \<lparr>tp_unit = ''requests_per_sec'', tp_value = throughput_per_sec (length outcomes) elapsed\<rparr>,
            rr_latency_percentiles := percentiles_of_samples latencies,
            rr_error_counts := http_errors (length outcomes - length successes),
            rr_correctness_results := gate_correctness (bl_lib bl) g,
            rr_extra := rl_json (bl_lib bl)
              [(''committed_submissions_per_sec'', JRat (throughput_per_sec (length successes) elapsed)),
               (''committed_submissions'', JNat (length successes)),
               (''postgres_commit_latency_note'', JStr (''not separately observable without API instrumentation this task ''
                  @ ''does not add; response latency includes the commit'')),
               (''connection_pool_note'', JStr (''unavailable: the sqlx pool lives inside the api process, ''
                  @ ''not this harness''))]\<rparr>)"

subsection \<open>execution.rs\<close>

definition execution_lease_secs :: nat where "execution_lease_secs = 10"
definition execution_deadline :: duration where "execution_deadline = from_secs 180"

record host_measures =
  hm_size_before :: "int option"
  hm_size_after :: "int option"
  hm_wal_bytes :: "int option"
  hm_worker :: "resource_sample option"
  hm_api :: "resource_sample option"
  hm_fake_charge :: "resource_sample option"
  hm_postgres :: "resource_sample option"

definition theoretical_ceiling :: "nat \<Rightarrow> nat \<Rightarrow> rat option" where
  "theoretical_ceiling latency_ms conc =
     (if 0 < latency_ms then Some (of_nat conc / (of_nat latency_ms / 1000)) else None)"

definition docker_unavailable :: resource_sample where
  "docker_unavailable =
     \<lparr>rs_cpu_pct_avg = None, rs_cpu_pct_peak = None, rs_rss_bytes_peak = None,
      rs_note = Some ''docker stats unavailable for this container''\<rparr>"

definition execution_record ::
    "('v, 'j) bench_lib \<Rightarrow> timestamp \<Rightarrow> string \<Rightarrow> nat \<Rightarrow> nat \<Rightarrow> nat \<Rightarrow> host_measures \<Rightarrow> measured \<Rightarrow> 'j run_result" where
  "execution_record bl now scenario latency_ms conc run_number hm m =
     (live_record bl now scenario [(''downstream_latency_ms'', JNat latency_ms), (''worker_concurrency'', JNat conc)] run_number m)
       \<lparr>rr_worker_process_count := 1,
        rr_worker_concurrency := conc,
        rr_lease_duration_secs := of_nat execution_lease_secs,
        rr_heartbeat_interval_secs := of_nat execution_lease_secs / 3,
        rr_fake_charge_latency_ms := latency_ms,
        rr_warmup_duration_secs := Some 0,
        rr_error_counts := http_errors (submit_errors m),
        rr_resource_measurements :=
          \<lparr>rm_api = hm_api hm, rm_worker = hm_worker hm, rm_fake_charge = hm_fake_charge hm,
           rm_postgres = Some (case hm_postgres hm of Some s \<Rightarrow> s | None \<Rightarrow> docker_unavailable)\<rparr>,
        rr_extra := rl_json (bl_lib bl)
          [(''drained_within_deadline'', JBool (md_drained m)),
           (''theoretical_ceiling_jobs_per_sec_note'',
              JStr (''concurrency / handler_latency, an approximation per docs/benchmarking/design.md sec. 1 Q3; ''
                 @ ''null when latency is 0ms (undefined ceiling)'')),
           (''theoretical_ceiling_jobs_per_sec'', JRatOption (theoretical_ceiling latency_ms conc)),
           (''database_size_bytes_before'', JIntOption (hm_size_before hm)),
           (''database_size_bytes_after'', JIntOption (hm_size_after hm)),
           (''wal_bytes_generated'', JIntOption (hm_wal_bytes hm))]\<rparr>"

subsection \<open>scaling.rs\<close>

definition scaling_lease_secs :: nat where "scaling_lease_secs = 10"
definition scaling_deadline :: duration where "scaling_deadline = from_secs 180"

text \<open>The succeeded attempts of the tracked jobs, counted by worker, in the order of a \<open>BTreeMap\<close>.\<close>

definition succeeded_attempts :: "uuid list \<Rightarrow> 'v db \<Rightarrow> attempt_row list" where
  "succeeded_attempts ids db =
     filter (\<lambda>a. at_job_id a \<in> set ids \<and> at_outcome a = Some ''SUCCEEDED'') (job_attempts db)"

definition per_worker_counts :: "uuid list \<Rightarrow> 'v db \<Rightarrow> (string \<times> nat) list" where
  "per_worker_counts ids db =
     (if ids = [] then []
      else let workers = map at_worker_id (succeeded_attempts ids db)
           in rows_or_none (query db (Inr (map (\<lambda>w. (w, length (filter (\<lambda>x. x = w) workers))) (sort (remdups workers))))))"

text \<open>The product of two \<open>u32\<close> wraps in a release build.\<close>

definition total_concurrency :: "nat \<Rightarrow> nat \<Rightarrow> nat" where
  "total_concurrency worker_count per_worker = worker_count * per_worker mod 2 ^ 32"

definition scaling_record ::
    "('v, 'j) bench_lib \<Rightarrow> timestamp \<Rightarrow> string \<Rightarrow> nat \<Rightarrow> nat \<Rightarrow> nat \<Rightarrow> nat \<Rightarrow> (string \<times> nat) list \<Rightarrow> measured \<Rightarrow> 'j run_result" where
  "scaling_record bl now axis worker_count per_worker latency_ms run_number fairness m =
     (live_record bl now ''scaling''
        [(''axis'', JStr axis), (''worker_count'', JNat worker_count), (''concurrency_per_worker'', JNat per_worker),
         (''total_concurrency'', JNat (total_concurrency worker_count per_worker))] run_number m)
       \<lparr>rr_worker_process_count := worker_count,
        rr_worker_concurrency := per_worker,
        rr_lease_duration_secs := of_nat scaling_lease_secs,
        rr_fake_charge_latency_ms := latency_ms,
        rr_error_counts := http_errors (submit_errors m),
        rr_extra := rl_json (bl_lib bl)
          [(''drained_within_deadline'', JBool (md_drained m)),
           (''per_worker_succeeded_counts'', JObject (map (\<lambda>(w, n). (w, JNat n)) fairness))]\<rparr>"

subsection \<open>retry\_degradation.rs\<close>

definition retry_lease_secs :: nat where "retry_lease_secs = 10"
definition retry_deadline :: duration where "retry_deadline = from_secs 180"
definition retry_seed :: nat where "retry_seed = 20260818"

text \<open>The control the run sends before it submits: a failure rate with a seed of the run, or none.\<close>

definition retry_control :: "rat \<Rightarrow> nat \<Rightarrow> control_request" where
  "retry_control rate run_number =
     (if 0 < rate then CFailRate rate 503 (Some (retry_seed + run_number)) else CNormal)"

definition total_attempts :: "uuid list \<Rightarrow> 'v db \<Rightarrow> nat" where
  "total_attempts ids db =
     (if ids = [] then 0
      else count_or_zero (query db (Inr (length (filter (\<lambda>a. at_job_id a \<in> set ids) (job_attempts db))))))"

definition count_with_status :: "string \<Rightarrow> uuid list \<Rightarrow> 'v db \<Rightarrow> nat" where
  "count_with_status st ids db =
     (if ids = [] then 0
      else count_or_zero (query db (Inr (length (filter (\<lambda>r. jid r \<in> set ids \<and> status r = st) (jobs db))))))"

definition retry_delays :: "uuid list \<Rightarrow> 'v db \<Rightarrow> rat list" where
  "retry_delays ids db =
     (if ids = [] then []
      else map of_int (rows_or_none (query db (Inr (List.map_filter at_scheduled_delay_ms
             (filter (\<lambda>a. at_job_id a \<in> set ids) (job_attempts db)))))))"

definition retry_amplification :: "uuid list \<Rightarrow> 'v db \<Rightarrow> rat" where
  "retry_amplification ids db =
     (if ids \<noteq> [] then of_nat (total_attempts ids db) / of_nat (length ids) else 0)"

definition retry_degradation_record ::
    "('v, 'j) bench_lib \<Rightarrow> timestamp \<Rightarrow> rat \<Rightarrow> nat \<Rightarrow> nat \<Rightarrow> measured \<Rightarrow> 'v db \<Rightarrow> 'j run_result" where
  "retry_degradation_record bl now rate conc run_number m db =
     (let ids = md_ids m in
      (live_record bl now ''retry_degradation'' [(''transient_failure_rate'', JRat rate)] run_number m)
        \<lparr>rr_worker_process_count := 1,
         rr_worker_concurrency := conc,
         rr_lease_duration_secs := of_nat retry_lease_secs,
         rr_fake_charge_failure_mode := ''fail_rate='' @ rl_show_f64 (bl_lib bl) rate,
         rr_error_counts := default_error_counts,
         rr_retry_configuration := rl_json (bl_lib bl)
           [(''base_delay_ms'', JNat 200), (''multiplier'', JNat 2), (''max_delay_secs'', JNat 60),
            (''note'', JStr ''compressed base_delay for this scenario only, see run_point doc comment'')],
         rr_extra := rl_json (bl_lib bl)
           [(''drained_within_deadline'', JBool (md_drained m)),
            (''retry_amplification'', JRat (retry_amplification ids db)),
            (''total_handler_attempts'', JNat (total_attempts ids db)),
            (''total_logical_jobs'', JNat (length ids)),
            (''dead_job_count'', JNat (count_with_status ''DEAD'' ids db)),
            (''succeeded_count'', JNat (count_with_status ''SUCCEEDED'' ids db)),
            (''retry_delay_ms_distribution'', JPercentiles (percentiles_of_samples (retry_delays ids db)))]\<rparr>)"

subsection \<open>backlog.rs\<close>

definition backlog_lease_secs :: nat where "backlog_lease_secs = 15"
definition backlog_deadline :: duration where "backlog_deadline = from_secs 900"

definition backlog_record ::
    "('v, 'j) bench_lib \<Rightarrow> timestamp \<Rightarrow> nat \<Rightarrow> nat \<Rightarrow> nat \<Rightarrow> rat \<Rightarrow> (rat \<times> nat) list \<Rightarrow> measured \<Rightarrow> 'j run_result" where
  "backlog_record bl now backlog conc run_number preload_secs depth_samples m =
     (live_record bl now ''backlog'' [(''backlog_size'', JNat backlog)] run_number m)
       \<lparr>rr_worker_process_count := 1,
        rr_worker_concurrency := conc,
        rr_lease_duration_secs := of_nat backlog_lease_secs,
        rr_warmup_duration_secs := Some preload_secs,
        rr_error_counts := http_errors (submit_errors m),
        rr_extra := rl_json (bl_lib bl)
          [(''drained_within_deadline'', JBool (md_drained m)),
           (''preload_duration_secs'', JRat preload_secs),
           (''queue_depth_over_time'',
              JArray (map (\<lambda>(t, d). JObject [(''t_secs'', JRat t), (''depth'', JNat d)]) depth_samples))]\<rparr>"

subsection \<open>crash\_recovery.rs: a worker killed\<close>

definition kill_lease_secs :: nat where "kill_lease_secs = 5"
definition kill_deadline :: duration where "kill_deadline = from_secs 120"
definition kill_delay_ms :: nat where "kill_delay_ms = (kill_lease_secs + 5) * 1000"

definition running_jobs :: "uuid list \<Rightarrow> 'v db \<Rightarrow> nat" where
  "running_jobs ids db =
     count_or_zero (query db (Inr (length (filter (\<lambda>j. jid j \<in> set ids \<and> status j = ''RUNNING'') (jobs db)))))"

definition real_kill_record ::
    "('v, 'j) bench_lib \<Rightarrow> timestamp \<Rightarrow> nat \<Rightarrow> nat \<Rightarrow> rat \<Rightarrow> measured \<Rightarrow> 'j run_result" where
  "real_kill_record bl now run_number claimed_before_kill kill_elapsed m =
     (live_record bl now ''crash_recovery_real_kill'' [(''lease_duration_secs'', JNat kill_lease_secs)] run_number m)
       \<lparr>rr_worker_process_count := 2,
        rr_lease_duration_secs := of_nat kill_lease_secs,
        rr_throughput := \<lparr>tp_unit = ''jobs_per_sec'', tp_value = of_nat (length (md_ids m)) / max (md_elapsed m) (1 / 10 ^ 9)\<rparr>,
        rr_error_counts := default_error_counts,
        rr_extra := rl_json (bl_lib bl)
          [(''drained_within_deadline'', JBool (md_drained m)),
           (''jobs_running_when_killed'', JNat claimed_before_kill),
           (''time_to_kill_secs'', JRat kill_elapsed),
           (''total_recovery_time_secs'', JRat (md_elapsed m)),
           (''method'', JStr ''real SIGKILL (tokio::process::Child::start_kill) of a live reliableq-worker release binary'')]\<rparr>"

end
