(* ===== verification/BenchTables.thy ===== *)
theory BenchTables
  imports BenchLive SystemTrace
begin

section \<open>What the live scenarios measure\<close>

text \<open>
  The counts that \<open>scaling.rs\<close> and \<open>retry_degradation.rs\<close> read off the tables, job by job: on tables that satisfy the invariant each
  of them is a sum over the tracked jobs. And submissions as a run of the system.
\<close>

subsection \<open>Counting by key\<close>

lemma length_filter_split:
  "(\<And>x. \<not> (A x \<and> B x)) \<Longrightarrow> length (filter (\<lambda>x. A x \<or> B x) xs) = length (filter A xs) + length (filter B xs)"
  by (induction xs) auto

lemma length_filter_by_key:
  "distinct ks \<Longrightarrow> length (filter (\<lambda>x. key x \<in> set ks \<and> P x) xs)
     = sum_list (map (\<lambda>k. length (filter (\<lambda>x. key x = k \<and> P x) xs)) ks)"
proof (induction ks)
  case (Cons k ks)
  have "length (filter (\<lambda>x. key x \<in> set (k # ks) \<and> P x) xs)
      = length (filter (\<lambda>x. (key x = k \<and> P x) \<or> (key x \<in> set ks \<and> P x)) xs)"
    by (rule arg_cong [where f = length], rule filter_cong) auto
  also have "\<dots> = length (filter (\<lambda>x. key x = k \<and> P x) xs) + length (filter (\<lambda>x. key x \<in> set ks \<and> P x) xs)"
    using Cons.prems by (intro length_filter_split) auto
  finally show ?case using Cons by simp
qed simp

lemma sum_list_key_counts:
  "sum_list (map (\<lambda>k. length (filter (\<lambda>x. x = k) xs)) (sort (remdups xs))) = length xs"
proof -
  have "sum_list (map (\<lambda>k. length (filter (\<lambda>x. x = k) xs)) (sort (remdups xs)))
      = length (filter (\<lambda>x. x \<in> set (sort (remdups xs))) xs)"
    using length_filter_by_key [of "sort (remdups xs)" "\<lambda>x. x" "\<lambda>x. True" xs] by simp
  also have "filter (\<lambda>x. x \<in> set (sort (remdups xs))) xs = xs" by (simp add: filter_id_conv)
  finally show ?thesis .
qed

subsection \<open>Job by job\<close>

lemma filter_key_single: "distinct (map f xs) \<Longrightarrow> x \<in> set xs \<Longrightarrow> filter (\<lambda>y. f y = f x) xs = [x]"
  by (induction xs) (auto simp: filter_empty_conv image_iff)

lemma tracked_row:
  assumes "db_inv db" "i \<in> jid ` set (jobs db)"
  obtains r where "r \<in> set (jobs db)" "jid r = i" "filter (\<lambda>r. jid r = i) (jobs db) = [r]"
    "job_ok r (attempts_of i db)"
proof -
  obtain r where r: "r \<in> set (jobs db)" "jid r = i" using assms(2) by auto
  have "distinct (map jid (jobs db))" by (rule db_inv_distinct [OF assms(1)])
  from filter_key_single [OF this r(1)] r(2) have "filter (\<lambda>r. jid r = i) (jobs db) = [r]" by simp
  with r db_inv_job [OF assms(1) r(1)] show thesis by (intro that [of r]) auto
qed

lemma count_rows:
  assumes "filter (\<lambda>r. jid r = i) rows = [r]"
  shows "length (filter (\<lambda>s. jid s = i \<and> P s) rows) = (if P r then 1 else 0)"
proof -
  have "filter (\<lambda>s. jid s = i \<and> P s) rows = filter P (filter (\<lambda>s. jid s = i) rows)" by (simp add: conj_commute)
  with assms show ?thesis by simp
qed

lemma success_in_trail:
  assumes "job_ok r as"
  shows "length (filter (\<lambda>a. at_outcome a = Some ''SUCCEEDED'') as) = (if status r = as_db_str Succeeded then 1 else 0)"
proof (cases "status r = as_db_str Succeeded")
  case True
  then have "as \<noteq> []" "at_outcome (last as) = Some (outcome_db_str AttemptSucceeded)"
    using assms by (simp_all add: job_ok_def trail_ok_def)
  then have "filter (\<lambda>a. at_outcome a = Some (outcome_db_str AttemptSucceeded)) as \<noteq> []"
    by (auto simp: filter_empty_conv intro: last_in_set)
  with trail_one_success [OF assms] have "length (filter (\<lambda>a. at_outcome a = Some (outcome_db_str AttemptSucceeded)) as) = 1"
    by (simp add: le_Suc_eq)
  with True show ?thesis by (simp add: outcome_db_str.simps)
next
  case False
  with job_ok_success_last [OF assms] have "\<forall>a \<in> set as. at_outcome a \<noteq> Some (outcome_db_str AttemptSucceeded)" by blast
  with False show ?thesis by (simp add: filter_empty_conv outcome_db_str.simps)
qed

subsection \<open>The counts of a run\<close>

definition rows_with :: "string \<Rightarrow> uuid list \<Rightarrow> 'v db \<Rightarrow> nat" where
  "rows_with st ids db = length (filter (\<lambda>r. jid r \<in> set ids \<and> status r = st) (jobs db))"

lemma count_with_status_rows: "db_up db \<Longrightarrow> count_with_status st ids db = rows_with st ids db"
  by (simp add: count_with_status_def count_or_zero_def query_def rows_with_def)

lemma rows_with_sum:
  "distinct ids \<Longrightarrow> rows_with st ids db = sum_list (map (\<lambda>i. length (filter (\<lambda>r. jid r = i \<and> status r = st) (jobs db))) ids)"
  unfolding rows_with_def by (rule length_filter_by_key)

lemma per_worker_total:
  assumes "db_inv db" "db_up db" "distinct ids" "set ids \<subseteq> jid ` set (jobs db)"
  shows "sum_list (map snd (per_worker_counts ids db)) = rows_with (as_db_str Succeeded) ids db"
proof (cases "ids = []")
  case True
  then show ?thesis by (simp add: per_worker_counts_def rows_with_def)
next
  case False
  have "sum_list (map snd (per_worker_counts ids db)) = length (succeeded_attempts ids db)"
    using False assms(2) sum_list_key_counts [of "map at_worker_id (succeeded_attempts ids db)"]
    by (simp add: per_worker_counts_def rows_or_none_def query_def Let_def o_def)
  also have "\<dots> = sum_list (map (\<lambda>i. length (filter (\<lambda>a. at_job_id a = i \<and> at_outcome a = Some ''SUCCEEDED'') (job_attempts db))) ids)"
    unfolding succeeded_attempts_def by (rule length_filter_by_key [OF assms(3)])
  also have "\<dots> = sum_list (map (\<lambda>i. length (filter (\<lambda>r. jid r = i \<and> status r = as_db_str Succeeded) (jobs db))) ids)"
  proof (rule arg_cong [where f = sum_list], rule map_cong [OF refl])
    fix i assume "i \<in> set ids"
    with assms(4) have "i \<in> jid ` set (jobs db)" by blast
    from assms(1) this obtain r where r: "filter (\<lambda>r. jid r = i) (jobs db) = [r]" "job_ok r (attempts_of i db)"
      by (rule tracked_row)
    have "filter (\<lambda>a. at_job_id a = i \<and> at_outcome a = Some ''SUCCEEDED'') (job_attempts db)
        = filter (\<lambda>a. at_outcome a = Some ''SUCCEEDED'') (attempts_of i db)"
      by (simp add: attempts_of_def conj_commute)
    with success_in_trail [OF r(2)] count_rows [OF r(1), of "\<lambda>r. status r = as_db_str Succeeded"]
    show "length (filter (\<lambda>a. at_job_id a = i \<and> at_outcome a = Some ''SUCCEEDED'') (job_attempts db))
        = length (filter (\<lambda>r. jid r = i \<and> status r = as_db_str Succeeded) (jobs db))" by simp
  qed
  also have "\<dots> = rows_with (as_db_str Succeeded) ids db" by (rule rows_with_sum [OF assms(3), symmetric])
  finally show ?thesis .
qed

lemma total_attempts_sum:
  assumes "db_inv db" "db_up db" "distinct ids" "set ids \<subseteq> jid ` set (jobs db)"
    and "\<And>r. r \<in> set (jobs db) \<Longrightarrow> jid r \<in> set ids \<Longrightarrow> attempts r \<le> int b"
  shows "total_attempts ids db \<le> b * length ids"
proof -
  have "length (filter (\<lambda>a. at_job_id a \<in> set ids \<and> True) (job_attempts db))
      = sum_list (map (\<lambda>i. length (filter (\<lambda>a. at_job_id a = i \<and> True) (job_attempts db))) ids)"
    by (rule length_filter_by_key [OF assms(3)])
  then have "length (filter (\<lambda>a. at_job_id a \<in> set ids) (job_attempts db)) = sum_list (map (\<lambda>i. length (attempts_of i db)) ids)"
    by (simp add: attempts_of_def)
  also have "\<dots> \<le> sum_list (map (\<lambda>i. b) ids)"
  proof (rule sum_list_mono)
    fix i assume i: "i \<in> set ids"
    with assms(4) have "i \<in> jid ` set (jobs db)" by blast
    from assms(1) this obtain r where r: "r \<in> set (jobs db)" "jid r = i" "job_ok r (attempts_of i db)"
      by (rule tracked_row)
    from job_ok_length [OF r(3)] assms(5) [OF r(1)] r(2) i show "length (attempts_of i db) \<le> b" by simp
  qed
  finally show ?thesis
    using assms(2) by (simp add: total_attempts_def count_or_zero_def query_def sum_list_triv mult.commute)
qed

lemma statuses_add_up:
  assumes "db_inv db" "distinct ids" "set ids \<subseteq> jid ` set (jobs db)"
  shows "rows_with (as_db_str Pending) ids db + rows_with (as_db_str Running) ids db
    + rows_with (as_db_str Succeeded) ids db + rows_with (as_db_str Dead) ids db = length ids"
proof -
  have one: "length (filter (\<lambda>r. jid r = i \<and> status r = as_db_str Pending) (jobs db))
      + length (filter (\<lambda>r. jid r = i \<and> status r = as_db_str Running) (jobs db))
      + length (filter (\<lambda>r. jid r = i \<and> status r = as_db_str Succeeded) (jobs db))
      + length (filter (\<lambda>r. jid r = i \<and> status r = as_db_str Dead) (jobs db)) = 1" if "i \<in> set ids" for i
  proof -
    from that assms(3) have "i \<in> jid ` set (jobs db)" by blast
    from assms(1) this obtain r where r: "filter (\<lambda>r. jid r = i) (jobs db) = [r]" "job_ok r (attempts_of i db)"
      by (rule tracked_row)
    note c = count_rows [OF r(1), of "\<lambda>r. status r = as_db_str s" for s]
    from r(2) show ?thesis by (rule job_ok_status_cases) (simp_all add: c)
  qed
  have "sum_list (map (\<lambda>i. length (filter (\<lambda>r. jid r = i \<and> status r = as_db_str Pending) (jobs db))
      + length (filter (\<lambda>r. jid r = i \<and> status r = as_db_str Running) (jobs db))
      + length (filter (\<lambda>r. jid r = i \<and> status r = as_db_str Succeeded) (jobs db))
      + length (filter (\<lambda>r. jid r = i \<and> status r = as_db_str Dead) (jobs db))) ids) = sum_list (map (\<lambda>i. 1) ids)"
    using one by (intro arg_cong [where f = sum_list] map_cong refl)
  then show ?thesis by (simp add: rows_with_sum [OF assms(2)] sum_list_addf sum_list_triv)
qed

subsection \<open>A scenario on the running system\<close>

lemma submit_all_steps:
  assumes "lib_api lib = ba_env ba" "submit_all ba scenario mx calls (sys_db s) = (outcomes, db')"
  shows "(sys_step lib)\<^sup>*\<^sup>* s (s\<lparr>sys_db := db'\<rparr>)"
  using assms(2)
proof (induction calls arbitrary: s outcomes)
  case (Cons ic calls)
  obtain i c where ic: "ic = (i, c)" by (cases ic)
  obtain o1 db1 where one: "bench_submit_job ba scenario mx i c (sys_db s) = (o1, db1)"
    by (cases "bench_submit_job ba scenario mx i c (sys_db s)")
  then obtain os where rest: "submit_all ba scenario mx calls db1 = (os, db')"
    using Cons.prems ic by (auto split: prod.splits)
  have "db1 = sys_db s \<or> (\<exists>r. submit_job (ba_env ba) (sm_now c) (sm_id c) (bench_body ba scenario i mx) (sys_db s) = (r, db1))"
    using one by (auto simp: bench_submit_job_def split: if_splits prod.splits sum.splits)
  then have "(sys_step lib)\<^sup>*\<^sup>* s (s\<lparr>sys_db := db1\<rparr>)"
  proof
    assume "\<exists>r. submit_job (ba_env ba) (sm_now c) (sm_id c) (bench_body ba scenario i mx) (sys_db s) = (r, db1)"
    then obtain r where "submit_job (lib_api lib) (sm_now c) (sm_id c) (bench_body ba scenario i mx) (sys_db s) = (r, db1)"
      using assms(1) by auto
    then have "sys_step lib s (s\<lparr>sys_db := db1\<rparr>)" by (rule sys_step.submit)
    then show ?thesis by blast
  qed simp
  moreover have "(sys_step lib)\<^sup>*\<^sup>* (s\<lparr>sys_db := db1\<rparr>) (s\<lparr>sys_db := db'\<rparr>)"
    using Cons.IH [of "s\<lparr>sys_db := db1\<rparr>"] rest by simp
  ultimately show ?case by (rule rtranclp_trans)
next
  case Nil
  then have "s\<lparr>sys_db := db'\<rparr> = s" by (cases s) simp
  then show ?case by simp
qed

lemma evolves_stays_present: "evolves\<^sup>*\<^sup>* a b \<Longrightarrow> a \<noteq> None \<Longrightarrow> b \<noteq> None"
  by (induction rule: rtranclp_induct) (auto dest: evolves_SomeD)

lemma jobs_persist:
  assumes "wire_ok lib" "(sys_step lib)\<^sup>*\<^sup>* s s'" "reachable lib s"
  shows "jid ` set (jobs (sys_db s)) \<subseteq> jid ` set (jobs (sys_db s'))"
proof
  fix i assume "i \<in> jid ` set (jobs (sys_db s))"
  then have "abs_db (sys_db s) i \<noteq> None" using find_job_None [of i "sys_db s"] by (simp add: abs_db_def)
  from evolves_stays_present [OF sys_steps_evolve [OF assms] this]
  show "i \<in> jid ` set (jobs (sys_db s'))" using find_job_None [of i "sys_db s'"] by (auto simp: abs_db_def)
qed

definition calls_ok :: "nat \<Rightarrow> (nat \<times> submit_call) list \<Rightarrow> 'v db \<Rightarrow> bool" where
  "calls_ok start calls db \<longleftrightarrow>
     (\<forall>(i, c) \<in> set calls. start + i < 10 ^ 20) \<and> distinct (map (sm_id \<circ> snd) calls)
     \<and> (sm_id \<circ> snd) ` set calls \<inter> jid ` set (jobs db) = {}"

definition answered_ids :: "(nat \<times> submit_call) list \<Rightarrow> uuid list" where
  "answered_ids calls = map (sm_id \<circ> snd) (filter (\<lambda>ic. sm_exchange (snd ic) = Answered) calls)"

lemma tracked_outcomes: "tracked (map outcome_of calls) = answered_ids calls"
  by (induction calls) (simp_all add: tracked_def answered_ids_def List.map_filter_simps outcome_of_def)

lemma submit_many_result:
  assumes "api_ok ba" "scenario_name scenario" "1 \<le> mx" "mx \<le> 20" "db_up db" "calls_ok start calls db"
  shows "submit_many ba scenario start mx calls db =
    (map outcome_of calls,
     db\<lparr>jobs := jobs db @ map (\<lambda>(i, c). bench_row ba scenario mx (start + i, c)) (filter arrived calls)\<rparr>)"
proof -
  let ?calls = "map (\<lambda>(i, c). (start + i, c)) calls"
  have key: "map (sm_id \<circ> snd) ?calls = map (sm_id \<circ> snd) calls" by (simp add: o_def case_prod_unfold)
  have "(sm_id \<circ> snd) ` set ?calls = (sm_id \<circ> snd) ` set calls" by (metis key list.set_map)
  then have "(sm_id \<circ> snd) ` set ?calls \<inter> jid ` set (jobs db) = {}" using assms(6) by (simp only: calls_ok_def)
  moreover have "distinct (map (sm_id \<circ> snd) ?calls)" using assms(6) unfolding key by (simp add: calls_ok_def)
  moreover have "\<forall>(i, c) \<in> set ?calls. i < 10 ^ 20" using assms(6) by (auto simp: calls_ok_def)
  ultimately have "submit_all ba scenario mx ?calls db =
      (map outcome_of ?calls, db\<lparr>jobs := jobs db @ map (bench_row ba scenario mx) (filter arrived ?calls)\<rparr>)"
    by (intro submit_all_result [OF assms(1-5)])
  moreover have "map outcome_of ?calls = map outcome_of calls" by (auto simp: outcome_of_def)
  moreover have "filter arrived ?calls = map (\<lambda>(i, c). (start + i, c)) (filter arrived calls)"
    by (induction calls) (auto simp: arrived_def)
  ultimately show ?thesis by (simp add: submit_many_def o_def case_prod_unfold)
qed

text \<open>
  A scenario that submits its jobs in a reachable state \<open>s0\<close> and measures in a state \<open>s\<close> that the services and workers bring about
  after that.
\<close>

definition driven ::
    "('v, 'h, 'r, 'w, 'g) system_lib \<Rightarrow> 'v bench_api \<Rightarrow> string \<Rightarrow> nat \<Rightarrow> int \<Rightarrow> (nat \<times> submit_call) list
     \<Rightarrow> ('v, 'r) system_state \<Rightarrow> ('v, 'r) system_state \<Rightarrow> bool" where
  "driven lib ba scenario start mx calls s0 s \<longleftrightarrow>
     reachable lib s0 \<and> db_up (sys_db s0) \<and> lib_api lib = ba_env ba \<and> api_ok ba
     \<and> scenario_name scenario \<and> 1 \<le> mx \<and> mx \<le> 20 \<and> calls_ok start calls (sys_db s0)
     \<and> (sys_step lib)\<^sup>*\<^sup>* (s0\<lparr>sys_db := snd (submit_many ba scenario start mx calls (sys_db s0))\<rparr>) s
     \<and> db_up (sys_db s)"

lemma driven_tables:
  assumes "wire_ok lib" "driven lib ba scenario start mx calls s0 s"
  shows "reachable lib s" "db_inv (sys_db s)" "charges_inv (sys_db s)" "db_up (sys_db s)"
    "fst (submit_many ba scenario start mx calls (sys_db s0)) = map outcome_of calls"
    "distinct (answered_ids calls)" "set (answered_ids calls) \<subseteq> jid ` set (jobs (sys_db s))"
proof -
  note d = assms(2) [unfolded driven_def]
  let ?db1 = "snd (submit_many ba scenario start mx calls (sys_db s0))" and ?s1 = "\<lambda>db. s0\<lparr>sys_db := db\<rparr>"
  have sub: "submit_many ba scenario start mx calls (sys_db s0) =
      (map outcome_of calls, (sys_db s0)\<lparr>jobs := jobs (sys_db s0)
         @ map (\<lambda>(i, c). bench_row ba scenario mx (start + i, c)) (filter arrived calls)\<rparr>)"
    using d by (intro submit_many_result) simp_all
  then show "fst (submit_many ba scenario start mx calls (sys_db s0)) = map outcome_of calls" by simp
  have steps: "(sys_step lib)\<^sup>*\<^sup>* s0 (?s1 ?db1)"
    using d by (intro submit_all_steps [of lib ba scenario mx "map (\<lambda>(i, c). (start + i, c)) calls" s0
          "fst (submit_many ba scenario start mx calls (sys_db s0))"]) (simp_all add: submit_many_def)
  have r1: "reachable lib (?s1 ?db1)" by (rule reachable_steps [OF steps]) (use d in simp)
  have run: "(sys_step lib)\<^sup>*\<^sup>* (?s1 ?db1) s" using d by simp
  show r: "reachable lib s" by (rule reachable_steps [OF run r1])
  show "db_inv (sys_db s)" "charges_inv (sys_db s)"
    using reachable_inv [OF assms(1) r] by (simp_all add: sys_inv_def data_inv_def)
  show "db_up (sys_db s)" using d by simp
  show "distinct (answered_ids calls)"
    using d by (simp add: calls_ok_def answered_ids_def distinct_map_filter)
  have "set (answered_ids calls) \<subseteq> jid ` set (jobs ?db1)"
  proof
    fix i assume "i \<in> set (answered_ids calls)"
    then obtain n c where "(n, c) \<in> set calls" "sm_exchange c = Answered" "i = sm_id c"
      by (auto simp: answered_ids_def)
    then obtain ic where ic: "ic \<in> set (filter arrived calls)" "sm_id (snd ic) = i"
      by (intro that [of "(n, c)"]) (simp_all add: arrived_def)
    let ?row = "\<lambda>(i, c). bench_row ba scenario mx (start + i, c)"
    have "jid (?row ic) = i" using ic(2) by (simp add: bench_row_def new_job_row_jid case_prod_unfold)
    moreover have "?row ic \<in> set (jobs ?db1)" using ic(1) by (simp add: sub)
    ultimately show "i \<in> jid ` set (jobs ?db1)" by blast
  qed
  also have "\<dots> \<subseteq> jid ` set (jobs (sys_db s))" using jobs_persist [OF assms(1) run r1] by simp
  finally show "set (answered_ids calls) \<subseteq> jid ` set (jobs (sys_db s))" .
qed

lemma drained_terminal:
  assumes "db_inv db" "queue_depth db = Inr 0" "r \<in> set (jobs db)"
  shows "status r \<in> {as_db_str Succeeded, as_db_str Dead}"
proof -
  have "filter (\<lambda>r. status r \<in> {''PENDING'', ''RUNNING''}) (jobs db) = []"
    using assms(2) by (auto simp: queue_depth_def query_def split: if_splits)
  with assms(3) have "status r \<notin> {''PENDING'', ''RUNNING''}" by (simp add: filter_empty_conv)
  then show ?thesis using job_ok_status_cases [OF db_inv_job [OF assms(1,3)]] by (cases rule: job_ok_status_cases [OF db_inv_job [OF assms(1,3)]]) (simp_all add: as_db_str.simps)
qed

subsection \<open>Two submissions into empty tables\<close>

lemma submitted_jids:
  "map jid (map (\<lambda>(i, c). bench_row ba scenario mx (start + i, c)) calls) = map (sm_id \<circ> snd) calls"
  by (simp add: o_def bench_row_def new_job_row_jid case_prod_unfold)

lemma submitted_ids_subset:
  "jid ` set (map (\<lambda>(i, c). bench_row ba scenario mx (start + i, c)) (filter P calls)) \<subseteq> (sm_id \<circ> snd) ` set calls"
proof -
  have "jid ` set (map (\<lambda>(i, c). bench_row ba scenario mx (start + i, c)) (filter P calls)) = (sm_id \<circ> snd) ` set (filter P calls)"
    by (metis submitted_jids list.set_map)
  then show ?thesis by (simp add: image_mono filter_is_subset)
qed

lemma subset_disjoint: "B \<subseteq> A \<Longrightarrow> A \<inter> K = {} \<Longrightarrow> K \<inter> B = {}"
  by auto

lemma submit_twice:
  assumes "api_ok ba" "db_up db" "jobs db = []" "calls_ok m warm empty_db" "calls_ok n calls empty_db"
    and "(sm_id \<circ> snd) ` set warm \<inter> (sm_id \<circ> snd) ` set calls = {}"
    and "scenario_name a" "scenario_name b" "1 \<le> mx" "mx \<le> 20"
  shows "submit_many ba b n mx calls (snd (submit_many ba a m mx warm db)) =
    (map outcome_of calls, db\<lparr>jobs := map (\<lambda>(i, c). bench_row ba a mx (m + i, c)) (filter arrived warm)
       @ map (\<lambda>(i, c). bench_row ba b mx (n + i, c)) (filter arrived calls)\<rparr>)"
proof -
  let ?rows = "map (\<lambda>(i, c). bench_row ba a mx (m + i, c)) (filter arrived warm)"
  have "calls_ok m warm db" using assms(3,4) by (simp add: calls_ok_def)
  from submit_many_result [OF assms(1,7,9,10,2) this]
  have "snd (submit_many ba a m mx warm db) = db\<lparr>jobs := ?rows\<rparr>" using assms(3) by simp
  moreover have "(sm_id \<circ> snd) ` set calls \<inter> jid ` set ?rows = {}"
    by (rule subset_disjoint [OF submitted_ids_subset assms(6)])
  then have "calls_ok n calls (db\<lparr>jobs := ?rows\<rparr>)" using assms(5) by (simp add: calls_ok_def)
  from submit_many_result [OF assms(1,8,9,10) _ this] assms(2)
  have "submit_many ba b n mx calls (db\<lparr>jobs := ?rows\<rparr>) =
    (map outcome_of calls, db\<lparr>jobs := ?rows @ map (\<lambda>(i, c). bench_row ba b mx (n + i, c)) (filter arrived calls)\<rparr>)" by simp
  ultimately show ?thesis by simp
qed

text \<open>Tables of nothing but new jobs.\<close>

definition new_jobs :: "int \<Rightarrow> 'v job_row list \<Rightarrow> bool" where
  "new_jobs mx rows \<longleftrightarrow> list_all (\<lambda>r. status r = as_db_str Pending \<and> attempts r = 0 \<and> max_attempts r = mx \<and> job_ok r []) rows"

lemma bench_rows_new: "1 \<le> mx \<Longrightarrow> mx \<le> 20 \<Longrightarrow> new_jobs mx (map (\<lambda>(i, c). bench_row ba scenario mx (start + i, c)) calls)"
proof -
  assume mx: "1 \<le> mx" "mx \<le> 20"
  have "status r = as_db_str Pending \<and> attempts r = 0 \<and> max_attempts r = mx \<and> job_ok r []"
    if "r = new_job_row t i k v mx" for r :: "'a job_row" and t i k v
    using new_job_checks [OF mx(1), of t i k v] mx that
    by (simp add: job_ok_def trail_ok_def i32_def) (simp add: new_job_row_def)
  note new = this
  show ?thesis
    unfolding new_jobs_def list_all_iff
  proof
    fix r assume "r \<in> set (map (\<lambda>(i, c). bench_row ba scenario mx (start + i, c)) calls)"
    then obtain i c where "r = bench_row ba scenario mx (start + i, c)" by auto
    then show "status r = as_db_str Pending \<and> attempts r = 0 \<and> max_attempts r = mx \<and> job_ok r []"
      unfolding bench_row_def prod.case by (rule new)
  qed
qed

lemma new_jobs_inv:
  assumes "new_jobs mx rows" "distinct (map jid rows)"
  shows "db_inv (db\<lparr>jobs := rows, job_attempts := [], charges := []\<rparr>)" "charges_inv (db\<lparr>jobs := rows, job_attempts := [], charges := []\<rparr>)"
  using assms by (simp_all add: db_inv_def charges_inv_def attempts_of_def new_jobs_def list_all_iff)

subsection \<open>What a finished run has measured\<close>

lemma measure_live_Inr:
  assumes "measure_live bl outcomes capacity peak drained elapsed db = Inr m"
  shows "md_ids m = tracked outcomes" "md_drained m = drained"
    "run_gate (bl_show_uuid bl) (bl_show_f0 bl)
       \<lparr>gi_tracked_ids = tracked outcomes, gi_expect_all_terminal = drained, gi_worker_capacity = capacity,
        gi_observed_peak_inflight = peak, gi_latency_samples_ms = md_latencies m,
        gi_measurement_window_secs = elapsed\<rparr> db = Inr (md_gate m)"
  using assms by (auto simp: measure_live_def Let_def res_simps md_ids_def)

end
