(* ===== verification/BenchServices.thy ===== *)
theory BenchServices
  imports BenchLive
begin

section \<open>The services of a live scenario: scenarios/mod.rs and the set-up of each scenario\<close>

text \<open>
  How the scenarios of \<open>BenchLive\<close> set up what they measure: the addresses of \<open>ScenarioCtx\<close>
  (\<open>src/crates/reliableq-bench/src/scenarios/mod.rs\<close>), the services every scenario starts, the workers each of them starts, the failure
  injection it asks for, and how a process is stopped (\<open>procs.rs\<close>). What the operating system does with a process is of the
  parameter \<open>harness\<close>. Ports are \<open>u16\<close> and wrap as in a release build. The lemmas at the end follow which processes may run.
\<close>

subsection \<open>ScenarioCtx\<close>

record scenario_ctx =
  sx_database_url :: string
  sx_binary_dir :: string
  sx_api_bind :: string
  sx_fake_charge_bind :: string
  sx_worker_metrics_base_port :: nat

definition context_of :: "bench_config \<Rightarrow> scenario_ctx" where
  "context_of c =
     \<lparr>sx_database_url = ec_database_url (bc_environment c), sx_binary_dir = ec_binary_dir (bc_environment c),
      sx_api_bind = ec_api_bind (bc_environment c), sx_fake_charge_bind = ec_fake_charge_bind (bc_environment c),
      sx_worker_metrics_base_port = ec_worker_metrics_bind_base_port (bc_environment c)\<rparr>"

definition api_base :: "scenario_ctx \<Rightarrow> string" where
  "api_base ctx = ''http://'' @ sx_api_bind ctx"

definition fake_charge_base :: "scenario_ctx \<Rightarrow> string" where
  "fake_charge_base ctx = ''http://'' @ sx_fake_charge_bind ctx"

definition worker_metrics_addr :: "scenario_ctx \<Rightarrow> nat \<Rightarrow> string" where
  "worker_metrics_addr ctx index =
     ''127.0.0.1:'' @ show_nat ((sx_worker_metrics_base_port ctx + index mod 2 ^ 16) mod 2 ^ 16)"

subsection \<open>Starting\<close>

definition start_services ::
    "('p, 'w) harness \<Rightarrow> env \<Rightarrow> scenario_ctx \<Rightarrow> 'r
     \<Rightarrow> (('p, 'w, 'r, 'v, 'j) session, 'p managed_process \<times> 'p managed_process) step" where
  "start_services ha parent ctx entropy =
     then_do (spawn_fake_charge ha parent (sx_binary_dir ctx) (sx_database_url ctx) (sx_fake_charge_bind ctx) entropy) (\<lambda>charge.
     then_do (spawn_api ha parent (sx_binary_dir ctx) (sx_database_url ctx) (sx_api_bind ctx)) (\<lambda>api.
     ret (charge, api)))"

definition live_spec :: "scenario_ctx \<Rightarrow> nat \<Rightarrow> nat \<Rightarrow> nat \<Rightarrow> nat option \<Rightarrow> worker_spec" where
  "live_spec ctx conc lease index base =
     \<lparr>ws_binary_dir = sx_binary_dir ctx, ws_database_url = sx_database_url ctx,
      ws_charge_service_url = fake_charge_base ctx, ws_concurrency = conc, ws_lease_duration_secs = lease,
      ws_poll_interval_ms = 100, ws_metrics_bind_addr = worker_metrics_addr ctx index, ws_retry_base_delay_ms = base\<rparr>"

definition execution_spec :: "scenario_ctx \<Rightarrow> nat \<Rightarrow> worker_spec" where
  "execution_spec ctx conc = live_spec ctx conc execution_lease_secs 0 None"

definition scaling_spec :: "scenario_ctx \<Rightarrow> nat \<Rightarrow> nat \<Rightarrow> worker_spec" where
  "scaling_spec ctx per_worker index = live_spec ctx per_worker scaling_lease_secs index None"

definition retry_spec :: "scenario_ctx \<Rightarrow> nat \<Rightarrow> worker_spec" where
  "retry_spec ctx conc = live_spec ctx conc retry_lease_secs 0 (Some 200)"

definition backlog_spec :: "scenario_ctx \<Rightarrow> nat \<Rightarrow> worker_spec" where
  "backlog_spec ctx conc = live_spec ctx conc backlog_lease_secs 0 None"

text \<open>The worker that is killed has index 0, the one that recovers its jobs index 1.\<close>

definition kill_spec :: "scenario_ctx \<Rightarrow> nat \<Rightarrow> nat \<Rightarrow> worker_spec" where
  "kill_spec ctx job_count index = live_spec ctx (max job_count 1 mod 2 ^ 32) kill_lease_secs index None"

text \<open>The workers of a scaling run, in order.\<close>

definition start_workers ::
    "('p, 'w) harness \<Rightarrow> env \<Rightarrow> scenario_ctx \<Rightarrow> nat \<Rightarrow> nat \<Rightarrow> (('p, 'w, 'r, 'v, 'j) session, 'p managed_process list) step" where
  "start_workers ha parent ctx per_worker worker_count =
     each (\<lambda>index. spawn_worker ha parent (scaling_spec ctx per_worker index)) [0..<worker_count]"

subsection \<open>Failure injection\<close>

definition retry_setup ::
    "('h, 'v, 'r) charge_env \<Rightarrow> (nat \<Rightarrow> 'r) \<Rightarrow> bool \<Rightarrow> delivery \<Rightarrow> rat \<Rightarrow> nat \<Rightarrow> (('p, 'w, 'r, 'v, 'j) session, unit) step" where
  "retry_setup env seed silent d rate run_number =
     chaos_step silent (\<lambda>mounted.
       if 0 < rate then set_fail_rate env seed mounted d rate 503 (retry_seed + run_number) else set_normal env seed mounted d)"

definition kill_setup ::
    "('h, 'v, 'r) charge_env \<Rightarrow> (nat \<Rightarrow> 'r) \<Rightarrow> bool \<Rightarrow> delivery \<Rightarrow> (('p, 'w, 'r, 'v, 'j) session, unit) step" where
  "kill_setup env seed silent d = chaos_step silent (\<lambda>mounted. set_delay_ms env seed mounted d kill_delay_ms)"

subsection \<open>Stopping\<close>

definition teardown_grace :: duration where
  "teardown_grace = from_secs 5"

definition kill_now :: "('p, 'w) harness \<Rightarrow> 'p managed_process \<Rightarrow> 'w \<Rightarrow> 'w" where
  "kill_now ha p w = ha_reap ha (mp_child p) (ha_kill ha (mp_child p) w)"

definition graceful_stop :: "('p, 'w) harness \<Rightarrow> duration \<Rightarrow> 'p managed_process \<Rightarrow> 'w \<Rightarrow> 'w" where
  "graceful_stop ha grace p w =
     (let w1 = (case mp_pid ha p w of Some pid \<Rightarrow> ha_term ha pid w | None \<Rightarrow> w)
      in case ha_wait ha grace (mp_child p) w1 of
           (True, w2) \<Rightarrow> w2
         | (False, w2) \<Rightarrow> kill_now ha p w2)"

text \<open>The end of a scenario: its workers, then the API, then the charge service.\<close>

definition stop_all :: "('p, 'w) harness \<Rightarrow> 'p managed_process list \<Rightarrow> (('p, 'w, 'r, 'v, 'j) session, unit) step" where
  "stop_all ha ps = alter (\<lambda>s. s\<lparr>se_os := fold (graceful_stop ha teardown_grace) ps (se_os s)\<rparr>)"

subsection \<open>What the set-up gives\<close>

text \<open>The workers of a run serve their metrics at different addresses, as long as the ports do not run out.\<close>

lemma worker_metrics_addr_inj:
  assumes "sx_worker_metrics_base_port ctx + i < 2 ^ 16" "sx_worker_metrics_base_port ctx + j < 2 ^ 16"
    and "worker_metrics_addr ctx i = worker_metrics_addr ctx j"
  shows "i = j"
  using assms show_nat_inj [of "sx_worker_metrics_base_port ctx + i" "sx_worker_metrics_base_port ctx + j"]
  by (simp add: worker_metrics_addr_def)

lemma retry_setup_control:
  "retry_setup env seed silent d rate n = chaos_step silent (\<lambda>mounted. chaos_control env seed mounted d (retry_control rate n))"
  by (simp add: retry_setup_def retry_control_def set_fail_rate_def set_normal_def fun_eq_iff)

text \<open>The failure rate of a retry run is in force once its control is answered.\<close>

lemma retry_setup_mode:
  assumes "mode (se_chaos s) = NormalMode" "se_control s" "0 \<le> rate" "rate \<le> 1"
  shows "\<exists>s'. retry_setup env seed False Delivered rate n s = Some (Inr (), s')
    \<and> mode (se_chaos s') = (if 0 < rate then FailRate rate 503 else NormalMode)"
  using assms
  by (simp add: retry_setup_def chaos_step_def awaiting_def set_fail_rate_def set_normal_def chaos_control_def chaos_call_def set_control_def
      check_reply_def ensure_def is_success_def reply_of_def)

subsection \<open>Which processes run\<close>

text \<open>
  What the operating system is relied on for: only a spawn brings a process up, and only the child it returns; a child that was
  waited for is not running, a killed child ends when it is waited for, and dropping a handle kills its child.
\<close>

definition os_ok :: "('p, 'w) harness \<Rightarrow> ('p \<Rightarrow> 'w \<Rightarrow> bool) \<Rightarrow> bool" where
  "os_ok ha alive \<longleftrightarrow>
     (\<forall>b e w r w'. ha_spawn ha b e w = (r, w') \<longrightarrow> (\<forall>p. alive p w' \<longrightarrow> alive p w \<or> r = Inr p))
     \<and> (\<forall>d p w w'. ha_wait ha d p w = (True, w') \<longrightarrow> \<not> alive p w')
     \<and> (\<forall>p w. \<not> alive p (ha_reap ha p (ha_kill ha p w)) \<and> \<not> alive p (ha_drop ha p w))
     \<and> (\<forall>p w. (\<forall>pid. alive p (ha_term ha pid w) \<longrightarrow> alive p w)
          \<and> (\<forall>d q. alive p (snd (ha_wait ha d q w)) \<longrightarrow> alive p w)
          \<and> (\<forall>q. alive p (ha_reap ha q (ha_kill ha q w)) \<longrightarrow> alive p w)
          \<and> (\<forall>q. alive p (ha_drop ha q w) \<longrightarrow> alive p w))"

lemma os_okD:
  assumes "os_ok ha alive"
  shows "ha_spawn ha b e w = (r, w') \<Longrightarrow> alive p w' \<Longrightarrow> alive p w \<or> r = Inr p"
    "ha_wait ha d p w = (True, w') \<Longrightarrow> \<not> alive p w'"
    "\<not> alive p (ha_reap ha p (ha_kill ha p w))" "\<not> alive p (ha_drop ha p w)"
    "alive p (ha_term ha pid w) \<Longrightarrow> alive p w"
    "ha_wait ha d q w = (b', w') \<Longrightarrow> alive p w' \<Longrightarrow> alive p w"
    "alive p (ha_reap ha q (ha_kill ha q w)) \<Longrightarrow> alive p w" "alive p (ha_drop ha q w) \<Longrightarrow> alive p w"
proof -
  note ok = assms [unfolded os_ok_def]
  show "ha_spawn ha b e w = (r, w') \<Longrightarrow> alive p w' \<Longrightarrow> alive p w \<or> r = Inr p" using ok by blast
  show "ha_wait ha d p w = (True, w') \<Longrightarrow> \<not> alive p w'" using ok by blast
  show "\<not> alive p (ha_reap ha p (ha_kill ha p w))" "\<not> alive p (ha_drop ha p w)" using ok by blast+
  show "alive p (ha_term ha pid w) \<Longrightarrow> alive p w" using ok by blast
  show "alive p w" if "ha_wait ha d q w = (b', w')" "alive p w'"
  proof -
    have "alive p (snd (ha_wait ha d q w))" using that by simp
    then show ?thesis using ok by blast
  qed
  show "alive p (ha_reap ha q (ha_kill ha q w)) \<Longrightarrow> alive p w" "alive p (ha_drop ha q w) \<Longrightarrow> alive p w" using ok by blast+
qed

lemma graceful_stop_cases:
  obtains w1 ended w2 where "w1 = w \<or> (\<exists>pid. w1 = ha_term ha pid w)" "ha_wait ha grace (mp_child p) w1 = (ended, w2)"
    "graceful_stop ha grace p w = (if ended then w2 else kill_now ha p w2)"
proof -
  define w1 where "w1 = (case mp_pid ha p w of Some pid \<Rightarrow> ha_term ha pid w | None \<Rightarrow> w)"
  obtain ended w2 where w2: "ha_wait ha grace (mp_child p) w1 = (ended, w2)" by (cases "ha_wait ha grace (mp_child p) w1")
  have "w1 = w \<or> (\<exists>pid. w1 = ha_term ha pid w)" by (simp add: w1_def split: option.split) blast
  from that [OF this w2] w2 show thesis
    by (cases ended) (simp_all add: graceful_stop_def Let_def w1_def [symmetric])
qed

lemma graceful_stop_stops:
  assumes "os_ok ha alive"
  shows "\<not> alive (mp_child p) (graceful_stop ha grace p w)"
  by (rule graceful_stop_cases [of w ha grace p])
    (use os_okD(2,3) [OF assms] in \<open>auto simp: kill_now_def split: if_splits\<close>)

lemma graceful_stop_starts_none:
  assumes "os_ok ha alive" "alive q (graceful_stop ha grace p w)"
  shows "alive q w"
proof (rule graceful_stop_cases [of w ha grace p])
  fix w1 ended w2
  assume w: "w1 = w \<or> (\<exists>pid. w1 = ha_term ha pid w)" "ha_wait ha grace (mp_child p) w1 = (ended, w2)"
    "graceful_stop ha grace p w = (if ended then w2 else kill_now ha p w2)"
  have "alive q w2" using assms w(3) os_okD(7) [OF assms(1)] by (cases ended) (auto simp: kill_now_def)
  then have "alive q w1" by (rule os_okD(6) [OF assms(1) w(2)])
  then show "alive q w" using w(1) os_okD(5) [OF assms(1)] by auto
qed

lemma graceful_stops:
  assumes "os_ok ha alive" "alive q (fold (graceful_stop ha grace) ps w)"
  shows "alive q w \<and> q \<notin> mp_child ` set ps"
  using assms(2)
proof (induction ps arbitrary: w)
  case (Cons p ps)
  then have "alive q (graceful_stop ha grace p w)" "q \<notin> mp_child ` set ps" by auto
  with graceful_stop_stops [OF assms(1)] graceful_stop_starts_none [OF assms(1)] show ?case by auto
qed simp

lemma drops:
  assumes "os_ok ha alive" "alive q (fold (ha_drop ha) cs w)"
  shows "alive q w \<and> q \<notin> set cs"
  using assms(2)
proof (induction cs arbitrary: w)
  case (Cons c cs)
  then have "alive q (ha_drop ha c w)" "q \<notin> set cs" by auto
  with os_okD(4,8) [OF assms(1)] show ?case by auto
qed simp

text \<open>
  \<open>only\<close>: of the processes not of the outside (\<open>base\<close>) at most those of the list run, and their handles are held. \<open>all_held\<close>: at
  most those whose handle is held.
\<close>

definition all_held :: "('p \<Rightarrow> 'w \<Rightarrow> bool) \<Rightarrow> 'p set \<Rightarrow> ('p, 'w, 'r, 'v, 'j) session \<Rightarrow> bool" where
  "all_held alive base s \<longleftrightarrow> (\<forall>p. alive p (se_os s) \<longrightarrow> p \<in> base \<or> p \<in> set (se_held s))"

definition only :: "('p \<Rightarrow> 'w \<Rightarrow> bool) \<Rightarrow> 'p set \<Rightarrow> 'p managed_process list \<Rightarrow> ('p, 'w, 'r, 'v, 'j) session \<Rightarrow> bool" where
  "only alive base ps s \<longleftrightarrow>
     mp_child ` set ps \<subseteq> set (se_held s) \<and> (\<forall>p. alive p (se_os s) \<longrightarrow> p \<in> base \<or> p \<in> mp_child ` set ps)"

lemma only_held: "only alive base ps s \<Longrightarrow> all_held alive base s"
  unfolding only_def all_held_def by blast

lemma spawned:
  assumes "os_ok ha alive" "ha_spawn ha b e w = (r, w')" "\<forall>p. alive p w \<longrightarrow> p \<in> base \<or> p \<in> ps"
  shows "\<forall>p. alive p w' \<longrightarrow> p \<in> base \<or> p \<in> ps \<or> r = Inr p"
  using os_okD(1) [OF assms(1,2)] assms(3) by blast

lemma spawn_child_only:
  assumes "os_ok ha alive"
  shows "hoare (only alive base ps) (spawn_child ha binary parent vars name lbl target)
    (\<lambda>p. only alive base (p # ps)) (all_held alive base)"
proof (rule hoareI)
  fix s :: "('a, 'b, 'c, 'd, 'e) session" and x s'
  assume s: "only alive base ps s" and m: "spawn_child ha binary parent vars name lbl target s = Some (Inr x, s')"
  then obtain child w t where sp: "ha_spawn ha binary (with_vars parent vars) (se_os s) = (Inr child, w)"
    and "mp_child x = child" "s' = s\<lparr>se_os := w, se_held := child # se_held s, se_now := t\<rparr>"
    by (auto simp: spawn_child_def Let_def split: prod.splits sum.splits option.splits)
  with s spawned [OF assms sp, of base "mp_child ` set ps"] show "only alive base (x # ps) s'" by (auto simp: only_def)
next
  fix s s' :: "('a, 'b, 'c, 'd, 'e) session" and e
  assume s: "only alive base ps s" and m: "spawn_child ha binary parent vars name lbl target s = Some (Inl e, s')"
  then obtain r w where sp: "ha_spawn ha binary (with_vars parent vars) (se_os s) = (r, w)"
    and s': "se_os s' = w" "se_held s' = (case r of Inl e \<Rightarrow> se_held s | Inr child \<Rightarrow> child # se_held s)"
    by (auto simp: spawn_child_def Let_def split: prod.splits sum.splits option.splits)
  from s have held: "mp_child ` set ps \<subseteq> set (se_held s)" by (simp add: only_def)
  have "\<forall>p. alive p w \<longrightarrow> p \<in> base \<or> p \<in> mp_child ` set ps \<or> r = Inr p"
    using s spawned [OF assms sp, of base "mp_child ` set ps"] by (simp add: only_def)
  moreover have "p \<in> set (se_held s')" if "p \<in> mp_child ` set ps \<or> r = Inr p" for p
    using that held s'(2) by (cases r) (auto dest: subsetD)
  ultimately show "all_held alive base s'" unfolding all_held_def s'(1) by blast
qed

end
