(* ===== verification/BenchPoints.thy ===== *)
theory BenchPoints
  imports BenchServices BenchDrivers
begin

section \<open>The runs of the benchmark: reliableq-bench, scenarios\<close>

text \<open>
  Every run of every scenario (\<open>src/crates/reliableq-bench/src/scenarios\<close>) as a step on the state of \<open>BenchSession\<close>, in the order of
  the code: the tables are emptied, the services started, failures injected, jobs submitted, workers started, the queue watched until it
  is drained, the measurements taken, the gate run, the record written and the processes stopped. What comes from outside is the
  \<open>script\<close> of a run: which of its requests are never answered (\<open>sp_silent\<close>), how the network treats the calls of the control surface
  otherwise, the order and the times of the submissions, what the workers make of the tables (\<open>sp_world\<close>), what the host measures, and whether the file of the record can be written.
\<close>

text \<open>What the harness sees while processes it started work on: the polls, and at the end of it the tables, the failure injection and the time.\<close>

record ('v, 'r) live =
  lv_drain :: "(duration \<times> 'v db) list"
  lv_final :: "'v db"
  lv_chaos :: "'r chaos_state"
  lv_took :: duration

type_synonym ('v, 'r) world = "'r chaos_state \<Rightarrow> 'v db \<Rightarrow> ('v, 'r) live"

text \<open>The places where a run sends requests over a client without a timeout; \<open>LoopCharges\<close> are the charges of its own loop.\<close>

datatype request_site =
    WarmupJobs
  | MeasuredJobs
  | FirstControl
  | SecondControl
  | InflightReset
  | PeakInflight
  | LoopCharges

record ('v, 'r, 'g) script =
  sp_entropy :: 'r
  sp_silent :: "request_site \<Rightarrow> bool"
  sp_control :: delivery
  sp_control_again :: delivery
  sp_reset :: delivery
  sp_peak :: delivery
  sp_warm_calls :: "nat \<Rightarrow> (nat \<times> submit_call) list"
  sp_warm_took :: duration
  sp_warm_world :: "('v, 'r) world"
  sp_calls :: "nat \<Rightarrow> (nat \<times> submit_call) list"
  sp_took :: duration
  sp_world :: "('v, 'r) world"
  sp_kill_world :: "('v, 'r) world"
  sp_size_before :: "string \<Rightarrow> string + int"
  sp_size_after :: "string \<Rightarrow> string + int"
  sp_lsn_before :: "string + string"
  sp_lsn_now :: "string + string"
  sp_lsn_diff :: "string \<Rightarrow> string \<Rightarrow> string + int"
  sp_samples :: "string \<Rightarrow> host list"
  sp_host :: host
  sp_seeds :: "nat \<Rightarrow> (timestamp \<times> uuid) list"
  sp_schedule :: schedule
  sp_rounds :: nat
  sp_round_took :: "nat \<Rightarrow> duration"
  sp_rng :: 'g
  sp_claim_ms :: "nat \<Rightarrow> rat"
  sp_requests :: "nat \<Rightarrow> point_calls"
  sp_now :: timestamp
  sp_write :: "string + unit"

text \<open>What all runs of a command share.\<close>

record ('p, 'w, 'h, 'v, 'r, 'g, 'j) bench =
  be_harness :: "('p, 'w) harness"
  be_parent :: env
  be_ctx :: scenario_ctx
  be_lib :: "('v, 'j) bench_lib"
  be_client :: "('h, 'v, 'r) bench_client"
  be_seed :: "nat \<Rightarrow> 'r"
  be_worker :: "('v, 'v db \<times> 'r chaos_state, 'g) worker_env"
  be_encode :: "charge_payload \<Rightarrow> 'v"
  be_show_time :: "timestamp \<Rightarrow> string"

subsection \<open>The steps the runs share\<close>

definition db_step :: "('v db \<Rightarrow> repo_error + 'a \<times> 'v db) \<Rightarrow> (('p, 'w, 'r, 'v, 'j) session, 'a) step" where
  "db_step f = (\<lambda>s.
     case f (se_db s) of
       Inl e \<Rightarrow> Some (Inl (DbError e), s)
     | Inr (x, db) \<Rightarrow> Some (Inr x, s\<lparr>se_db := db\<rparr>))"

definition db_read :: "('v db \<Rightarrow> repo_error + 'a) \<Rightarrow> (('p, 'w, 'r, 'v, 'j) session, 'a) step" where
  "db_read f = then_do (look se_db) (\<lambda>db. or_error (f db))"

definition pass_time :: "duration \<Rightarrow> (('p, 'w, 'r, 'v, 'j) session, unit) step" where
  "pass_time d = alter (\<lambda>s. s\<lparr>se_now := se_now s + d\<rparr>)"

definition seconds_since :: "nat \<Rightarrow> (('p, 'w, 'r, 'v, 'j) session, rat) step" where
  "seconds_since start = look (\<lambda>s. as_secs_f64 (se_now s - start))"

definition submit_step ::
    "('v, 'j) bench_lib \<Rightarrow> bool \<Rightarrow> string \<Rightarrow> nat \<Rightarrow> int \<Rightarrow> (nat \<times> submit_call) list \<Rightarrow> duration
     \<Rightarrow> (('p, 'w, 'r, 'v, 'j) session, submit_outcome list) step" where
  "submit_step bl silent scenario start mx calls took =
     then_do (awaiting silent (look (\<lambda>s. submit_many (bl_api bl) scenario start mx calls (se_db s)))) (\<lambda>(outcomes, db).
     then_do (alter (\<lambda>s. s\<lparr>se_db := db\<rparr>)) (\<lambda>_.
     then_do (pass_time took) (\<lambda>_.
     ret outcomes)))"

text \<open>Watching the queue: the polls are looked at with the tables as they are at the end of them.\<close>

definition watch :: "('v, 'r) world \<Rightarrow> (('p, 'w, 'r, 'v, 'j) session, (duration \<times> 'v db) list) step" where
  "watch world =
     then_do (look (\<lambda>s. world (se_chaos s) (se_db s))) (\<lambda>l.
     then_do (alter (\<lambda>s. s\<lparr>se_db := lv_final l, se_chaos := lv_chaos l, se_now := se_now s + lv_took l\<rparr>)) (\<lambda>_.
     ret (lv_drain l)))"

definition drain :: "duration \<Rightarrow> ('v, 'r) world \<Rightarrow> (('p, 'w, 'r, 'v, 'j) session, bool) step" where
  "drain deadline world = then_do (watch world) (\<lambda>polls. polled (wait_for_drain deadline polls))"

text \<open>\<open>ScenarioCtx::write\<close>: the file of the record, and the record.\<close>

definition write_run :: "('j report_lib) \<Rightarrow> (timestamp \<Rightarrow> string) \<Rightarrow> string + unit \<Rightarrow> 'j run_result
     \<Rightarrow> (('p, 'w, 'r, 'v, 'j) session, string list) step" where
  "write_run lib show_time outcome run = (\<lambda>s.
     case outcome of
       Inl e \<Rightarrow> Some (Inl (Failed e), s)
     | Inr _ \<Rightarrow> Some (Inr (run_file lib show_time run), s\<lparr>se_written := se_written s @ [run]\<rparr>))"

text \<open>The same with the constants of a command.\<close>

definition reset_tables :: "(('p, 'w, 'r, 'v, 'j) session, unit) step" where
  "reset_tables = db_step reset_database"

definition services ::
    "('p, 'w, 'h, 'v, 'r, 'g, 'j) bench \<Rightarrow> ('v, 'r, 'g) script
     \<Rightarrow> (('p, 'w, 'r, 'v, 'j) session, 'p managed_process \<times> 'p managed_process) step" where
  "services be sc = start_services (be_harness be) (be_parent be) (be_ctx be) (sp_entropy sc)"

definition charge_service ::
    "('p, 'w, 'h, 'v, 'r, 'g, 'j) bench \<Rightarrow> ('v, 'r, 'g) script \<Rightarrow> (('p, 'w, 'r, 'v, 'j) session, 'p managed_process) step" where
  "charge_service be sc =
     spawn_fake_charge (be_harness be) (be_parent be) (sx_binary_dir (be_ctx be)) (sx_database_url (be_ctx be))
       (sx_fake_charge_bind (be_ctx be)) (sp_entropy sc)"

definition worker ::
    "('p, 'w, 'h, 'v, 'r, 'g, 'j) bench \<Rightarrow> worker_spec \<Rightarrow> (('p, 'w, 'r, 'v, 'j) session, 'p managed_process) step" where
  "worker be spec = spawn_worker (be_harness be) (be_parent be) spec"

definition delay_control ::
    "('p, 'w, 'h, 'v, 'r, 'g, 'j) bench \<Rightarrow> bool \<Rightarrow> delivery \<Rightarrow> nat \<Rightarrow> (('p, 'w, 'r, 'v, 'j) session, unit) step" where
  "delay_control be silent d ms = chaos_step silent (\<lambda>mounted. set_delay_ms (bk_service (be_client be)) (be_seed be) mounted d ms)"

definition inflight_reset ::
    "('p, 'w, 'h, 'v, 'r, 'g, 'j) bench \<Rightarrow> ('v, 'r, 'g) script \<Rightarrow> (('p, 'w, 'r, 'v, 'j) session, unit) step" where
  "inflight_reset be sc = chaos_step (sp_silent sc InflightReset) (\<lambda>mounted. reset_inflight (bk_service (be_client be)) (be_seed be) mounted (sp_reset sc))"

definition observed_peak ::
    "('p, 'w, 'h, 'v, 'r, 'g, 'j) bench \<Rightarrow> ('v, 'r, 'g) script \<Rightarrow> (('p, 'w, 'r, 'v, 'j) session, nat option) step" where
  "observed_peak be sc =
     ok_of (chaos_step (sp_silent sc PeakInflight) (\<lambda>mounted. peak_inflight_of (bk_service (be_client be)) (be_seed be) mounted (sp_peak sc)))"

definition record_run ::
    "('p, 'w, 'h, 'v, 'r, 'g, 'j) bench \<Rightarrow> ('v, 'r, 'g) script \<Rightarrow> 'j run_result
     \<Rightarrow> (('p, 'w, 'r, 'v, 'j) session, string list) step" where
  "record_run be sc run = write_run (bl_lib (be_lib be)) (be_show_time be) (sp_write sc) run"

definition stop ::
    "('p, 'w, 'h, 'v, 'r, 'g, 'j) bench \<Rightarrow> 'p managed_process list \<Rightarrow> (('p, 'w, 'r, 'v, 'j) session, unit) step" where
  "stop be ps = stop_all (be_harness be) ps"

subsection \<open>ingestion.rs\<close>

definition ingestion_point ::
    "('p, 'w, 'h, 'v, 'r, 'g, 'j) bench \<Rightarrow> ('v, 'r, 'g) script \<Rightarrow> nat \<Rightarrow> nat \<Rightarrow> nat \<Rightarrow> nat
     \<Rightarrow> (('p, 'w, 'r, 'v, 'j) session, unit) step" where
  "ingestion_point be sc conc requests warmup_requests run_number =
     then_do reset_tables (\<lambda>_.
     then_do (services be sc) (\<lambda>(charge, api).
     then_do (look se_now) (\<lambda>warmup_start.
     then_do (submit_step (be_lib be) (sp_silent sc WarmupJobs) ''ingestion-warmup'' 0 5 (sp_warm_calls sc warmup_requests) (sp_warm_took sc)) (\<lambda>_.
     then_do (seconds_since warmup_start) (\<lambda>warmup_secs.
     then_do (look se_now) (\<lambda>start.
     then_do (submit_step (be_lib be) (sp_silent sc MeasuredJobs) ''ingestion'' warmup_requests 5 (sp_calls sc requests) (sp_took sc)) (\<lambda>outcomes.
     then_do (seconds_since start) (\<lambda>elapsed.
     then_do (db_read (ingestion_gate (be_lib be) outcomes)) (\<lambda>g.
     then_do (record_run be sc
       (ingestion_record (be_lib be) (sp_now sc) conc run_number warmup_secs elapsed outcomes g)) (\<lambda>_.
     stop be [api, charge]))))))))))"

subsection \<open>execution.rs\<close>

text \<open>The warm-up: what it submits and whether its queue is drained is not looked at.\<close>

definition execution_warmup ::
    "('p, 'w, 'h, 'v, 'r, 'g, 'j) bench \<Rightarrow> ('v, 'r, 'g) script \<Rightarrow> nat \<Rightarrow> nat \<Rightarrow> (('p, 'w, 'r, 'v, 'j) session, unit) step" where
  "execution_warmup be sc conc warmup_jobs =
     (if 0 < warmup_jobs then
        then_do (submit_step (be_lib be) (sp_silent sc WarmupJobs) ''exec-warmup'' 0 5 (sp_warm_calls sc warmup_jobs) (sp_warm_took sc)) (\<lambda>_.
        then_do (worker be (execution_spec (be_ctx be) conc)) (\<lambda>warmup_worker.
        then_do (ok_of (drain execution_deadline (sp_warm_world sc))) (\<lambda>_.
        stop be [warmup_worker])))
      else ret ())"

text \<open>A sampler runs for each process that has a pid when the measurement begins.\<close>

definition sampled_process ::
    "('p, 'w, 'h, 'v, 'r, 'g, 'j) bench \<Rightarrow> ('v, 'r, 'g) script \<Rightarrow> 'w \<Rightarrow> 'p managed_process \<Rightarrow> resource_sample option" where
  "sampled_process be sc w p =
     map_option (\<lambda>pid. stop_and_collect (sampled (map (\<lambda>h. sample_pid h pid) (sp_samples sc (mp_label p)))))
       (mp_pid (be_harness be) p w)"

definition postgres_container :: string where
  "postgres_container = ''reliableq-postgres-1''"

definition postgres_db_name :: string where
  "postgres_db_name = ''reliableq''"

definition measured_host ::
    "('p, 'w, 'h, 'v, 'r, 'g, 'j) bench \<Rightarrow> ('v, 'r, 'g) script \<Rightarrow> 'w \<Rightarrow> 'p managed_process \<Rightarrow> 'p managed_process
     \<Rightarrow> 'p managed_process \<Rightarrow> host_measures" where
  "measured_host be sc w api worker1 charge =
     \<lparr>hm_size_before = database_size_bytes (sp_size_before sc) postgres_db_name,
      hm_size_after = database_size_bytes (sp_size_after sc) postgres_db_name,
      hm_wal_bytes = wal_bytes_since (sp_lsn_now sc) (sp_lsn_diff sc) (current_wal_lsn (sp_lsn_before sc)),
      hm_worker = sampled_process be sc w worker1, hm_api = sampled_process be sc w api,
      hm_fake_charge = sampled_process be sc w charge,
      hm_postgres = sample_postgres_container (sp_host sc) postgres_container\<rparr>"

definition execution_point ::
    "('p, 'w, 'h, 'v, 'r, 'g, 'j) bench \<Rightarrow> ('v, 'r, 'g) script \<Rightarrow> string \<Rightarrow> nat \<Rightarrow> nat \<Rightarrow> nat \<Rightarrow> nat \<Rightarrow> nat
     \<Rightarrow> (('p, 'w, 'r, 'v, 'j) session, unit) step" where
  "execution_point be sc scenario latency_ms conc job_count warmup_jobs run_number =
     then_do reset_tables (\<lambda>_.
     then_do (services be sc) (\<lambda>(charge, api).
     then_do (delay_control be (sp_silent sc FirstControl) (sp_control sc) latency_ms) (\<lambda>_.
     then_do (execution_warmup be sc conc warmup_jobs) (\<lambda>_.
     then_do (submit_step (be_lib be) (sp_silent sc MeasuredJobs) scenario warmup_jobs 5 (sp_calls sc job_count) (sp_took sc)) (\<lambda>outcomes.
     then_do (inflight_reset be sc) (\<lambda>_.
     then_do (look se_now) (\<lambda>start.
     then_do (worker be (execution_spec (be_ctx be) conc)) (\<lambda>worker1.
     then_do (look se_os) (\<lambda>w.
     then_do (drain execution_deadline (sp_world sc)) (\<lambda>drained.
     then_do (seconds_since start) (\<lambda>elapsed.
     then_do (observed_peak be sc) (\<lambda>peak.
     then_do (db_read (measure_live (be_lib be) outcomes (Some conc) peak drained elapsed)) (\<lambda>m.
     then_do (record_run be sc (execution_record (be_lib be) (sp_now sc) scenario latency_ms conc run_number
       (measured_host be sc w api worker1 charge) m)) (\<lambda>_.
     stop be [worker1, api, charge]))))))))))))))"

subsection \<open>scaling.rs\<close>

definition scaling_point ::
    "('p, 'w, 'h, 'v, 'r, 'g, 'j) bench \<Rightarrow> ('v, 'r, 'g) script \<Rightarrow> string \<Rightarrow> nat \<Rightarrow> nat \<Rightarrow> nat \<Rightarrow> nat \<Rightarrow> nat \<Rightarrow> nat
     \<Rightarrow> (('p, 'w, 'r, 'v, 'j) session, unit) step" where
  "scaling_point be sc axis worker_count per_worker job_count warmup_jobs latency_ms run_number =
     then_do reset_tables (\<lambda>_.
     then_do (services be sc) (\<lambda>(charge, api).
     then_do (delay_control be (sp_silent sc FirstControl) (sp_control sc) latency_ms) (\<lambda>_.
     then_do (if 0 < warmup_jobs
              then submit_step (be_lib be) (sp_silent sc WarmupJobs) ''scaling-warmup'' 0 5 (sp_warm_calls sc warmup_jobs) (sp_warm_took sc)
              else ret []) (\<lambda>_.
     then_do (submit_step (be_lib be) (sp_silent sc MeasuredJobs) ''scaling'' warmup_jobs 5 (sp_calls sc job_count) (sp_took sc)) (\<lambda>outcomes.
     then_do (inflight_reset be sc) (\<lambda>_.
     then_do (start_workers (be_harness be) (be_parent be) (be_ctx be) per_worker worker_count) (\<lambda>workers.
     then_do (look se_now) (\<lambda>start.
     then_do (drain scaling_deadline (sp_world sc)) (\<lambda>drained.
     then_do (seconds_since start) (\<lambda>elapsed.
     then_do (observed_peak be sc) (\<lambda>peak.
     then_do (look (\<lambda>s. per_worker_counts (tracked outcomes) (se_db s))) (\<lambda>fairness.
     then_do (db_read (measure_live (be_lib be) outcomes (Some (total_concurrency worker_count per_worker)) peak drained
                elapsed)) (\<lambda>m.
     then_do (record_run be sc
       (scaling_record (be_lib be) (sp_now sc) axis worker_count per_worker latency_ms run_number fairness m)) (\<lambda>_.
     stop be (workers @ [api, charge])))))))))))))))"

subsection \<open>retry\_degradation.rs\<close>

definition retry_point ::
    "('p, 'w, 'h, 'v, 'r, 'g, 'j) bench \<Rightarrow> ('v, 'r, 'g) script \<Rightarrow> rat \<Rightarrow> nat \<Rightarrow> nat \<Rightarrow> nat
     \<Rightarrow> (('p, 'w, 'r, 'v, 'j) session, unit) step" where
  "retry_point be sc rate job_count conc run_number =
     then_do reset_tables (\<lambda>_.
     then_do (services be sc) (\<lambda>(charge, api).
     then_do (retry_setup (bk_service (be_client be)) (be_seed be) (sp_silent sc FirstControl) (sp_control sc) rate run_number) (\<lambda>_.
     then_do (submit_step (be_lib be) (sp_silent sc MeasuredJobs) ''retry-degradation'' 0 6 (sp_calls sc job_count) (sp_took sc)) (\<lambda>outcomes.
     then_do (look se_now) (\<lambda>start.
     then_do (worker be (retry_spec (be_ctx be) conc)) (\<lambda>worker1.
     then_do (drain retry_deadline (sp_world sc)) (\<lambda>drained.
     then_do (seconds_since start) (\<lambda>elapsed.
     then_do (observed_peak be sc) (\<lambda>peak.
     then_do (db_read (measure_live (be_lib be) outcomes (Some conc) peak drained elapsed)) (\<lambda>m.
     then_do (look se_db) (\<lambda>db.
     then_do (record_run be sc (retry_degradation_record (be_lib be) (sp_now sc) rate conc run_number m db)) (\<lambda>_.
     stop be [worker1, api, charge]))))))))))))"

subsection \<open>backlog.rs\<close>

definition backlog_point ::
    "('p, 'w, 'h, 'v, 'r, 'g, 'j) bench \<Rightarrow> ('v, 'r, 'g) script \<Rightarrow> nat \<Rightarrow> nat \<Rightarrow> nat
     \<Rightarrow> (('p, 'w, 'r, 'v, 'j) session, unit) step" where
  "backlog_point be sc backlog conc run_number =
     then_do reset_tables (\<lambda>_.
     then_do (services be sc) (\<lambda>(charge, api).
     then_do (look se_now) (\<lambda>preload_start.
     then_do (submit_step (be_lib be) (sp_silent sc MeasuredJobs) ''backlog'' 0 5 (sp_calls sc backlog) (sp_took sc)) (\<lambda>outcomes.
     then_do (seconds_since preload_start) (\<lambda>preload_secs.
     then_do (look se_now) (\<lambda>start.
     then_do (worker be (backlog_spec (be_ctx be) conc)) (\<lambda>worker1.
     then_do (watch (sp_world sc)) (\<lambda>polls.
     then_do (polled (wait_for_drain backlog_deadline polls)) (\<lambda>drained.
     then_do (seconds_since start) (\<lambda>elapsed.
     then_do (db_read (measure_live (be_lib be) outcomes (Some conc) None drained elapsed)) (\<lambda>m.
     then_do (record_run be sc (backlog_record (be_lib be) (sp_now sc) backlog conc run_number preload_secs
       (drain_samples backlog_deadline polls) m)) (\<lambda>_.
     stop be [worker1, api, charge]))))))))))))"

subsection \<open>crash\_recovery.rs\<close>

definition kill_step ::
    "('p, 'w, 'h, 'v, 'r, 'g, 'j) bench \<Rightarrow> 'p managed_process \<Rightarrow> (('p, 'w, 'r, 'v, 'j) session, unit) step" where
  "kill_step be p = alter (\<lambda>s. s\<lparr>se_os := kill_now (be_harness be) p (se_os s)\<rparr>)"

text \<open>The first worker has \<open>800 ms\<close> to claim before it is killed; what it does in them is the world before the kill.\<close>

definition real_kill_point ::
    "('p, 'w, 'h, 'v, 'r, 'g, 'j) bench \<Rightarrow> ('v, 'r, 'g) script \<Rightarrow> nat \<Rightarrow> nat \<Rightarrow> (('p, 'w, 'r, 'v, 'j) session, unit) step" where
  "real_kill_point be sc job_count run_number =
     then_do reset_tables (\<lambda>_.
     then_do (services be sc) (\<lambda>(charge, api).
     then_do (kill_setup (bk_service (be_client be)) (be_seed be) (sp_silent sc FirstControl) (sp_control sc)) (\<lambda>_.
     then_do (submit_step (be_lib be) (sp_silent sc MeasuredJobs) ''crash-real-kill'' 0 5 (sp_calls sc job_count) (sp_took sc)) (\<lambda>outcomes.
     then_do (look se_now) (\<lambda>kill_start.
     then_do (worker be (kill_spec (be_ctx be) job_count 0)) (\<lambda>worker1.
     then_do (alter (\<lambda>s. s\<lparr>se_now := ha_sleep (be_harness be) (from_millis 800) (se_now s)\<rparr>)) (\<lambda>_.
     then_do (watch (sp_kill_world sc)) (\<lambda>_.
     then_do (look (\<lambda>s. running_jobs (tracked outcomes) (se_db s))) (\<lambda>claimed_before_kill.
     then_do (kill_step be worker1) (\<lambda>_.
     then_do (seconds_since kill_start) (\<lambda>kill_elapsed.
     then_do (delay_control be (sp_silent sc SecondControl) (sp_control_again sc) 0) (\<lambda>_.
     then_do (worker be (kill_spec (be_ctx be) job_count 1)) (\<lambda>worker2.
     then_do (drain kill_deadline (sp_world sc)) (\<lambda>drained.
     then_do (seconds_since kill_start) (\<lambda>total_elapsed.
     then_do (db_read (measure_live (be_lib be) outcomes None None drained total_elapsed)) (\<lambda>m.
     then_do (record_run be sc
       (real_kill_record (be_lib be) (sp_now sc) run_number claimed_before_kill kill_elapsed m)) (\<lambda>_.
     stop be [worker2, api, charge])))))))))))))))))"

text \<open>The failpoint run executes the jobs in the process of the harness, until none is left or the deadline has passed.\<close>

definition quiescence_deadline :: duration where
  "quiescence_deadline = from_secs 60"

definition failpoint_loop ::
    "('p, 'w, 'h, 'v, 'r, 'g, 'j) bench \<Rightarrow> ('v, 'r, 'g) script \<Rightarrow> failpoint_name \<Rightarrow> uuid list
     \<Rightarrow> (('p, 'w, 'r, 'v, 'j) session, bool) step" where
  "failpoint_loop be sc name ids = awaiting (sp_silent sc LoopCharges) (\<lambda>s.
     case failpoint_rounds (be_worker be) name (sp_schedule sc) (sp_round_took sc) (ha_sleep (be_harness be)) ids
            (se_now s + quiescence_deadline) (se_now s) 0 ([], sp_rng sc, se_db s, se_chaos s) of
       None \<Rightarrow> None
     | Some (Inl e) \<Rightarrow> Some (Inl (DbError e), s)
     | Some (Inr (quiescent, t, db, chaos)) \<Rightarrow> Some (Inr quiescent, s\<lparr>se_db := db, se_chaos := chaos, se_now := t\<rparr>))"

definition failpoint_point ::
    "('p, 'w, 'h, 'v, 'r, 'g, 'j) bench \<Rightarrow> ('v, 'r, 'g) script \<Rightarrow> failpoint_name \<Rightarrow> nat \<Rightarrow> nat
     \<Rightarrow> (('p, 'w, 'r, 'v, 'j) session, unit) step" where
  "failpoint_point be sc name job_count run_number =
     (let lib = bl_lib (be_lib be) in
     then_do reset_tables (\<lambda>_.
     then_do (charge_service be sc) (\<lambda>charge.
     then_do (db_step (seed_jobs (ae_jsonb (ba_env (bl_api (be_lib be)))) (\<lambda>i. be_encode be (bench_charge_payload (''crash-'' @ failpoint_label name) i)) 6 0
                (sp_seeds sc job_count))) (\<lambda>ids.
     then_do (look se_now) (\<lambda>start.
     then_do (failpoint_loop be sc name ids) (\<lambda>reached_quiescence.
     then_do (seconds_since start) (\<lambda>elapsed.
     then_do (look (\<lambda>s. recovery_gaps_ms ids (se_db s))) (\<lambda>recovery_gaps.
     then_do (look (\<lambda>s. lease_lost_count ids (se_db s))) (\<lambda>lost.
     then_do (db_read (driver_gate (we_show_uuid (be_worker be)) (bl_show_f0 (be_lib be)) ids reached_quiescence recovery_gaps
                elapsed)) (\<lambda>g.
     then_do (record_run be sc (failpoint_record lib (sp_now sc) (bl_host (be_lib be)) name run_number ids reached_quiescence elapsed
                recovery_gaps lost g)) (\<lambda>_.
     stop be [charge])))))))))))"

subsection \<open>claim\_batch.rs\<close>

definition claim_loop ::
    "('p, 'w, 'h, 'v, 'r, 'g, 'j) bench \<Rightarrow> ('v, 'r, 'g) script \<Rightarrow> int \<Rightarrow> (('p, 'w, 'r, 'v, 'j) session, nat) step" where
  "claim_loop be sc batch = awaiting (sp_silent sc LoopCharges) (\<lambda>s.
     case claim_rounds (be_worker be) (sp_schedule sc) batch (sp_rounds sc) 0 (sp_rng sc, se_db s, se_chaos s) of
       Inl e \<Rightarrow> Some (Inl (DbError e), s)
     | Inr None \<Rightarrow> None
     | Inr (Some (rounds, db, chaos)) \<Rightarrow> Some (Inr rounds, s\<lparr>se_db := db, se_chaos := chaos\<rparr>))"

definition claim_batch_point ::
    "('p, 'w, 'h, 'v, 'r, 'g, 'j) bench \<Rightarrow> ('v, 'r, 'g) script \<Rightarrow> int \<Rightarrow> nat \<Rightarrow> nat
     \<Rightarrow> (('p, 'w, 'r, 'v, 'j) session, unit) step" where
  "claim_batch_point be sc batch job_count run_number =
     then_do reset_tables (\<lambda>_.
     then_do (charge_service be sc) (\<lambda>charge.
     then_do (db_step (seed_jobs (ae_jsonb (ba_env (bl_api (be_lib be)))) (\<lambda>i. be_encode be (bench_charge_payload ''claim-batch'' i)) 5 0
                (sp_seeds sc job_count))) (\<lambda>ids.
     then_do (look se_now) (\<lambda>start.
     then_do (claim_loop be sc batch) (\<lambda>rounds.
     then_do (pass_time (sp_took sc)) (\<lambda>_.
     then_do (seconds_since start) (\<lambda>elapsed.
     then_do (look (\<lambda>s. queue_latencies_ms ids (se_db s))) (\<lambda>latencies.
     then_do (db_read (driver_gate (we_show_uuid (be_worker be)) (bl_show_f0 (be_lib be)) ids True latencies elapsed)) (\<lambda>g.
     then_do (record_run be sc (claim_batch_record (bl_lib (be_lib be)) (sp_now sc) (bl_host (be_lib be)) batch run_number ids rounds
                (sp_claim_ms sc) elapsed latencies g)) (\<lambda>_.
     stop be [charge]))))))))))"

subsection \<open>idempotency.rs\<close>

definition idempotency_requests ::
    "('p, 'w, 'h, 'v, 'r, 'g, 'j) bench \<Rightarrow> nat \<Rightarrow> point_calls \<Rightarrow> (('p, 'w, 'r, 'v, 'j) session, point_measure) step" where
  "idempotency_requests be run_number pc = awaiting (pc_silent pc) (\<lambda>s.
     case measure_point (be_client be) run_number pc (se_chaos s, se_db s) of
       (m, chaos, db) \<Rightarrow> Some (Inr m, s\<lparr>se_chaos := chaos, se_db := db\<rparr>))"

definition idempotency_run ::
    "('p, 'w, 'h, 'v, 'r, 'g, 'j) bench \<Rightarrow> ('v, 'r, 'g) script \<Rightarrow> nat \<Rightarrow> nat \<Rightarrow> (('p, 'w, 'r, 'v, 'j) session, unit) step" where
  "idempotency_run be sc level run_number =
     (let pc = sp_requests sc level in
     then_do reset_tables (\<lambda>_.
     then_do (charge_service be sc) (\<lambda>charge.
     then_do (idempotency_requests be run_number pc) (\<lambda>m.
     then_do (record_run be sc
       (point_result (bl_lib (be_lib be)) (sp_now sc) (bl_host (be_lib be)) level run_number (pc_elapsed pc) m)) (\<lambda>_.
     stop be [charge])))))"

end
