(* ===== verification/BenchCommand.thy ===== *)
theory BenchCommand
  imports BenchPoints BenchAnalysis
begin

section \<open>The run command of the benchmark: reliableq-bench, main.rs\<close>

text \<open>
  \<open>main\<close> and \<open>run_command\<close> of \<open>src/crates/reliableq-bench/src/main.rs\<close>, the latter from the configuration file to the last run of its plan, which is that of
  \<open>BenchPlan\<close> with the runs of \<open>BenchPoints\<close>.
\<close>

text \<open>A run of a point: what it does, and the end of its scope.\<close>

definition point_body ::
    "('p, 'w, 'h, 'v, 'r, 'g, 'j) bench \<Rightarrow> ('v, 'r, 'g) script \<Rightarrow> planned \<Rightarrow> (('p, 'w, 'r, 'v, 'j) session, unit) step" where
  "point_body be sc = (\<lambda>(point, k).
     case point of
       IngestionPoint conc requests warmup_requests \<Rightarrow> ingestion_point be sc conc requests warmup_requests k
     | ExecutionPoint scenario latency_ms conc job_count warmup_jobs \<Rightarrow>
         execution_point be sc scenario latency_ms conc job_count warmup_jobs k
     | ScalingPoint axis workers per_worker job_count warmup_jobs latency_ms \<Rightarrow>
         scaling_point be sc axis workers per_worker job_count warmup_jobs latency_ms k
     | ClaimBatchPoint batch job_count \<Rightarrow> claim_batch_point be sc batch job_count k
     | RetryPoint rate job_count conc \<Rightarrow> retry_point be sc rate job_count conc k
     | BacklogPoint backlog conc \<Rightarrow> backlog_point be sc backlog conc k
     | RealKillPoint job_count \<Rightarrow> real_kill_point be sc job_count k
     | FailpointPoint name job_count \<Rightarrow> failpoint_point be sc name job_count k
     | IdempotencyPoint level \<Rightarrow> idempotency_run be sc level k)"

definition run_planned ::
    "('p, 'w, 'h, 'v, 'r, 'g, 'j) bench \<Rightarrow> ('v, 'r, 'g) script \<Rightarrow> planned \<Rightarrow> (('p, 'w, 'r, 'v, 'j) session, unit) step" where
  "run_planned be sc p = scoped (be_harness be) (point_body be sc p)"

text \<open>The runs of a plan one after the other; \<open>scripts\<close> are numbered from the first run on.\<close>

fun run_plan ::
    "('p, 'w, 'h, 'v, 'r, 'g, 'j) bench \<Rightarrow> (nat \<Rightarrow> ('v, 'r, 'g) script) \<Rightarrow> nat \<Rightarrow> planned list
     \<Rightarrow> (('p, 'w, 'r, 'v, 'j) session, unit) step" where
  "run_plan be scripts i [] = ret ()"
| "run_plan be scripts i (p # ps) = then_do (run_planned be (scripts i) p) (\<lambda>_. run_plan be scripts (Suc i) ps)"

text \<open>
  What the command asks of the outside before its first run: reading and parsing the file, making the directory, connecting and
  migrating (\<open>platform\<close>), and what it reads of PostgreSQL for the environment it records.
\<close>

record ('addr, 'v, 'j) command_env =
  cm_read :: "string \<Rightarrow> string + string"
  cm_parse :: "string \<Rightarrow> string + bench_config"
  cm_create_dir :: "string \<Rightarrow> string + unit"
  cm_platform :: "('addr, 'v) platform"
  cm_host :: host
  cm_postgres :: "'v db \<Rightarrow> string option \<times> (string \<Rightarrow> string option)"

definition or_failed :: "string + 'a \<Rightarrow> ('s, 'a) step" where
  "or_failed r = (\<lambda>s. Some (map_err Failed r, s))"

definition bench_database :: "bench_config \<Rightarrow> database_config" where
  "bench_database c =
     \<lparr>url = ec_database_url (bc_environment c), max_connections = default_max_connections, connect_timeout = from_secs 5\<rparr>"

definition bench_of_config ::
    "('p, 'w, 'h, 'v, 'r, 'g, 'j) bench \<Rightarrow> bench_config \<Rightarrow> 'j env_info \<Rightarrow> ('p, 'w, 'h, 'v, 'r, 'g, 'j) bench" where
  "bench_of_config be c env = be\<lparr>be_ctx := context_of c, be_lib := (be_lib be)\<lparr>bl_host := env\<rparr>\<rparr>"

definition bench_command ::
    "('addr, 'v, 'j) command_env \<Rightarrow> ('p, 'w, 'h, 'v, 'r, 'g, 'j) bench \<Rightarrow> (nat \<Rightarrow> ('v, 'r, 'g) script) \<Rightarrow> string \<Rightarrow> string \<Rightarrow> string
     \<Rightarrow> (('p, 'w, 'r, 'v, 'j) session, unit) step" where
  "bench_command cm be scripts config_path scenario out =
     then_do (or_failed (load_config (cm_read cm) (cm_parse cm) config_path)) (\<lambda>config.
     then_do (or_failed (cm_create_dir cm out)) (\<lambda>_.
     then_do (or_failed (create_pool (cm_platform cm) (bench_database config))) (\<lambda>db0.
     then_do (or_failed (run_migrations (cm_platform cm) db0)) (\<lambda>db.
     then_do (alter (\<lambda>s. s\<lparr>se_db := db\<rparr>)) (\<lambda>_.
     run_plan (bench_of_config be config (capture (cm_host cm) (bl_lib (be_lib be)) (Some (cm_postgres cm db)))) scripts 0
       (run_command config scenario))))))"

subsection \<open>The command line\<close>

text \<open>The arguments clap parses, with those that may be left out; \<open>io\<close> are the files under the three paths of a report.\<close>

datatype bench_cli =
    RunCli string "string option" "string option"
  | ReportCli "string option" "string option" "string option"

definition bench_main ::
    "('addr, 'v, 'j) command_env \<Rightarrow> ('p, 'w, 'h, 'v, 'r, 'g, 'j) bench \<Rightarrow> (nat \<Rightarrow> ('v, 'r, 'g) script)
     \<Rightarrow> (string \<Rightarrow> string \<Rightarrow> string \<Rightarrow> report_io) \<Rightarrow> (string \<Rightarrow> 'j run_result option) \<Rightarrow> bench_cli
     \<Rightarrow> (('p, 'w, 'r, 'v, 'j) session, unit) step" where
  "bench_main cm be scripts io parse cli =
     (case cli of
        RunCli config scenario out \<Rightarrow>
          bench_command cm be scripts config (opt_or ''all'' scenario) (opt_or ''benchmarks/results'' out)
      | ReportCli results out charts_dir \<Rightarrow>
          let dir = opt_or ''benchmarks/results'' results in
          then_do (or_failed (report_command
            (io dir (opt_or ''docs/benchmarking/results.md'' out) (opt_or ''benchmarks/reports'' charts_dir))
            (bl_lib (be_lib be)) parse [dir])) (\<lambda>_.
          ret ()))"

end
