(* ===== verification/BenchLeaves.thy ===== *)
theory BenchLeaves
  imports BenchCommand
begin

section \<open>The processes a benchmark run leaves\<close>

text \<open>
  Of every run of \<open>BenchPoints\<close>: at each point of it, at most the processes whose handles are in scope run, so that a run that succeeds
  has stopped them all and one that fails drops them with its scope. A step that touches neither processes nor records is \<open>inert\<close>.
\<close>

subsection \<open>Steps that touch neither processes nor records\<close>

definition inert :: "(('p, 'w, 'r, 'v, 'j) session, 'a) step \<Rightarrow> bool" where
  "inert m \<longleftrightarrow> (\<forall>s r s'. m s = Some (r, s') \<longrightarrow>
     se_os s' = se_os s \<and> se_held s' = se_held s \<and> se_written s' = se_written s)"

lemma inertI:
  "(\<And>s r s'. m s = Some (r, s') \<Longrightarrow> se_os s' = se_os s \<and> se_held s' = se_held s \<and> se_written s' = se_written s) \<Longrightarrow> inert m"
  unfolding inert_def by blast

lemma inertD:
  "inert m \<Longrightarrow> m s = Some (r, s') \<Longrightarrow> se_os s' = se_os s \<and> se_held s' = se_held s \<and> se_written s' = se_written s"
  unfolding inert_def by blast

lemma inert_then_do: "inert m \<Longrightarrow> (\<And>x. inert (f x)) \<Longrightarrow> inert (then_do m f)"
proof (rule inertI)
  fix s r s'
  assume m: "inert m" and f: "\<And>x. inert (f x)" and run: "then_do m f s = Some (r, s')"
  then obtain r1 s1 where r1: "m s = Some (r1, s1)" by (cases "m s") (auto simp: then_do_def)
  with run f show "se_os s' = se_os s \<and> se_held s' = se_held s \<and> se_written s' = se_written s"
    using inertD [OF m r1] inertD [OF f, of _ s1 r s'] by (cases r1) (simp_all add: then_do_def)
qed

lemma inert_ok_of: "inert m \<Longrightarrow> inert (ok_of m)"
  by (rule inertI) (auto simp: ok_of_def split: option.splits sum.splits prod.splits dest!: inertD)

lemma inert_awaiting: "inert m \<Longrightarrow> inert (awaiting silent m)"
  by (auto intro!: inertI dest: inertD simp: awaiting_def split: if_splits)

lemma inert_prod: "(\<And>a b. inert (f a b)) \<Longrightarrow> inert (case x of (a, b) \<Rightarrow> f a b)"
  by (cases x) simp

lemma inert_basic:
  "inert (ret x)" "inert (look f)" "inert (or_error r)" "inert (polled q)" "inert (chaos_step silent g)" "inert (db_step h)"
  "inert (pass_time d)" "inert (seconds_since t)"
  by (auto intro!: inertI simp: ret_def look_def or_error_def polled_def chaos_step_def awaiting_def db_step_def pass_time_def alter_def
      seconds_since_def split: sum.splits option.splits prod.splits if_splits)

lemma inert_alter_db:
  "inert (alter (\<lambda>s. s\<lparr>se_db := db\<rparr>))" "inert (alter (\<lambda>s. s\<lparr>se_db := db, se_chaos := c, se_now := n s\<rparr>))"
  "inert (alter (\<lambda>s. s\<lparr>se_now := n s\<rparr>))"
  by (auto intro!: inertI simp: alter_def)

lemma inert_submit: "inert (submit_step bl silent scenario start mx calls took)"
  unfolding submit_step_def by (intro inert_then_do inert_awaiting inert_prod inert_basic inert_alter_db)

lemma inert_watch: "inert (watch world)"
  unfolding watch_def by (intro inert_then_do inert_basic inert_alter_db)

lemma inert_drain: "inert (drain deadline world)"
  unfolding drain_def by (intro inert_then_do inert_watch inert_basic)

lemma inert_controls:
  "inert reset_tables" "inert (db_read f)" "inert (delay_control be silent d ms)" "inert (inflight_reset be sc)" "inert (observed_peak be sc)"
  "inert (retry_setup env sd silent d rate n)" "inert (kill_setup env sd silent d)"
  unfolding reset_tables_def db_read_def delay_control_def inflight_reset_def observed_peak_def retry_setup_def kill_setup_def
  by (intro inert_then_do inert_ok_of inert_basic)+

lemma inert_loops:
  "inert (failpoint_loop be sc name ids)" "inert (claim_loop be sc batch)" "inert (idempotency_requests be k pc)"
  by (auto intro!: inertI simp: failpoint_loop_def claim_loop_def idempotency_requests_def awaiting_def
      split: sum.splits option.splits prod.splits if_splits)

lemma inert_warmup_submissions: "inert (if c then submit_step bl silent scenario start mx calls took else ret [])"
  using inert_submit inert_basic(1) by (cases c) simp_all

lemmas inert_steps = inert_basic inert_alter_db inert_submit inert_watch inert_drain inert_controls inert_loops inert_ok_of [OF inert_drain]
  inert_warmup_submissions

lemma inert_only: "inert m \<Longrightarrow> hoare (only alive base ps) m (\<lambda>_. only alive base ps) (all_held alive base)"
proof (rule hoareI)
  have same: "only alive base ps s'" if "inert m" "only alive base ps s" "m s = Some (r, s')" for s s' r
    using inertD [OF that(1,3)] that(2) by (simp add: only_def)
  show "only alive base ps s'" if "inert m" "only alive base ps s" "m s = Some (Inr x, s')" for s x s'
    using that by (rule same)
  show "all_held alive base s'" if "inert m" "only alive base ps s" "m s = Some (Inl e, s')" for s e s'
    using same [OF that] by (rule only_held)
qed

definition written :: "'j run_result list \<Rightarrow> ('p, 'w, 'r, 'v, 'j) session \<Rightarrow> bool" where
  "written runs s \<longleftrightarrow> se_written s = runs"

lemma inert_written: "inert m \<Longrightarrow> hoare (written runs) m (\<lambda>_. written runs) (written runs)"
  by (rule hoareI) (auto dest!: inertD simp: written_def)

subsection \<open>Steps on processes\<close>

lemma only_cong: "mp_child ` set ps = mp_child ` set qs \<Longrightarrow> only alive base ps s = only alive base qs s"
  by (simp add: only_def)

lemma alter_chaos_only:
  "hoare (only alive base ps) (alter (\<lambda>s. s\<lparr>se_chaos := c, se_control := b\<rparr>)) (\<lambda>_. only alive base ps) E"
  by (rule hoare_alter) (simp add: only_def)

lemma spawn_fake_charge_only:
  assumes "os_ok ha alive"
  shows "hoare (only alive base ps) (spawn_fake_charge ha parent dir u b entropy) (\<lambda>p. only alive base (p # ps)) (all_held alive base)"
  unfolding spawn_fake_charge_def
  by (rule hoare_then_do, rule spawn_child_only [OF assms], rule hoare_then_do, rule alter_chaos_only, rule hoare_ret)

lemma spawn_api_only:
  assumes "os_ok ha alive"
  shows "hoare (only alive base ps) (spawn_api ha parent dir u b) (\<lambda>p. only alive base (p # ps)) (all_held alive base)"
  unfolding spawn_api_def by (rule spawn_child_only [OF assms])

lemma spawn_worker_only:
  assumes "os_ok ha alive"
  shows "hoare (only alive base ps) (spawn_worker ha parent spec) (\<lambda>p. only alive base (p # ps)) (all_held alive base)"
  unfolding spawn_worker_def by (rule spawn_child_only [OF assms])

lemma each_only:
  assumes "\<And>x ps. hoare (only alive base ps) (f x) (\<lambda>p. only alive base (p # ps)) (all_held alive base)"
  shows "hoare (only alive base ps) (each f xs) (\<lambda>qs. only alive base (qs @ ps)) (all_held alive base)"
proof (induction xs arbitrary: ps)
  case (Cons x xs)
  show ?case
    unfolding each.simps
  proof (rule hoare_then_do, rule assms, rule hoare_then_do, rule Cons.IH, rule hoare_ret)
    fix y ys s assume "only alive base (ys @ y # ps) s"
    then show "only alive base ((y # ys) @ ps) s" by (subst only_cong [of _ "ys @ y # ps"]) auto
  qed
qed (simp add: hoare_ret)

lemma services_only:
  assumes "os_ok (be_harness be) alive"
  shows "hoare (only alive base ps) (services be sc) (\<lambda>(charge, api). only alive base (api # charge # ps)) (all_held alive base)"
  unfolding services_def start_services_def
  by (rule hoare_then_do, rule spawn_fake_charge_only [OF assms], rule hoare_then_do, rule spawn_api_only [OF assms], rule hoare_ret) simp

lemma stopped_only:
  assumes "os_ok ha alive" "set ps \<subseteq> set stopped \<union> set qs" "set qs \<subseteq> set ps" "only alive base ps s"
  shows "only alive base qs (s\<lparr>se_os := fold (graceful_stop ha teardown_grace) stopped (se_os s)\<rparr>)"
proof -
  let ?w = "fold (graceful_stop ha teardown_grace) stopped (se_os s)"
  have "p \<in> base \<or> p \<in> mp_child ` set qs" if "alive p ?w" for p
    using graceful_stops [OF assms(1) that] assms(2,4) unfolding only_def by blast
  moreover have "mp_child ` set qs \<subseteq> set (se_held s)" using assms(3,4) unfolding only_def by blast
  ultimately show ?thesis by (simp add: only_def)
qed

lemma stop_only:
  assumes "os_ok (be_harness be) alive" "set ps \<subseteq> set stopped \<union> set qs" "set qs \<subseteq> set ps"
  shows "hoare (only alive base ps) (stop be stopped) (\<lambda>_. only alive base qs) E"
  unfolding stop_def stop_all_def by (rule hoare_alter) (rule stopped_only [OF assms])

lemma kill_only:
  assumes "os_ok (be_harness be) alive"
  shows "hoare (only alive base (p # ps)) (kill_step be p) (\<lambda>_. only alive base ps) E"
  unfolding kill_step_def kill_now_def
  by (rule hoare_alter) (auto simp: only_def os_okD(3) [OF assms] dest: os_okD(7) [OF assms])

lemma record_state: "record_run be sc run s = Some (r, s') \<Longrightarrow> only alive base ps s \<Longrightarrow> only alive base ps s'"
  by (cases "sp_write sc") (auto simp: record_run_def write_run_def only_def)

lemma record_only: "hoare (only alive base ps) (record_run be sc run) (\<lambda>_. only alive base ps) (all_held alive base)"
  by (rule hoareI) (blast intro: record_state only_held)+

lemma hoare_prod: "(\<And>a b. hoare (P (a, b)) (f a b) R E) \<Longrightarrow> hoare (P x) (case x of (a, b) \<Rightarrow> f a b) R E"
  by (cases x) simp

lemma services_then:
  assumes "os_ok (be_harness be) alive"
    and "\<And>charge api. hoare (only alive base (api # charge # ps)) (f charge api) R (all_held alive base)"
  shows "hoare (only alive base ps) (then_do (services be sc) (\<lambda>(charge, api). f charge api)) R (all_held alive base)"
  by (rule hoare_then_do, rule services_only [OF assms(1)]) (use assms(2) in auto)

lemma inert_then:
  "inert m \<Longrightarrow> (\<And>x. hoare (only alive base ps) (f x) R (all_held alive base))
    \<Longrightarrow> hoare (only alive base ps) (then_do m f) R (all_held alive base)"
  by (rule hoare_then_do, rule inert_only)

lemma record_then:
  "(\<And>x. hoare (only alive base ps) (f x) R (all_held alive base))
    \<Longrightarrow> hoare (only alive base ps) (then_do (record_run be sc run) f) R (all_held alive base)"
  by (rule hoare_then_do, rule record_only)

lemma worker_then:
  assumes "os_ok (be_harness be) alive"
    and "\<And>p. hoare (only alive base (p # ps)) (f p) R (all_held alive base)"
  shows "hoare (only alive base ps) (then_do (worker be spec) f) R (all_held alive base)"
  unfolding worker_def by (rule hoare_then_do, rule spawn_worker_only [OF assms(1)], rule assms(2))

lemma charge_then:
  assumes "os_ok (be_harness be) alive"
    and "\<And>p. hoare (only alive base (p # ps)) (f p) R (all_held alive base)"
  shows "hoare (only alive base ps) (then_do (charge_service be sc) f) R (all_held alive base)"
  unfolding charge_service_def by (rule hoare_then_do, rule spawn_fake_charge_only [OF assms(1)], rule assms(2))

subsection \<open>The processes of a run\<close>

lemma warmup_only:
  assumes "os_ok (be_harness be) alive"
  shows "hoare (only alive base ps) (execution_warmup be sc conc n) (\<lambda>_. only alive base ps) (all_held alive base)"
  unfolding execution_warmup_def
  by (rule hoare_if,
      rule inert_then, rule inert_steps, rule worker_then [OF assms], rule inert_then, rule inert_steps,
      rule stop_only [OF assms], simp, simp add: subset_insertI, rule hoare_ret)

lemma warmup_then:
  assumes "os_ok (be_harness be) alive"
    and "\<And>x. hoare (only alive base ps) (f x) R (all_held alive base)"
  shows "hoare (only alive base ps) (then_do (execution_warmup be sc conc n) f) R (all_held alive base)"
  by (rule hoare_then_do, rule warmup_only [OF assms(1)], rule assms(2))

lemma workers_then:
  assumes "os_ok (be_harness be) alive"
    and "\<And>ws. hoare (only alive base (ws @ ps)) (f ws) R (all_held alive base)"
  shows "hoare (only alive base ps) (then_do (start_workers (be_harness be) parent ctx per_worker n) f) R (all_held alive base)"
  unfolding start_workers_def
  by (rule hoare_then_do, rule each_only, rule spawn_worker_only [OF assms(1)], rule assms(2))

lemma kill_then:
  assumes "os_ok (be_harness be) alive"
    and "\<And>x. hoare (only alive base ps) (f x) R (all_held alive base)"
  shows "hoare (only alive base (p # ps)) (then_do (kill_step be p) f) R (all_held alive base)"
  by (rule hoare_then_do, rule kill_only [OF assms(1)], rule assms(2))

lemma stop_end:
  assumes "os_ok (be_harness be) alive" "set ps \<subseteq> set stopped"
  shows "hoare (only alive base ps) (stop be stopped) (\<lambda>_. only alive base []) E"
  by (rule stop_only [OF assms(1)]) (use assms(2) in simp_all)

lemma ingestion_only:
  assumes "os_ok (be_harness be) alive"
  shows "hoare (only alive base []) (ingestion_point be sc conc r w k) (\<lambda>_. only alive base []) (all_held alive base)"
  unfolding ingestion_point_def
  by (rule inert_then, rule inert_steps, rule services_then [OF assms],
      ((rule inert_then, rule inert_steps) | rule record_then)+, rule stop_end [OF assms], auto)

lemma execution_only:
  assumes "os_ok (be_harness be) alive"
  shows "hoare (only alive base []) (execution_point be sc scenario l conc n w k) (\<lambda>_. only alive base []) (all_held alive base)"
  unfolding execution_point_def
  by (rule inert_then, rule inert_steps, rule services_then [OF assms],
      ((rule inert_then, rule inert_steps) | rule record_then | rule warmup_then [OF assms] | rule worker_then [OF assms])+,
      rule stop_end [OF assms], auto)

lemma scaling_only:
  assumes "os_ok (be_harness be) alive"
  shows "hoare (only alive base []) (scaling_point be sc axis wc per n w l k) (\<lambda>_. only alive base []) (all_held alive base)"
  unfolding scaling_point_def
  by (rule inert_then, rule inert_steps, rule services_then [OF assms],
      ((rule inert_then, rule inert_steps) | rule record_then | rule workers_then [OF assms])+,
      rule stop_end [OF assms], auto)

lemma retry_only:
  assumes "os_ok (be_harness be) alive"
  shows "hoare (only alive base []) (retry_point be sc rate n conc k) (\<lambda>_. only alive base []) (all_held alive base)"
  unfolding retry_point_def
  by (rule inert_then, rule inert_steps, rule services_then [OF assms],
      ((rule inert_then, rule inert_steps) | rule record_then | rule worker_then [OF assms])+, rule stop_end [OF assms], auto)

lemma backlog_only:
  assumes "os_ok (be_harness be) alive"
  shows "hoare (only alive base []) (backlog_point be sc b conc k) (\<lambda>_. only alive base []) (all_held alive base)"
  unfolding backlog_point_def
  by (rule inert_then, rule inert_steps, rule services_then [OF assms],
      ((rule inert_then, rule inert_steps) | rule record_then | rule worker_then [OF assms])+, rule stop_end [OF assms], auto)

lemma real_kill_only:
  assumes "os_ok (be_harness be) alive"
  shows "hoare (only alive base []) (real_kill_point be sc n k) (\<lambda>_. only alive base []) (all_held alive base)"
  unfolding real_kill_point_def
  by (rule inert_then, rule inert_steps, rule services_then [OF assms],
      (rule kill_then [OF assms] | (rule inert_then, rule inert_steps) | rule record_then | rule worker_then [OF assms])+,
      rule stop_end [OF assms], auto)

lemma drivers_only:
  assumes "os_ok (be_harness be) alive"
  shows "hoare (only alive base []) (failpoint_point be sc name n k) (\<lambda>_. only alive base []) (all_held alive base)"
    "hoare (only alive base []) (claim_batch_point be sc batch n k) (\<lambda>_. only alive base []) (all_held alive base)"
    "hoare (only alive base []) (idempotency_run be sc level k) (\<lambda>_. only alive base []) (all_held alive base)"
  unfolding failpoint_point_def claim_batch_point_def idempotency_run_def Let_def
  by (rule inert_then, rule inert_steps, rule charge_then [OF assms],
      ((rule inert_then, rule inert_steps) | rule record_then)+, rule stop_end [OF assms], auto)+

lemma point_only:
  assumes "os_ok (be_harness be) alive"
  shows "hoare (only alive base []) (point_body be sc p) (\<lambda>_. only alive base []) (all_held alive base)"
  using ingestion_only [OF assms] execution_only [OF assms] scaling_only [OF assms] retry_only [OF assms] backlog_only [OF assms]
    real_kill_only [OF assms] drivers_only [OF assms]
  by (cases p; cases "fst p") (simp_all add: point_body_def)

lemma scope_only:
  assumes "os_ok ha alive" "hoare (only alive base []) m (\<lambda>_. only alive base []) (all_held alive base)"
  shows "hoare (only alive base []) (scoped ha m) (\<lambda>_. only alive base []) (only alive base [])"
proof -
  have after: "only alive base [] s'" if s: "only alive base [] s" and run: "scoped ha m s = Some (r, s')" for s s' r
  proof -
    obtain s1 where m: "m (s\<lparr>se_held := []\<rparr>) = Some (r, s1)"
      and s': "s' = s1\<lparr>se_os := fold (ha_drop ha) (se_held s1) (se_os s1), se_held := se_held s\<rparr>"
      using run unfolding scoped_def by auto
    have "only alive base [] (s\<lparr>se_held := []\<rparr>)" using s by (simp add: only_def)
    from hoareD [OF assms(2) this] m have "all_held alive base s1" by (cases r) (auto intro: only_held)
    with drops [OF assms(1), of _ "se_held s1" "se_os s1"] show ?thesis by (auto simp: s' only_def all_held_def)
  qed
  show ?thesis by (rule hoareI) (erule (1) after)+
qed

lemma run_planned_only:
  assumes "os_ok (be_harness be) alive"
  shows "hoare (only alive base []) (run_planned be sc p) (\<lambda>_. only alive base []) (only alive base [])"
  unfolding run_planned_def by (rule scope_only [OF assms point_only [OF assms]])

lemma run_plan_only:
  assumes "os_ok (be_harness be) alive"
  shows "hoare (only alive base []) (run_plan be scripts i plan) (\<lambda>_. only alive base []) (only alive base [])"
proof (induction plan arbitrary: i)
  case (Cons p plan)
  show ?case unfolding run_plan.simps by (rule hoare_then_do, rule run_planned_only [OF assms], rule Cons.IH)
qed (simp add: hoare_ret)

end
