(* ===== verification/BenchRecords.thy ===== *)
theory BenchRecords
  imports BenchCommand BenchLeaves BenchRuns
begin

section \<open>What a benchmark command records, and that its runs end\<close>

text \<open>
  Each run of \<open>BenchPoints\<close> writes its record as the last thing that can fail, so that a plan that stops has recorded exactly the runs
  before the one it stopped in. Every run but that of the claim loop, whose end is the subject of \<open>BenchRuns\<close>, ends or waits for
  an HTTP request that is never answered: the clients of the benchmark have no timeout.
\<close>

subsection \<open>The records of a run\<close>

text \<open>What a record says it is of, and what a planned run is to be recorded as.\<close>

definition run_label :: "'j run_result \<Rightarrow> string \<times> 'j \<times> nat" where
  "run_label run = (rr_scenario run, rr_scenario_params run, rr_run_number run)"

definition planned_label :: "'j report_lib \<Rightarrow> planned \<Rightarrow> string \<times> 'j \<times> nat" where
  "planned_label lib = (\<lambda>(point, k).
     case point of
       IngestionPoint conc requests warmup_requests \<Rightarrow> (''ingestion'', rl_json lib [(''concurrency'', JNat conc)], k)
     | ExecutionPoint scenario latency_ms conc job_count warmup_jobs \<Rightarrow>
         (scenario, rl_json lib [(''downstream_latency_ms'', JNat latency_ms), (''worker_concurrency'', JNat conc)], k)
     | ScalingPoint axis workers per_worker job_count warmup_jobs latency_ms \<Rightarrow>
         (''scaling'', rl_json lib [(''axis'', JStr axis), (''worker_count'', JNat workers),
            (''concurrency_per_worker'', JNat per_worker), (''total_concurrency'', JNat (total_concurrency workers per_worker))], k)
     | ClaimBatchPoint batch job_count \<Rightarrow> (''claim_batch'', rl_json lib [(''batch_size'', JInt batch)], k)
     | RetryPoint rate job_count conc \<Rightarrow> (''retry_degradation'', rl_json lib [(''transient_failure_rate'', JRat rate)], k)
     | BacklogPoint backlog conc \<Rightarrow> (''backlog'', rl_json lib [(''backlog_size'', JNat backlog)], k)
     | RealKillPoint job_count \<Rightarrow> (''crash_recovery_real_kill'', rl_json lib [(''lease_duration_secs'', JNat kill_lease_secs)], k)
     | FailpointPoint name job_count \<Rightarrow> (''crash_recovery_failpoint'', rl_json lib [(''failpoint'', JStr (failpoint_label name))], k)
     | IdempotencyPoint level \<Rightarrow> (''idempotency_contention'', rl_json lib [(''concurrency'', JNat level)], k))"

lemmas record_defs = ingestion_record_def execution_record_def scaling_record_def retry_degradation_record_def backlog_record_def
  real_kill_record_def failpoint_record_def claim_batch_record_def point_result_def live_record_def base_run_def

definition unwritten :: "(('p, 'w, 'r, 'v, 'j) session, 'a) step \<Rightarrow> bool" where
  "unwritten m \<longleftrightarrow> (\<forall>s r s'. m s = Some (r, s') \<longrightarrow> se_written s' = se_written s)"

lemma unwrittenI: "(\<And>s r s'. m s = Some (r, s') \<Longrightarrow> se_written s' = se_written s) \<Longrightarrow> unwritten m"
  unfolding unwritten_def by blast

lemma unwrittenD: "unwritten m \<Longrightarrow> m s = Some (r, s') \<Longrightarrow> se_written s' = se_written s"
  unfolding unwritten_def by blast

lemma unwritten_inert: "inert m \<Longrightarrow> unwritten m"
  by (rule unwrittenI) (drule (1) inertD, simp)

lemma unwritten_then_do: "unwritten m \<Longrightarrow> (\<And>x. unwritten (f x)) \<Longrightarrow> unwritten (then_do m f)"
proof (rule unwrittenI)
  fix s r s'
  assume m: "unwritten m" and f: "\<And>x. unwritten (f x)" and run: "then_do m f s = Some (r, s')"
  then obtain r1 s1 where r1: "m s = Some (r1, s1)" by (cases "m s") (auto simp: then_do_def)
  with run show "se_written s' = se_written s"
    using unwrittenD [OF m r1] unwrittenD [OF f, of _ s1 r s'] by (cases r1) (simp_all add: then_do_def)
qed

lemma unwritten_each: "(\<And>x. unwritten (f x)) \<Longrightarrow> unwritten (each f xs)"
  by (induction xs) (auto intro!: unwritten_then_do unwritten_inert [OF inert_basic(1)])

lemma unwritten_spawn: "unwritten (spawn_child ha binary parent vars name lbl target)"
  by (rule unwrittenI) (auto simp: spawn_child_def Let_def split: prod.splits sum.splits option.splits)

lemma unwritten_alter: "(\<And>s. se_written (f s) = se_written s) \<Longrightarrow> unwritten (alter f)"
  by (rule unwrittenI) (auto simp: alter_def)

lemma unwritten_charge: "unwritten (spawn_fake_charge ha parent dir u b entropy)"
  unfolding spawn_fake_charge_def
  by (intro unwritten_then_do unwritten_spawn unwritten_alter unwritten_inert [OF inert_basic(1)]) simp

lemma unwritten_processes:
  "unwritten (services be sc)" "unwritten (charge_service be sc)" "unwritten (worker be spec)"
  "unwritten (start_workers ha parent ctx per n)" "unwritten (kill_step be p)" "unwritten (stop be ps)"
  unfolding services_def start_services_def charge_service_def worker_def start_workers_def spawn_api_def spawn_worker_def
    kill_step_def stop_def stop_all_def
  by (intro unwritten_then_do unwritten_charge unwritten_each unwritten_spawn unwritten_alter unwritten_inert [OF inert_basic(1)]; simp)+

lemma unwritten_warmup: "unwritten (execution_warmup be sc conc n)"
  unfolding execution_warmup_def
  by (auto intro!: unwritten_then_do unwritten_processes intro: unwritten_inert inert_steps)

lemma written_then:
  assumes "unwritten m" "\<And>x. hoare (written runs) (f x) R (written runs)"
  shows "hoare (written runs) (then_do m f) R (written runs)"
  by (rule hoare_then_do [OF _ assms(2)], rule hoareI) (auto dest: unwrittenD [OF assms(1)] simp: written_def)

lemma services_written:
  assumes "\<And>charge api. hoare (written runs) (f charge api) R (written runs)"
  shows "hoare (written runs) (then_do (services be sc) (\<lambda>(charge, api). f charge api)) R (written runs)"
  by (rule written_then [OF unwritten_processes(1)]) (use assms in \<open>auto split: prod.split\<close>)

text \<open>The record comes last: after it a run can only stop its processes, which does not fail.\<close>

lemma record_last:
  assumes "run_label run = l"
  shows "hoare (written runs) (then_do (record_run be sc run) (\<lambda>_. stop be ps))
    (\<lambda>_ s. \<exists>run. run_label run = l \<and> written (runs @ [run]) s) (written runs)"
proof (rule hoare_then_do)
  show "hoare (written runs) (record_run be sc run) (\<lambda>_. written (runs @ [run])) (written runs)"
    by (rule hoareI) (auto simp: record_run_def write_run_def written_def split: sum.splits)
  show "hoare (written (runs @ [run])) (stop be ps) (\<lambda>_ s. \<exists>run. run_label run = l \<and> written (runs @ [run]) s) (written runs)"
    unfolding stop_def stop_all_def by (rule hoare_alter) (use assms in \<open>auto simp: written_def\<close>)
qed

lemmas written_steps = unwritten_processes unwritten_warmup unwritten_inert

lemma point_written:
  "hoare (written runs) (point_body be sc p)
     (\<lambda>_ s. \<exists>run. run_label run = planned_label (bl_lib (be_lib be)) p \<and> written (runs @ [run]) s) (written runs)"
proof -
  obtain point k where p: "p = (point, k)" by (cases p)
  note run = ingestion_point_def execution_point_def scaling_point_def retry_point_def backlog_point_def real_kill_point_def
    failpoint_point_def claim_batch_point_def idempotency_run_def
  show ?thesis
    unfolding p point_body_def prod.case
    by (cases point; simp only: bench_point.case run Let_def;
        rule written_then, rule unwritten_inert, rule inert_steps,
        (rule services_written | (rule written_then, rule unwritten_processes(2))),
        ((rule written_then, rule unwritten_processes unwritten_warmup)
          | (rule written_then, rule unwritten_inert, rule inert_steps))+,
        rule record_last, simp add: run_label_def planned_label_def record_defs Let_def)
qed

lemma scope_written:
  assumes "hoare (written runs) m Q (written runs)"
    and "\<And>u s h w. Q u s \<Longrightarrow> Q u (s\<lparr>se_os := w, se_held := h\<rparr>)"
  shows "hoare (written runs) (scoped ha m) Q (written runs)"
proof (rule hoareI)
  fix s u s'
  assume s: "written runs s" and run: "scoped ha m s = Some (Inr u, s')"
  then obtain s1 where m: "m (s\<lparr>se_held := []\<rparr>) = Some (Inr u, s1)"
    and s': "s' = s1\<lparr>se_os := fold (ha_drop ha) (se_held s1) (se_os s1), se_held := se_held s\<rparr>" by (auto simp: scoped_def)
  have "written runs (s\<lparr>se_held := []\<rparr>)" using s by (simp add: written_def)
  from hoareD(1) [OF assms(1) this m] show "Q u s'" unfolding s' by (rule assms(2))
next
  fix s e s'
  assume s: "written runs s" and run: "scoped ha m s = Some (Inl e, s')"
  then obtain s1 where m: "m (s\<lparr>se_held := []\<rparr>) = Some (Inl e, s1)"
    and s': "s' = s1\<lparr>se_os := fold (ha_drop ha) (se_held s1) (se_os s1), se_held := se_held s\<rparr>" by (auto simp: scoped_def)
  have "written runs (s\<lparr>se_held := []\<rparr>)" using s by (simp add: written_def)
  from hoareD(2) [OF assms(1) this m] show "written runs s'" by (simp add: s' written_def)
qed

lemma run_planned_written:
  "hoare (written runs) (run_planned be sc p)
     (\<lambda>_ s. \<exists>run. run_label run = planned_label (bl_lib (be_lib be)) p \<and> written (runs @ [run]) s) (written runs)"
  unfolding run_planned_def by (rule scope_written [OF point_written]) (auto simp: written_def)

text \<open>The runs that a plan has recorded when it ends are its first ones, and all of them when it ends well.\<close>

lemma run_plan_written:
  assumes "run_plan be scripts i plan s = Some (r, s')"
  shows "\<exists>runs k. se_written s' = se_written s @ runs \<and> k \<le> length plan
    \<and> map run_label runs = map (planned_label (bl_lib (be_lib be))) (take k plan) \<and> (k = length plan \<longleftrightarrow> r = Inr ())"
  using assms
proof (induction plan arbitrary: i s)
  case Nil
  then show ?case by (simp add: ret_def)
next
  case (Cons p plan)
  let ?label = "planned_label (bl_lib (be_lib be))"
  have w: "written (se_written s) s" by (simp add: written_def)
  note left = hoareD [OF run_planned_written w, of be "scripts i" p]
  obtain r1 s1 where r1: "run_planned be (scripts i) p s = Some (r1, s1)"
    using Cons.prems by (cases "run_planned be (scripts i) p s") (auto simp: then_do_def)
  show ?case
  proof (cases r1)
    case (Inl e)
    with Cons.prems r1 have "r = Inl e" "s' = s1" by (simp_all add: then_do_def)
    moreover have "se_written s1 = se_written s" using left(2) r1 Inl by (simp add: written_def)
    ultimately show ?thesis by (intro exI [of _ "[]"] exI [of _ 0]) simp
  next
    case (Inr u)
    then obtain run where run: "run_label run = ?label p" "se_written s1 = se_written s @ [run]"
      using left(1) r1 Inr by (auto simp: written_def)
    from Cons.prems r1 Inr have "run_plan be scripts (Suc i) plan s1 = Some (r, s')" by (simp add: then_do_def)
    from Cons.IH [OF this] obtain runs k where "se_written s' = se_written s1 @ runs" "k \<le> length plan"
      "map run_label runs = map ?label (take k plan)" "k = length plan \<longleftrightarrow> r = Inr ()" by blast
    with run show ?thesis by (intro exI [of _ "run # runs"] exI [of _ "Suc k"]) simp
  qed
qed

subsection \<open>The end of a run\<close>

definition ends :: "('s, 'a) step \<Rightarrow> bool" where
  "ends m \<longleftrightarrow> (\<forall>s. m s \<noteq> None)"

text \<open>The polls of a wait go on until the longest deadline of a scenario has passed.\<close>

definition polled_long_enough :: "(duration \<times> 'v db) list \<Rightarrow> bool" where
  "polled_long_enough polls \<longleftrightarrow> (\<exists>poll \<in> set polls. backlog_deadline \<le> fst poll)"

definition watched :: "('v, 'r, 'g) script \<Rightarrow> bool" where
  "watched sc \<longleftrightarrow> (\<forall>c db. polled_long_enough (lv_drain (sp_world sc c db)) \<and> polled_long_enough (lv_drain (sp_warm_world sc c db)))"

text \<open>A round of a loop takes time; every request of a run, and every probe of a service, is answered or fails.\<close>

definition timed :: "('v, 'r, 'g) script \<Rightarrow> bool" where
  "timed sc \<longleftrightarrow> (\<forall>k. 0 < sp_round_took sc k)"

definition heard :: "('v, 'r, 'g) script \<Rightarrow> bool" where
  "heard sc \<longleftrightarrow> (\<forall>site. \<not> sp_silent sc site) \<and> (\<forall>level. \<not> pc_silent (sp_requests sc level))"

definition probes_return :: "('p, 'w) harness \<Rightarrow> bool" where
  "probes_return ha \<longleftrightarrow> (\<forall>u t. ha_get ha u t \<noteq> None)"

lemma wait_for_drain_ends:
  assumes "polled_long_enough polls" "deadline \<le> backlog_deadline"
  shows "wait_for_drain deadline polls \<noteq> Inr None"
  using assms(1)
proof (induction polls)
  case (Cons poll polls)
  obtain t db where poll: "poll = (t, db)" by (cases poll)
  show ?case
  proof (cases "deadline \<le> t")
    case True
    then show ?thesis by (cases "queue_depth db") (simp_all add: poll)
  next
    case False
    with Cons.prems assms(2) have "polled_long_enough polls" by (auto simp: polled_long_enough_def poll)
    with Cons.IH show ?thesis by (cases "queue_depth db") (simp_all add: poll)
  qed
qed (simp add: polled_long_enough_def)

lemma ends_then_do: "ends m \<Longrightarrow> (\<And>x. ends (f x)) \<Longrightarrow> ends (then_do m f)"
  unfolding ends_def then_do_def by (auto split: option.split sum.split)

lemma ends_prod: "(\<And>a b. ends (f a b)) \<Longrightarrow> ends (case x of (a, b) \<Rightarrow> f a b)"
  by (cases x) simp

lemma ends_basic:
  "ends (ret x)" "ends (look f)" "ends (alter g)" "ends (or_error r)" "ends (db_step h)"
  by (auto simp: ends_def ret_def look_def alter_def or_error_def db_step_def split: sum.split)

lemma ends_awaiting: "\<not> silent \<Longrightarrow> ends m \<Longrightarrow> ends (awaiting silent m)"
  by (simp add: awaiting_def)

lemma ends_chaos: "\<not> silent \<Longrightarrow> ends (chaos_step silent c)"
  unfolding chaos_step_def by (erule ends_awaiting) (simp add: ends_def split: prod.split)

lemma ends_ok_of: "ends m \<Longrightarrow> ends (ok_of m)"
  by (auto simp: ends_def ok_of_def split: option.split sum.split)

lemma ends_each: "(\<And>x. ends (f x)) \<Longrightarrow> ends (each f xs)"
  by (induction xs) (auto intro!: ends_then_do ends_basic)

lemma ends_spawn:
  assumes "clock_ok ha" "probes_return ha"
  shows "ends (spawn_child ha binary parent vars name lbl target)"
proof -
  have some: "wait_for_http_ok ha target ready_timeout now \<noteq> None" for now
    using probe_until_ends [OF assms(1), of target "now + ready_timeout" now] assms(2) by (auto simp: wait_for_http_ok_def probes_return_def)
  show ?thesis
    unfolding ends_def
  proof
    fix s show "spawn_child ha binary parent vars name lbl target s \<noteq> None"
      using some [of "se_now s"] by (auto simp: spawn_child_def Let_def split: prod.splits sum.splits option.splits)
  qed
qed

lemmas ends_composed = ends_then_do ends_prod ends_each ends_ok_of ends_spawn

lemma ends_processes:
  assumes "clock_ok (be_harness be)" "probes_return (be_harness be)"
  shows "ends (services be sc)" "ends (charge_service be sc)" "ends (worker be spec)"
    "ends (start_workers (be_harness be) parent ctx per n)" "ends (stop be ps)" "ends (kill_step be p)"
  unfolding services_def start_services_def charge_service_def worker_def start_workers_def spawn_fake_charge_def spawn_api_def
    spawn_worker_def stop_def stop_all_def kill_step_def
  using assms
  by (intro ends_composed ends_basic; simp)+

lemma ends_record: "ends (record_run be sc run)"
  by (simp add: ends_def record_run_def write_run_def split: sum.split)

text \<open>The loop of the failpoint scenario ends at its deadline: every round takes time, and so does the sleep between two.\<close>

lemma ends_failpoint_loop:
  assumes "clock_ok (be_harness be)" "timed sc" "heard sc"
  shows "ends (failpoint_loop be sc name ids)"
proof -
  have "rounds_take_time (sp_round_took sc) (ha_sleep (be_harness be))"
    using assms(1,2) by (simp add: rounds_take_time_def clock_ok_def timed_def)
  note rounds_end = failpoint_rounds_ends [OF this order_refl]
  show ?thesis
    unfolding failpoint_loop_def
    by (rule ends_awaiting)
      (use assms(3) rounds_end in \<open>auto simp: heard_def ends_def split: option.split sum.split prod.split\<close>)
qed

lemma ends_idempotency: "\<not> pc_silent pc \<Longrightarrow> ends (idempotency_requests be k pc)"
  unfolding idempotency_requests_def by (erule ends_awaiting) (simp add: ends_def split: prod.split)

lemma ends_simple:
  "ends (watch world)" "ends reset_tables" "ends (db_read f)" "ends (pass_time took1)" "ends (seconds_since t)"
  unfolding watch_def reset_tables_def db_read_def pass_time_def seconds_since_def by (intro ends_composed ends_basic)+

lemma ends_requests:
  "\<not> silent \<Longrightarrow> ends (submit_step bl silent scenario start mx calls took)"
  "\<not> silent \<Longrightarrow> ends (delay_control be silent d ms)"
  "\<not> silent \<Longrightarrow> ends (retry_setup env sd silent d rate n)"
  "\<not> silent \<Longrightarrow> ends (kill_setup env sd silent d)"
  unfolding submit_step_def pass_time_def delay_control_def retry_setup_def kill_setup_def
  by (intro ends_composed ends_basic ends_awaiting ends_chaos; assumption)+

lemma ends_heard:
  assumes "heard sc"
  shows "ends (submit_step bl (sp_silent sc site) scenario start mx calls took)" "ends (delay_control be (sp_silent sc site) d ms)"
    "ends (retry_setup env sd (sp_silent sc site) d rate n)" "ends (kill_setup env sd (sp_silent sc site) d)"
    "ends (inflight_reset be sc)" "ends (observed_peak be sc)" "ends (idempotency_requests be k (sp_requests sc level))"
    "ends (if c then submit_step bl (sp_silent sc site) scenario start mx calls took else ret [])"
  unfolding inflight_reset_def observed_peak_def using assms
  by (auto simp: heard_def intro!: ends_requests ends_chaos ends_ok_of ends_idempotency ends_basic)

lemma ends_drain:
  assumes "watched sc" "deadline \<le> backlog_deadline"
  shows "ends (drain deadline (sp_world sc))" "ends (drain deadline (sp_warm_world sc))"
proof -
  have "drain deadline w s \<noteq> None" if "\<And>c db. polled_long_enough (lv_drain (w c db))" for w :: "('a, 'b) world" and s :: "('p, 'w, 'b, 'a, 'j) session"
    using wait_for_drain_ends [OF that assms(2)]
    by (auto simp: drain_def watch_def then_do_def look_def alter_def ret_def polled_def split: sum.split option.split)
  with assms(1) show "ends (drain deadline (sp_world sc))" "ends (drain deadline (sp_warm_world sc))"
    unfolding ends_def watched_def by blast+
qed

lemma deadlines: "execution_deadline \<le> backlog_deadline" "scaling_deadline \<le> backlog_deadline" "retry_deadline \<le> backlog_deadline"
  "kill_deadline \<le> backlog_deadline"
  by (simp_all add: execution_deadline_def scaling_deadline_def retry_deadline_def kill_deadline_def backlog_deadline_def from_secs_def)

lemma ends_watched:
  assumes "watched sc"
  shows "ends (drain execution_deadline (sp_world sc))" "ends (drain scaling_deadline (sp_world sc))"
    "ends (drain retry_deadline (sp_world sc))" "ends (drain kill_deadline (sp_world sc))"
    "ends (ok_of (drain execution_deadline (sp_warm_world sc)))"
  using ends_drain [OF assms] deadlines by (auto intro: ends_ok_of)

lemma ends_warmup:
  assumes "clock_ok (be_harness be)" "probes_return (be_harness be)" "watched sc" "heard sc"
  shows "ends (execution_warmup be sc conc n)"
proof (cases "0 < n")
  case True
  then show ?thesis
    unfolding execution_warmup_def
    by (simp only: if_True)
      (intro ends_then_do ends_heard [OF assms(4)] ends_processes [OF assms(1,2)] ends_watched [OF assms(3)])
qed (simp add: execution_warmup_def ends_basic)

text \<open>The loop of the backlog scenario looks at its polls twice.\<close>

lemma ends_watch_polled:
  assumes "watched sc" "deadline \<le> backlog_deadline" "\<And>polls x. ends (f polls x)"
  shows "ends (then_do (watch (sp_world sc)) (\<lambda>polls. then_do (polled (wait_for_drain deadline polls)) (f polls)))"
proof -
  have "then_do (watch (sp_world sc)) (\<lambda>polls. then_do (polled (wait_for_drain deadline polls)) (f polls)) s \<noteq> None" for s
  proof -
    let ?l = "sp_world sc (se_chaos s) (se_db s)"
    have "wait_for_drain deadline (lv_drain ?l) \<noteq> Inr None"
      using assms(1) by (intro wait_for_drain_ends [OF _ assms(2)]) (simp add: watched_def)
    then show ?thesis
      using assms(3) by (auto simp: watch_def then_do_def look_def alter_def ret_def polled_def ends_def split: sum.split option.split)
  qed
  then show ?thesis by (simp add: ends_def)
qed

lemma point_ends:
  assumes "clock_ok (be_harness be)" "probes_return (be_harness be)" "watched sc" "heard sc" "timed sc"
    and "\<And>batch n. point \<noteq> ClaimBatchPoint batch n"
  shows "ends (point_body be sc (point, k))"
proof -
  note steps = ends_simple ends_basic(1-3,5) ends_processes [OF assms(1,2)] ends_record ends_heard [OF assms(4)]
    ends_watched [OF assms(3)] ends_warmup [OF assms(1-4)] ends_failpoint_loop [OF assms(1,5,4)]
  note composed = ends_watch_polled [OF assms(3) order_refl] ends_then_do ends_prod
  note run = ingestion_point_def execution_point_def scaling_point_def retry_point_def backlog_point_def real_kill_point_def
    failpoint_point_def idempotency_run_def
  show ?thesis
    using assms(6)
    by (cases point; simp only: point_body_def prod.case bench_point.case run Let_def; intro composed steps; simp)
qed

lemma run_planned_ends:
  assumes "clock_ok (be_harness be)" "probes_return (be_harness be)" "watched sc" "heard sc" "timed sc"
    and "\<And>batch n. fst p \<noteq> ClaimBatchPoint batch n"
  shows "ends (run_planned be sc p)"
  using point_ends [OF assms(1-5), of "fst p" "snd p"] assms(6) by (simp add: run_planned_def scoped_def ends_def)

end
