(* ===== verification/CommandSamples.thy ===== *)
theory CommandSamples
  imports BenchRecords BenchSamples
begin

section \<open>Concrete runs of the benchmark for the witnesses\<close>

text \<open>
  A benchmark on a machine whose services answer at once, with the sample services and worker, and a script on which nothing is lost.
\<close>

definition sample_bench :: "(charge_payload, string) bench_lib" where
  "sample_bench =
     \<lparr>bl_api = \<lparr>ba_env = sample_api, ba_payload = (\<lambda>pl. pl), ba_read_id = (\<lambda>resp. Some (sub_id resp))\<rparr>,
      bl_lib = sample_report, bl_show_uuid = sample_show_uuid, bl_show_f0 = (\<lambda>q. []), bl_host = sample_host\<rparr>"

definition sample_submit :: "uuid \<Rightarrow> exchange \<Rightarrow> submit_call" where
  "sample_submit i e = \<lparr>sm_now = 100, sm_id = i, sm_ms = 3, sm_exchange = e\<rparr>"

lemma sample_bench_ok: "api_ok (bl_api sample_bench)"
  by (simp add: api_ok_def sample_bench_def sample_api_def sample_payload_texts)

definition sample_machine :: "(nat, nat \<times> nat set) harness" where
  "sample_machine = sample_harness\<lparr>ha_get := (\<lambda>u t. Some (Some 200, t + 1000))\<rparr>"

definition sample_running_on :: "nat \<Rightarrow> nat \<times> nat set \<Rightarrow> bool" where
  "sample_running_on p w \<longleftrightarrow> p \<in> snd w"

lemma sample_machine_ok: "os_ok sample_machine sample_running_on"
  unfolding os_ok_def by (auto simp: sample_machine_def sample_harness_def sample_running_on_def)

lemma sample_machine_clock: "clock_ok sample_machine"
  by (simp add: clock_ok_def sample_machine_def sample_harness_def)

definition sample_ctx :: scenario_ctx where
  "sample_ctx =
     \<lparr>sx_database_url = ''postgres://db'', sx_binary_dir = ''bin'', sx_api_bind = ''a:1'', sx_fake_charge_bind = ''c:1'',
      sx_worker_metrics_base_port = 9100\<rparr>"

definition sample_command :: "(nat, nat \<times> nat set, string, charge_payload, nat, nat, string) bench" where
  "sample_command =
     \<lparr>be_harness = sample_machine, be_parent = (\<lambda>k. NotPresent), be_ctx = sample_ctx, be_lib = sample_bench,
      be_client = sample_client, be_seed = (\<lambda>n. n), be_worker = sample_worker, be_encode = (\<lambda>pl. pl),
      be_show_time = (\<lambda>t. ''now'')\<rparr>"

definition sample_machine_host :: host where
  "sample_machine_host =
     \<lparr>ho_run = (\<lambda>c args. None), ho_read = (\<lambda>f. None), ho_parse_f64 = (\<lambda>s. None), ho_macos = False, ho_os = ''linux'',
      ho_arch = ''x86_64'', ho_parallelism = Some 8\<rparr>"

definition sample_script :: "(charge_payload, nat, nat) script" where
  "sample_script =
     \<lparr>sp_entropy = 0, sp_silent = (\<lambda>site. False), sp_control = Delivered, sp_control_again = Delivered, sp_reset = Delivered, sp_peak = Delivered,
      sp_warm_calls = (\<lambda>n. [(0, sample_submit 1 Answered)]), sp_warm_took = from_secs 1,
      sp_warm_world = (\<lambda>c db. \<lparr>lv_drain = [(backlog_deadline, db)], lv_final = db, lv_chaos = c, lv_took = from_secs 1\<rparr>),
      sp_calls = (\<lambda>n. [(1, sample_submit 2 AnswerLost), (0, sample_submit 3 Answered), (2, sample_submit 4 RequestLost)]),
      sp_took = from_secs 2,
      sp_world = (\<lambda>c db. \<lparr>lv_drain = [(backlog_deadline, db)], lv_final = db, lv_chaos = c, lv_took = from_secs 1\<rparr>),
      sp_kill_world = (\<lambda>c db. \<lparr>lv_drain = [], lv_final = db, lv_chaos = c, lv_took = 0\<rparr>),
      sp_size_before = (\<lambda>name. Inl ''no size''), sp_size_after = (\<lambda>name. Inl ''no size''), sp_lsn_before = Inl ''no position'',
      sp_lsn_now = Inl ''no position'', sp_lsn_diff = (\<lambda>a b. Inl ''no difference''),
      sp_samples = (\<lambda>l. []), sp_host = sample_machine_host, sp_seeds = (\<lambda>n. []),
      sp_schedule = \<lparr>sc_now = (\<lambda>j. 500), sc_tok = (\<lambda>j i. 56), sc_exec = (\<lambda>j i. (600, 0))\<rparr>, sp_rounds = 1,
      sp_round_took = (\<lambda>j. 1000), sp_rng = 0,
      sp_claim_ms = (\<lambda>j. 1), sp_requests = (\<lambda>n. sample_calls), sp_now = 5, sp_write = Inr ()\<rparr>"

definition sample_session :: "(nat, nat \<times> nat set, nat, charge_payload, string) session" where
  "sample_session =
     \<lparr>se_now = 0, se_os = (3, {1, 2}), se_held = [], se_chaos = default_chaos 0, se_control = False, se_db = sample_done_db,
      se_written = []\<rparr>"

text \<open>Services that come up at the first request.\<close>

definition comes_up :: "('p, 'w) harness \<Rightarrow> bool" where
  "comes_up ha \<longleftrightarrow> (\<forall>b e w. \<exists>p w'. ha_spawn ha b e w = (Inr p, w')) \<and> (\<forall>u t. \<exists>reply t'. ha_get ha u t = Some (reply, t') \<and> answered reply)"

lemma sample_machine_up: "comes_up sample_machine"
  by (auto simp: comes_up_def sample_machine_def sample_harness_def answered_def is_success_def)

end
