(* ===== verification/ScenarioProps.thy ===== *)
theory ScenarioProps
  imports BenchTables CommandSamples
begin

section \<open>Properties of the live scenarios\<close>

text \<open>
  The benchmark scenarios of \<open>BenchPoints\<close>: ingestion and idempotency, which need no worker, in full, and the measurements of those
  with workers against any run of the system.
\<close>

subsection \<open>Ingestion\<close>

lemma gate_accepts_unfinished:
  assumes "db_inv db" "charges_inv db" "db_up db" "distinct ids" "set ids \<subseteq> jid ` set (jobs db)"
  shows "\<exists>g. run_gate show_uuid show_f0 \<lparr>gi_tracked_ids = ids, gi_expect_all_terminal = expected, gi_worker_capacity = capacity,
       gi_observed_peak_inflight = peak, gi_latency_samples_ms = samples, gi_measurement_window_secs = window\<rparr> db = Inr g
    \<and> gr_failures g = snd (gate_terminal expected (gate_found ids db)) @ snd (gate_capacity capacity peak)
        @ snd (gate_latency show_f0 samples window)
    \<and> gr_passed g = (gr_failures g = [])"
proof -
  have "snd (gate_all_found ids (gate_found ids db)) = []"
    using gate_found_length [OF assms(1,4,5)] by (simp add: gate_all_found_def bool_check_ok)
  with gate_found_budget [OF assms(1), of ids] gate_charges_ok [OF assms(2), of show_uuid ids]
    gate_single_success_ok [OF assms(1), of ids] assms(3)
  show ?thesis by (simp add: run_gate_def query_def Let_def)
qed

lemma ingestion_tables:
  assumes "api_ok (bl_api bl)" "db_up db" "calls_ok 0 warm empty_db" "calls_ok n calls empty_db"
    and "(sm_id \<circ> snd) ` set warm \<inter> (sm_id \<circ> snd) ` set calls = {}"
  obtains db2 g where "submit_many (bl_api bl) ''ingestion'' n 5 calls
      (snd (submit_many (bl_api bl) ''ingestion-warmup'' 0 5 warm (db\<lparr>jobs := [], job_attempts := [], charges := []\<rparr>)))
        = (map outcome_of calls, db2)"
    "ingestion_gate bl (map outcome_of calls) db2 = Inr g" "gr_passed g"
    "set (answered_ids calls) \<subseteq> jid ` set (jobs db2)"
    "map jid (jobs db2) = map (sm_id \<circ> snd) (filter arrived warm @ filter arrived calls)"
    "list_all (\<lambda>r. status r = as_db_str Pending \<and> attempts r = 0 \<and> max_attempts r = 5) (jobs db2)"
proof -
  let ?ba = "bl_api bl" and ?db0 = "db\<lparr>jobs := [], job_attempts := [], charges := []\<rparr>"
  let ?rows1 = "map (\<lambda>(i, c). bench_row ?ba ''ingestion-warmup'' 5 (0 + i, c)) (filter arrived warm)"
  let ?rows2 = "map (\<lambda>(i, c). bench_row ?ba ''ingestion'' 5 (n + i, c)) (filter arrived calls)"
  let ?db2 = "db\<lparr>jobs := ?rows1 @ ?rows2, job_attempts := [], charges := []\<rparr>" and ?ids = "answered_ids calls"
  have sub: "submit_many ?ba ''ingestion'' n 5 calls (snd (submit_many ?ba ''ingestion-warmup'' 0 5 warm ?db0))
      = (map outcome_of calls, ?db2)"
    by (subst submit_twice) (use assms in \<open>simp_all add: scenario_name_def\<close>)
  have ids: "map jid (?rows1 @ ?rows2) = map (sm_id \<circ> snd) (filter arrived warm @ filter arrived calls)"
    unfolding map_append submitted_jids ..
  have "distinct (map (sm_id \<circ> snd) (warm @ calls))" using assms(3-5) by (simp add: calls_ok_def)
  then have dist: "distinct (map jid (?rows1 @ ?rows2))" unfolding ids by (metis distinct_map_filter filter_append)
  have new: "new_jobs 5 (?rows1 @ ?rows2)"
    using bench_rows_new [of 5 ?ba "''ingestion-warmup''" 0 "filter arrived warm"] bench_rows_new [of 5 ?ba "''ingestion''" n "filter arrived calls"]
    by (simp add: new_jobs_def)
  note inv = new_jobs_inv [OF new dist, of db]
  have "distinct ?ids" using assms(4) by (simp add: calls_ok_def answered_ids_def distinct_map_filter)
  moreover have tracked: "set ?ids \<subseteq> jid ` set (?rows1 @ ?rows2)"
    unfolding set_map [symmetric] ids by (auto simp: answered_ids_def arrived_def)
  moreover have "db_up ?db2" using assms(2) by simp
  ultimately obtain g where g: "ingestion_gate bl (map outcome_of calls) ?db2 = Inr g" "gr_passed g"
    using gate_accepts_unfinished [OF inv, of ?ids "bl_show_uuid bl" "bl_show_f0 bl" False None None "[]" 0]
    by (auto simp: ingestion_gate_def tracked_outcomes gate_terminal_def gate_capacity_def gate_latency_def)
  have "list_all (\<lambda>r. status r = as_db_str Pending \<and> attempts r = 0 \<and> max_attempts r = 5) (jobs ?db2)"
    using new by (simp add: new_jobs_def list_all_iff)
  with sub g tracked ids show thesis by (intro that [of ?db2 g]) simp_all
qed

lemma spawn_child_up:
  assumes "comes_up ha"
  obtains p s' where "spawn_child ha binary parent vars name lbl target s = Some (Inr p, s')" "se_db s' = se_db s"
    "se_written s' = se_written s"
proof -
  obtain p w where sp: "ha_spawn ha binary (with_vars parent vars) (se_os s) = (Inr p, w)" using assms by (meson comes_up_def)
  obtain reply t where g: "ha_get ha target (se_now s) = Some (reply, t)" "answered reply" using assms by (meson comes_up_def)
  then have "wait_for_http_ok ha target ready_timeout (se_now s) = Some (Inr t)"
    by (simp add: wait_for_http_ok_def probe_until.simps answered_def)
  with sp that show thesis by (simp add: spawn_child_def Let_def)
qed

lemma services_up:
  assumes "comes_up (be_harness be)"
  obtains charge api s' where "services be sc s = Some (Inr (charge, api), s')" "se_db s' = se_db s" "se_written s' = se_written s"
proof -
  let ?ha = "be_harness be" and ?ctx = "be_ctx be"
  obtain charge s1 where s1: "spawn_child ?ha (ha_join ?ha (sx_binary_dir ?ctx) ''fake-charge'') (be_parent be)
      (fake_charge_vars (sx_database_url ?ctx) (sx_fake_charge_bind ?ctx)) ''fake-charge'' ''fake_charge''
      (''http://'' @ sx_fake_charge_bind ?ctx @ ''/v1/test/inflight'') s = Some (Inr charge, s1)"
    "se_db s1 = se_db s" "se_written s1 = se_written s" by (rule spawn_child_up [OF assms])
  let ?s2 = "s1\<lparr>se_chaos := default_chaos (sp_entropy sc),
    se_control := test_control_enabled (with_vars (be_parent be) (fake_charge_vars (sx_database_url ?ctx) (sx_fake_charge_bind ?ctx)))\<rparr>"
  obtain api s3 where s3: "spawn_child ?ha (ha_join ?ha (sx_binary_dir ?ctx) ''reliableq-api'') (be_parent be)
      (api_vars (sx_database_url ?ctx) (sx_api_bind ?ctx)) ''reliableq-api'' ''api''
      (''http://'' @ sx_api_bind ?ctx @ ''/health/ready'') ?s2 = Some (Inr api, s3)"
    "se_db s3 = se_db ?s2" "se_written s3 = se_written ?s2" by (rule spawn_child_up [OF assms])
  show thesis
    by (rule that [of charge api s3])
      (use s1 s3 in \<open>simp_all add: services_def start_services_def spawn_fake_charge_def spawn_api_def then_do_def alter_def ret_def\<close>)
qed

text \<open>What the record says was committed.\<close>

lemma ingestion_extra:
  obtains fields where "rr_extra (ingestion_record bl now conc k warmup_secs elapsed outcomes g) = rl_json (bl_lib bl) fields"
    "map_of fields ''committed_submissions'' = Some (JNat (length (tracked outcomes)))"
    "map_of fields ''committed_submissions_per_sec'' = Some (JRat (throughput_per_sec (length (tracked outcomes)) elapsed))"
proof -
  show thesis by (rule that, simp add: ingestion_record_def Let_def, (rule refl)?, simp_all)
qed

text \<open>C32. The ingestion scenario measures what was committed. With services that come up, a database that can be reached, a file
  that can be written and no request that is waited for in vain, a whole run of it, whatever the order in which the requests are
  served and whatever is lost on the way, ends well with one record more, which passes the gate; the committed submissions of the
  record are as many as were answered, each stored as a pending job, and their rate is that number over the measured time; the
  others are counted as errors; and the tables hold exactly one new pending job for every request, of the warm-up and of the
  measurement, that reached the service.\<close>

theorem ingestion_counts_committed_jobs:
  assumes "comes_up (be_harness be)" "sp_write sc = Inr ()" "api_ok (bl_api (be_lib be))" "db_up (se_db s)"
    and "warm = sp_warm_calls sc n" "calls = sp_calls sc m" "calls_ok 0 warm empty_db" "calls_ok n calls empty_db"
    and "(sm_id \<circ> snd) ` set warm \<inter> (sm_id \<circ> snd) ` set calls = {}"
    and "\<not> sp_silent sc WarmupJobs" "\<not> sp_silent sc MeasuredJobs"
  shows "\<exists>run s' fields. ingestion_point be sc conc m n k s = Some (Inr (), s') \<and> se_written s' = se_written s @ [run]
    \<and> cr_passed (rr_correctness_results run)
    \<and> rr_job_count run = length calls
    \<and> rr_extra run = rl_json (bl_lib (be_lib be)) fields
    \<and> map_of fields ''committed_submissions'' = Some (JNat (length (answered_ids calls)))
    \<and> map_of fields ''committed_submissions_per_sec''
        = Some (JRat (throughput_per_sec (length (answered_ids calls)) (as_secs_f64 (sp_took sc))))
    \<and> ec_http_errors (rr_error_counts run) = length calls - length (answered_ids calls)
    \<and> set (answered_ids calls) \<subseteq> jid ` set (jobs (se_db s'))
    \<and> map jid (jobs (se_db s')) = map (sm_id \<circ> snd) (filter arrived warm @ filter arrived calls)
    \<and> list_all (\<lambda>r. status r = as_db_str Pending \<and> attempts r = 0 \<and> max_attempts r = 5) (jobs (se_db s'))"
proof -
  let ?bl = "be_lib be" and ?db0 = "(se_db s)\<lparr>jobs := [], job_attempts := [], charges := []\<rparr>"
  obtain db2 g where sub: "submit_many (bl_api ?bl) ''ingestion'' n 5 calls (snd (submit_many (bl_api ?bl) ''ingestion-warmup'' 0 5 warm ?db0))
      = (map outcome_of calls, db2)"
    and g: "ingestion_gate ?bl (map outcome_of calls) db2 = Inr g" "gr_passed g"
    and db2: "set (answered_ids calls) \<subseteq> jid ` set (jobs db2)"
      "map jid (jobs db2) = map (sm_id \<circ> snd) (filter arrived warm @ filter arrived calls)"
      "list_all (\<lambda>r. status r = as_db_str Pending \<and> attempts r = 0 \<and> max_attempts r = 5) (jobs db2)"
    by (rule ingestion_tables [OF assms(3,4,7-9)])
  obtain db1 where warm: "snd (submit_many (bl_api ?bl) ''ingestion-warmup'' 0 5 warm ?db0) = db1" by simp
  obtain charge api s1 where s1: "services be sc (s\<lparr>se_db := ?db0\<rparr>) = Some (Inr (charge, api), s1)"
    "se_db s1 = ?db0" "se_written s1 = se_written s" by (rule services_up [OF assms(1), of sc "s\<lparr>se_db := ?db0\<rparr>"]) simp
  have reset: "reset_tables s = Some (Inr (), s\<lparr>se_db := ?db0\<rparr>)"
    using assms(4) by (simp add: reset_tables_def db_step_def reset_database_def query_def)
  let ?run = "ingestion_record ?bl (sp_now sc) conc k (as_secs_f64 (sp_warm_took sc)) (as_secs_f64 (sp_took sc)) (map outcome_of calls) g"
  have "\<exists>s'. ingestion_point be sc conc m n k s = Some (Inr (), s') \<and> se_written s' = se_written s @ [?run] \<and> se_db s' = db2"
    using sub g(1) s1(2,3) assms(2) warm
    by (simp add: ingestion_point_def then_do_def reset s1(1) look_def submit_step_def alter_def pass_time_def seconds_since_def
        ret_def db_read_def or_error_def record_run_def write_run_def stop_def stop_all_def split_beta assms(5,6) [symmetric]
        awaiting_def assms(10,11))
  moreover have "cr_passed (rr_correctness_results ?run) \<and> rr_job_count ?run = length calls
      \<and> ec_http_errors (rr_error_counts ?run) = length calls - length (answered_ids calls)"
    using g(2) by (simp add: ingestion_record_def Let_def gate_correctness_def http_errors_def tracked_outcomes)
  moreover obtain fields where "rr_extra ?run = rl_json (bl_lib ?bl) fields"
    "map_of fields ''committed_submissions'' = Some (JNat (length (answered_ids calls)))"
    "map_of fields ''committed_submissions_per_sec''
      = Some (JRat (throughput_per_sec (length (answered_ids calls)) (as_secs_f64 (sp_took sc))))"
    by (rule ingestion_extra [of ?bl "sp_now sc" conc k "as_secs_f64 (sp_warm_took sc)" "as_secs_f64 (sp_took sc)" "map outcome_of calls" g])
      (simp add: tracked_outcomes)
  ultimately show ?thesis using db2 by blast
qed

theorem ingestion_counts_committed_jobs_witness:
  "\<exists>run s'. ingestion_point sample_command sample_script 4 3 1 1 sample_session = Some (Inr (), s') \<and> se_written s' = [run]
    \<and> cr_passed (rr_correctness_results run) \<and> ec_http_errors (rr_error_counts run) = 2
    \<and> (\<exists>fields. rr_extra run = rl_json sample_report fields \<and> map_of fields ''committed_submissions'' = Some (JNat 1))
    \<and> map jid (jobs (se_db s')) = [1, 2, 3]"
proof -
  have up: "comes_up (be_harness sample_command)" using sample_machine_up by (simp add: sample_command_def)
  have api: "api_ok (bl_api (be_lib sample_command))" using sample_bench_ok by (simp add: sample_command_def)
  have db: "db_up (se_db sample_session)"
    by (simp add: sample_session_def sample_done_db_def sample_charged_db_def sample_running_db_def)
  have wr: "sp_write sample_script = Inr ()" by (simp add: sample_script_def)
  have ok: "calls_ok 0 (sp_warm_calls sample_script 1) (empty_db :: charge_payload db)"
    "calls_ok 1 (sp_calls sample_script 3) (empty_db :: charge_payload db)"
    by (simp_all add: calls_ok_def sample_submit_def sample_script_def)
  have apart: "(sm_id \<circ> snd) ` set (sp_warm_calls sample_script 1) \<inter> (sm_id \<circ> snd) ` set (sp_calls sample_script 3) = {}"
    and heard: "\<not> sp_silent sample_script WarmupJobs" "\<not> sp_silent sample_script MeasuredJobs"
    by (simp_all add: sample_submit_def sample_script_def)
  have vals: "answered_ids (sp_calls sample_script 3) = [3]" "length (sp_calls sample_script 3) = 3" "length [3 :: uuid] = 1"
    "map (sm_id \<circ> snd) (filter arrived (sp_warm_calls sample_script 1) @ filter arrived (sp_calls sample_script 3)) = [1, 2, 3]"
    "se_written sample_session @ xs = xs" "bl_lib (be_lib sample_command) = sample_report" for xs
    by (simp_all add: sample_submit_def arrived_def answered_ids_def sample_script_def sample_session_def sample_command_def sample_bench_def)
  show ?thesis
    using ingestion_counts_committed_jobs [OF up wr api db refl refl ok apart heard, where conc = 4 and k = 1, unfolded vals]
    by (elim exE conjE, intro exI conjI; (assumption | simp))
qed

subsection \<open>Idempotency\<close>

lemma charge_service_up:
  assumes "comes_up (be_harness be)"
  obtains charge s' where "charge_service be sc s = Some (Inr charge, s')" "se_db s' = se_db s" "se_written s' = se_written s"
    "se_chaos s' = default_chaos (sp_entropy sc)"
proof -
  let ?ha = "be_harness be" and ?ctx = "be_ctx be"
  obtain charge s1 where s1: "spawn_child ?ha (ha_join ?ha (sx_binary_dir ?ctx) ''fake-charge'') (be_parent be)
      (fake_charge_vars (sx_database_url ?ctx) (sx_fake_charge_bind ?ctx)) ''fake-charge'' ''fake_charge''
      (''http://'' @ sx_fake_charge_bind ?ctx @ ''/v1/test/inflight'') s = Some (Inr charge, s1)"
    "se_db s1 = se_db s" "se_written s1 = se_written s" by (rule spawn_child_up [OF assms])
  show thesis
    by (rule that [of charge "s1\<lparr>se_chaos := default_chaos (sp_entropy sc), se_control := test_control_enabled
            (with_vars (be_parent be) (fake_charge_vars (sx_database_url ?ctx) (sx_fake_charge_bind ?ctx)))\<rparr>"])
      (use s1 in \<open>simp_all add: charge_service_def spawn_fake_charge_def then_do_def alter_def ret_def\<close>)
qed

text \<open>C27. The idempotency scenario passes on the charge service: with a service that comes up, every request delivered and the ids it
  takes new, a whole run of it ends well and records that it passed; whatever the order in which the concurrent requests are served,
  exactly one of those that share a key is created and the others are replays, every unique request is created, and the replay and
  the conflict are answered as expected.\<close>

theorem idempotency_scenario_passes:
  assumes "comes_up (be_harness be)" "sp_write sc = Inr ()" "client_ok (be_client be)" "db_up (se_db s)"
    and "pc = sp_requests sc level" "1 \<le> level" "all_delivered pc" "distinct (point_ids pc)"
    and "length (pc_shared pc) = level" "distinct (map fst (pc_unique pc))" "set (map fst (pc_unique pc)) = {0 ..< level}"
  shows "\<exists>m run s'. idempotency_run be sc level k s = Some (Inr (), s') \<and> se_written s' = se_written s @ [run]
    \<and> run = point_result (bl_lib (be_lib be)) (sp_now sc) (bl_host (be_lib be)) level k (pc_elapsed pc) m
    \<and> pm_created m = 1 \<and> pm_replayed m = level - 1 \<and> pm_other m = 0 \<and> length (pm_unique_latencies m) = level
    \<and> cr_passed (rr_correctness_results run) \<and> cr_failures (rr_correctness_results run) = []"
proof -
  let ?db0 = "(se_db s)\<lparr>jobs := [], job_attempts := [], charges := []\<rparr>" and ?chaos = "default_chaos (sp_entropy sc)"
  have reset: "reset_tables s = Some (Inr (), s\<lparr>se_db := ?db0\<rparr>)"
    using assms(4) by (simp add: reset_tables_def db_step_def reset_database_def query_def)
  obtain charge s1 where s1: "charge_service be sc (s\<lparr>se_db := ?db0\<rparr>) = Some (Inr charge, s1)"
    "se_db s1 = ?db0" "se_written s1 = se_written s" "se_chaos s1 = ?chaos"
    by (rule charge_service_up [OF assms(1), of sc "s\<lparr>se_db := ?db0\<rparr>"]) simp
  have "serving (?chaos, ?db0)" "charges (snd (?chaos, ?db0)) = []"
    using assms(4) by (simp_all add: serving_def default_chaos_def)
  moreover obtain c cs where sh: "pc_shared pc = c # cs" using assms(6,9) by (cases "pc_shared pc") auto
  ultimately obtain m after where m: "measure_point (be_client be) k pc (?chaos, ?db0) = (m, after)" "point_passed m"
    "pm_created m = 1" "pm_replayed m = length cs" "pm_other m = 0" "length (pm_unique_latencies m) = length (pc_unique pc)"
    using measure_point_passes [OF assms(3) _ _ sh assms(7,10,8)] by blast
  have heard_calls: "\<not> pc_silent pc" using assms(7) by (simp add: all_delivered_def)
  have n: "length (pc_unique pc) = level" using assms(10,11) by (metis card_atLeastLessThan diff_zero distinct_card length_map)
  have "length cs = level - 1" using assms(9) sh by simp
  moreover obtain chaos2 db2 where after: "after = (chaos2, db2)" by (cases after)
  ultimately show ?thesis
    using m n s1 assms(2)
    by (intro exI [of _ m])
      (simp add: idempotency_run_def then_do_def reset idempotency_requests_def assms(5) [symmetric] record_run_def write_run_def
        stop_def stop_all_def alter_def Let_def awaiting_def heard_calls, simp add: point_result_def)
qed

theorem idempotency_scenario_passes_witness:
  "\<exists>run s'. idempotency_run sample_command sample_script 2 1 sample_session = Some (Inr (), s') \<and> se_written s' = [run]
    \<and> cr_passed (rr_correctness_results run)"
proof -
  have up: "comes_up (be_harness sample_command)" using sample_machine_up by (simp add: sample_command_def)
  have wr: "sp_write sample_script = Inr ()" by (simp add: sample_script_def)
  have client: "client_ok (be_client sample_command)"
    by (simp add: client_ok_def sample_command_def sample_client_def sample_charge_def)
  have db: "db_up (se_db sample_session)"
    by (simp add: sample_session_def sample_done_db_def sample_charged_db_def sample_running_db_def)
  have pc: "sample_calls = sp_requests sample_script 2" by (simp add: sample_script_def)
  have "all_delivered sample_calls" by (simp add: all_delivered_def sample_calls_def sample_call_def)
  moreover have "distinct (point_ids sample_calls)" by (simp add: point_ids_def sample_calls_def sample_call_def)
  moreover have "length (pc_shared sample_calls) = 2" "distinct (map fst (pc_unique sample_calls))"
    "set (map fst (pc_unique sample_calls)) = {0 ..< 2}"
    by (auto simp: sample_calls_def)
  ultimately obtain m run s' where "idempotency_run sample_command sample_script 2 1 sample_session = Some (Inr (), s')"
    "se_written s' = se_written sample_session @ [run]" "cr_passed (rr_correctness_results run)"
    using idempotency_scenario_passes [OF up wr client db pc, of 1] by auto
  then show ?thesis by (simp add: sample_session_def)
qed

subsection \<open>Scenarios with workers\<close>

text \<open>C33. The gate of a scenario that runs workers can fail only for what it measures of the host. Whatever the services and workers
  do between the submission and the measurement, in whatever order and with whatever failures, the run tracks exactly the jobs
  whose submission was answered, and every failure its gate reports is one of the in-flight capacity or of the latencies against
  the measured time; none is of the jobs, the attempts or the charges.\<close>

theorem live_gate_fails_only_on_the_host:
  assumes "wire_ok lib" "driven lib (bl_api bl) scenario start mx calls s0 s"
    and "submit_many (bl_api bl) scenario start mx calls (sys_db s0) = (outcomes, db1)"
    and "drained \<Longrightarrow> queue_depth (sys_db s) = Inr 0"
    and "measure_live bl outcomes capacity peak drained elapsed (sys_db s) = Inr m"
  shows "md_ids m = answered_ids calls
    \<and> gr_failures (md_gate m) = snd (gate_capacity capacity peak) @ snd (gate_latency (bl_show_f0 bl) (md_latencies m) elapsed)"
proof -
  note t = driven_tables [OF assms(1,2)] and r = measure_live_Inr [OF assms(5)]
  let ?ids = "answered_ids calls"
  have ids: "tracked outcomes = ?ids" using t(5) assms(3) tracked_outcomes by simp
  have "snd (gate_terminal drained (gate_found ?ids (sys_db s))) = []"
    using drained_terminal [OF t(2) assms(4)] by (intro gate_terminal_ok) blast
  moreover obtain g where "run_gate (bl_show_uuid bl) (bl_show_f0 bl)
       \<lparr>gi_tracked_ids = ?ids, gi_expect_all_terminal = drained, gi_worker_capacity = capacity,
        gi_observed_peak_inflight = peak, gi_latency_samples_ms = md_latencies m,
        gi_measurement_window_secs = elapsed\<rparr> (sys_db s) = Inr g"
     "gr_failures g = snd (gate_terminal drained (gate_found ?ids (sys_db s))) @ snd (gate_capacity capacity peak)
        @ snd (gate_latency (bl_show_f0 bl) (md_latencies m) elapsed)"
    using gate_accepts_unfinished [OF t(2-4,6,7)] by blast
  moreover from this(1) r(3) ids have "g = md_gate m" by simp
  ultimately show ?thesis using r(1) ids by simp
qed

text \<open>A backlog of one job, submitted to the system of \<open>Samples\<close> after its first job is done, and measured before a worker comes up.\<close>

definition sample_backlog_db :: "charge_payload db" where
  "sample_backlog_db = sample_done_db\<lparr>jobs := jobs sample_done_db @ [bench_row (bl_api sample_bench) ''backlog'' 5 (0, sample_submit 3 Answered)]\<rparr>"

lemma sample_driven:
  "submit_many (bl_api sample_bench) ''backlog'' 0 5 [(0, sample_submit 3 Answered)] sample_done_db
     = ([outcome_of (0, sample_submit 3 Answered)], sample_backlog_db)"
  "driven sample_lib (bl_api sample_bench) ''backlog'' 0 5 [(0, sample_submit 3 Answered)] run_done (run_done\<lparr>sys_db := sample_backlog_db\<rparr>)"
proof -
  have jobs: "jid ` set (jobs sample_done_db) = {7}" using sample_done_jobs by simp
  have up: "db_up sample_done_db" by (simp add: sample_done_db_def sample_charged_db_def sample_running_db_def)
  have ok: "calls_ok 0 [(0, sample_submit 3 Answered)] sample_done_db" unfolding calls_ok_def jobs by (simp add: sample_submit_def)
  show sub: "submit_many (bl_api sample_bench) ''backlog'' 0 5 [(0, sample_submit 3 Answered)] sample_done_db
     = ([outcome_of (0, sample_submit 3 Answered)], sample_backlog_db)"
    using submit_many_result [OF sample_bench_ok _ _ _ up ok, of "''backlog''" 5]
    by (simp add: sample_backlog_db_def arrived_def sample_submit_def scenario_name_def)
  show "driven sample_lib (bl_api sample_bench) ''backlog'' 0 5 [(0, sample_submit 3 Answered)] run_done
      (run_done\<lparr>sys_db := sample_backlog_db\<rparr>)"
  proof -
    have "lib_api sample_lib = ba_env (bl_api sample_bench)" by (simp add: sample_lib_def sample_bench_def)
    moreover have "db_up sample_backlog_db" using up by (simp add: sample_backlog_db_def)
    ultimately show ?thesis using run_reachable up ok sample_bench_ok by (simp add: driven_def sub scenario_name_def)
  qed
qed

theorem live_gate_fails_only_on_the_host_witness:
  "\<exists>m. measure_live sample_bench [outcome_of (0, sample_submit 3 Answered)] (Some 4) (Some 0) False 1 sample_backlog_db = Inr m
    \<and> md_ids m = [3] \<and> gr_failures (md_gate m) = []"
proof -
  let ?s = "run_done\<lparr>sys_db := sample_backlog_db\<rparr>" and ?calls = "[(0, sample_submit 3 Answered)]"
  note t = driven_tables [OF sample_wire_ok sample_driven(2)]
  have row: "finished_at (bench_row (bl_api sample_bench) ''backlog'' 5 (0, sample_submit 3 Answered)) = None"
    "jid (bench_row (bl_api sample_bench) ''backlog'' 5 (0, sample_submit 3 Answered)) = 3"
    by (simp_all add: bench_row_def new_job_row_def sample_submit_def)
  have up: "db_up sample_backlog_db" using t(4) by simp
  have "3 \<notin> jid ` set (jobs sample_done_db)" using sample_done_jobs by simp
  then have "filter (\<lambda>r. jid r = 3) (jobs sample_done_db) = []" by (auto simp: filter_empty_conv)
  then have none: "rows_or_none (end_to_end_latencies_ms [3] sample_backlog_db) = []"
    using up row by (simp add: end_to_end_latencies_ms_def query_def rows_or_none_def sample_backlog_db_def flip: filter_filter)
  have ids: "answered_ids ?calls = [3]" by (simp add: answered_ids_def sample_submit_def)
  obtain g where "run_gate (bl_show_uuid sample_bench) (bl_show_f0 sample_bench)
      \<lparr>gi_tracked_ids = [3], gi_expect_all_terminal = False, gi_worker_capacity = Some 4, gi_observed_peak_inflight = Some 0,
       gi_latency_samples_ms = [], gi_measurement_window_secs = 1\<rparr> sample_backlog_db = Inr g"
    using gate_accepts_unfinished [OF t(2-4,6,7), of "bl_show_uuid sample_bench" "bl_show_f0 sample_bench" False "Some 4" "Some 0" "[]" 1]
    unfolding ids by auto
  then obtain m where m: "measure_live sample_bench [outcome_of (0, sample_submit 3 Answered)] (Some 4) (Some 0) False 1
      (sys_db ?s) = Inr m" "md_latencies m = []"
    using none tracked_outcomes [of ?calls] by (simp add: measure_live_def Let_def ids)
  from live_gate_fails_only_on_the_host [OF sample_wire_ok sample_driven(2) _ _ m(1)] sample_driven(1) m(2)
  have "md_ids m = [3] \<and> gr_failures (md_gate m) = []" by (simp add: ids gate_capacity_def gate_latency_def)
  with m(1) show ?thesis by simp
qed

text \<open>C34. The counts of the retry scenario agree with the tables. In every reachable state with the tracked jobs in it, the succeeded and
  dead jobs it counts are disjoint and together with the waiting and running ones they are all of its jobs, so that when the queue
  is drained nothing is left out; and the retry amplification is at most the largest attempt budget of the jobs.\<close>

theorem retry_counts_are_complete:
  assumes "wire_ok lib" "reachable lib s" "db_up (sys_db s)" "distinct ids" "set ids \<subseteq> jid ` set (jobs (sys_db s))"
    and "\<And>r. r \<in> set (jobs (sys_db s)) \<Longrightarrow> jid r \<in> set ids \<Longrightarrow> max_attempts r \<le> int b"
  shows "count_with_status ''PENDING'' ids (sys_db s) + count_with_status ''RUNNING'' ids (sys_db s)
      + count_with_status ''SUCCEEDED'' ids (sys_db s) + count_with_status ''DEAD'' ids (sys_db s) = length ids
    \<and> (queue_depth (sys_db s) = Inr 0 \<longrightarrow>
        count_with_status ''SUCCEEDED'' ids (sys_db s) + count_with_status ''DEAD'' ids (sys_db s) = length ids)
    \<and> retry_amplification ids (sys_db s) \<le> of_nat b"
proof -
  have inv: "db_inv (sys_db s)" using reachable_inv [OF assms(1,2)] by (simp add: sys_inv_def data_inv_def)
  have sum: "count_with_status ''PENDING'' ids (sys_db s) + count_with_status ''RUNNING'' ids (sys_db s)
      + count_with_status ''SUCCEEDED'' ids (sys_db s) + count_with_status ''DEAD'' ids (sys_db s) = length ids"
    using statuses_add_up [OF inv assms(4,5)] by (simp add: count_with_status_rows [OF assms(3)] as_db_str.simps)
  have "count_with_status ''PENDING'' ids (sys_db s) = 0 \<and> count_with_status ''RUNNING'' ids (sys_db s) = 0"
    if "queue_depth (sys_db s) = Inr 0"
    using drained_terminal [OF inv that]
    by (fastforce simp: count_with_status_rows [OF assms(3)] rows_with_def filter_empty_conv as_db_str.simps)
  moreover have "attempts r \<le> int b" if "r \<in> set (jobs (sys_db s))" "jid r \<in> set ids" for r
    using db_inv_checks [OF inv that(1)] assms(6) [OF that] by (simp add: job_checks_def)
  from total_attempts_sum [OF inv assms(3-5) this] have "total_attempts ids (sys_db s) \<le> b * length ids" .
  then have "retry_amplification ids (sys_db s) \<le> of_nat b"
    by (cases "ids = []") (simp_all add: retry_amplification_def divide_le_eq flip: of_nat_mult)
  ultimately show ?thesis using sum by auto
qed

lemma sample_done_tracked: "db_up (sys_db run_done)" "set [7] \<subseteq> jid ` set (jobs (sys_db run_done))"
proof -
  show "db_up (sys_db run_done)" by (simp add: sample_done_db_def sample_charged_db_def sample_running_db_def)
  show "set [7] \<subseteq> jid ` set (jobs (sys_db run_done))" by (simp add: sample_done_jobs del: run_fields)
qed

theorem retry_counts_are_complete_witness: "retry_amplification [7] sample_done_db \<le> 3"
proof -
  have "max_attempts r \<le> int 3" if "r \<in> set (jobs (sys_db run_done))" for r
    using that by (simp add: sample_done_jobs del: run_fields)
  with retry_counts_are_complete [OF sample_wire_ok run_reachable sample_done_tracked(1) _ sample_done_tracked(2), of 3]
  show ?thesis by simp
qed

text \<open>The shares of the workers add up. In every reachable state the per-worker counts of the scaling scenario sum up to the number of
  its jobs that succeeded: no success is counted for two workers and none for nobody.\<close>

theorem worker_shares_add_up:
  assumes "wire_ok lib" "reachable lib s" "db_up (sys_db s)" "distinct ids" "set ids \<subseteq> jid ` set (jobs (sys_db s))"
  shows "sum_list (map snd (per_worker_counts ids (sys_db s))) = count_with_status ''SUCCEEDED'' ids (sys_db s)"
proof -
  have "db_inv (sys_db s)" using reachable_inv [OF assms(1,2)] by (simp add: sys_inv_def data_inv_def)
  from per_worker_total [OF this assms(3-5)] show ?thesis
    by (simp add: count_with_status_rows [OF assms(3)] as_db_str.simps)
qed

theorem worker_shares_add_up_witness:
  "sum_list (map snd (per_worker_counts [7] sample_done_db)) = count_with_status ''SUCCEEDED'' [7] sample_done_db"
  using worker_shares_add_up [OF sample_wire_ok run_reachable sample_done_tracked(1) _ sample_done_tracked(2)] by simp

end
