(* ===== verification/CommandProps.thy ===== *)
theory CommandProps
  imports CommandSamples
begin

section \<open>Properties of the run command of the benchmark\<close>

text \<open>
  What \<open>reliableq-bench run\<close> leaves of its processes and of its records however it ends, and what alone can keep it from ending.
\<close>

subsection \<open>Processes\<close>

lemma command_only:
  assumes "os_ok (be_harness be) alive"
  shows "hoare (only alive base []) (bench_command cm be scripts path scenario out) (\<lambda>_. only alive base []) (only alive base [])"
proof -
  have handed_on: "hoare (only alive base []) (or_failed r) (\<lambda>_. only alive base []) (only alive base [])" for r
    by (rule hoareI) (auto simp: or_failed_def)
  have tables: "hoare (only alive base []) (alter (\<lambda>s. s\<lparr>se_db := db\<rparr>)) (\<lambda>_. only alive base []) (only alive base [])" for db
    by (rule hoare_alter) (simp add: only_def)
  have ok: "os_ok (be_harness (bench_of_config be c env)) alive" for c env using assms by (simp add: bench_of_config_def)
  show ?thesis
    unfolding bench_command_def
    by (rule hoare_then_do, rule handed_on, rule hoare_then_do, rule handed_on, rule hoare_then_do, rule handed_on,
        rule hoare_then_do, rule handed_on, rule hoare_then_do, rule tables, rule run_plan_only [OF ok])
qed

text \<open>C38. No process outlives the benchmark. On a system where only a spawn starts a process, waiting for a child and killing it end it, and
  dropping a handle kills its child: a run of any scenario that succeeds has stopped every process it started by the time it
  returns, and whichever way the whole command ends, after however many runs and at whatever error, every process that is
  running then was running before it.\<close>

theorem no_process_outlives_the_benchmark:
  assumes "os_ok (be_harness be) alive"
  shows "(\<forall>s'. point_body be sc p s = Some (Inr (), s') \<and> alive q (se_os s') \<longrightarrow> alive q (se_os s))
    \<and> (\<forall>r s'. bench_command cm be scripts path scenario out s = Some (r, s') \<and> alive q (se_os s') \<longrightarrow> alive q (se_os s))"
proof -
  have s: "only alive {q. alive q (se_os s)} [] s" by (simp add: only_def)
  have "alive q (se_os s)" if "point_body be sc p s = Some (Inr (), s')" "alive q (se_os s')" for s'
    using hoareD(1) [OF point_only [OF assms] s that(1)] that(2) by (simp add: only_def)
  moreover note command = hoareD [OF command_only [OF assms, of _ cm scripts path scenario out] s]
  have "alive q (se_os s)" if "bench_command cm be scripts path scenario out s = Some (r, s')" "alive q (se_os s')" for r s'
    using command that by (cases r) (simp_all add: only_def)
  ultimately show ?thesis by blast
qed

definition sample_bench_config :: bench_config where
  "sample_bench_config =
     \<lparr>bc_environment = \<lparr>ec_api_bind = ''a:1'', ec_worker_metrics_bind_base_port = 9100, ec_fake_charge_bind = ''c:1'',
        ec_database_url = ''postgres://db'', ec_binary_dir = ''bin''\<rparr>,
      bc_repeat = 1, bc_ingestion = None, bc_execution = None, bc_scaling = None, bc_claim_batch = None,
      bc_downstream_latency = None, bc_retry_degradation = None,
      bc_backlog = Some \<lparr>bl_enabled = True, bl_backlogs = [3], bl_worker_concurrency = 2\<rparr>, bc_crash_recovery = None,
      bc_idempotency = Some \<lparr>ic_enabled = True, ic_concurrency_levels = [2]\<rparr>\<rparr>"

definition sample_command_env :: "(string, charge_payload, string) command_env" where
  "sample_command_env =
     \<lparr>cm_read = Inr, cm_parse = (\<lambda>raw. Inr sample_bench_config), cm_create_dir = (\<lambda>d. Inr ()),
      cm_platform = \<lparr>pf_parse_addr = Some, pf_connect = (\<lambda>u n t. Inr sample_done_db), pf_migrate = Inr, pf_bind = (\<lambda>a. Inr ()),
        pf_client = (\<lambda>c t. Inr ())\<rparr>,
      cm_host = sample_machine_host, cm_postgres = (\<lambda>db. (None, (\<lambda>k. None)))\<rparr>"

lemma sample_plan: "run_command sample_bench_config ''all'' = [(BacklogPoint 3 2, 1), (IdempotencyPoint 2, 1)]"
  by (simp add: run_command_def scenario_plans_def enabled_def repeated_def sample_bench_config_def ingestion_plan_def
      execution_plan_def scaling_plan_def claim_batch_plan_def retry_degradation_plan_def backlog_plan_def crash_recovery_plan_def
      idempotency_plan_def)

lemma sample_load: "load_config (cm_read sample_command_env) (cm_parse sample_command_env) ''quick.toml'' = Inr sample_bench_config"
  by (simp add: load_config_def sample_command_env_def)

lemma run_plan_ends:
  assumes "clock_ok (be_harness be)" "probes_return (be_harness be)" "\<And>i. watched (scripts i)" "\<And>i. heard (scripts i)"
    and "\<And>i. timed (scripts i)" "\<And>batch n k. (ClaimBatchPoint batch n, k) \<notin> set plan"
  shows "ends (run_plan be scripts i plan)"
  using assms(6)
proof (induction plan arbitrary: i)
  case (Cons p plan)
  have "fst p \<noteq> ClaimBatchPoint batch n" for batch n using Cons.prems by (metis list.set_intros(1) prod.collapse)
  from run_planned_ends [OF assms(1-5) this] Cons show ?case by (simp add: ends_then_do)
qed (simp add: ends_basic)

lemma command_ends:
  assumes "clock_ok (be_harness be)" "probes_return (be_harness be)" "\<And>i. watched (scripts i)" "\<And>i. heard (scripts i)"
    and "\<And>i. timed (scripts i)" "load_config (cm_read cm) (cm_parse cm) path = Inr config"
    and "\<And>batch n k. (ClaimBatchPoint batch n, k) \<notin> set (run_command config scenario)"
  shows "\<exists>r s'. bench_command cm be scripts path scenario out s = Some (r, s')"
proof -
  have plan: "ends (run_plan (bench_of_config be config env) scripts 0 (run_command config scenario))" for env
    using assms by (intro run_plan_ends) (simp_all add: bench_of_config_def)
  have failed: "ends (or_failed r)" for r :: "string + 'a" by (simp add: ends_def or_failed_def)
  show ?thesis
    using plan assms(6)
    by (cases "cm_create_dir cm out"; cases "create_pool (cm_platform cm) (bench_database config)")
      (auto simp: bench_command_def then_do_def or_failed_def alter_def ends_def split: sum.split)
qed

lemma sample_watched: "watched sample_script"
  by (simp add: watched_def polled_long_enough_def sample_script_def)

lemma sample_heard: "heard sample_script"
  by (simp add: heard_def sample_script_def sample_calls_def)

lemma sample_timed: "timed sample_script"
  by (simp add: timed_def sample_script_def)

lemma sample_probes: "probes_return (be_harness sample_command)"
  by (simp add: probes_return_def sample_command_def sample_machine_def)

lemma sample_command_clock: "clock_ok (be_harness sample_command)"
  using sample_machine_clock by (simp add: sample_command_def)

lemma sample_command_ends:
  "\<exists>r s'. bench_command sample_command_env sample_command (\<lambda>i. sample_script) ''quick.toml'' ''all'' ''results'' sample_session = Some (r, s')"
  by (rule command_ends [OF sample_command_clock sample_probes sample_watched sample_heard sample_timed sample_load])
    (simp add: sample_plan)

theorem no_process_outlives_the_benchmark_witness:
  "\<exists>r s'. bench_command sample_command_env sample_command (\<lambda>i. sample_script) ''quick.toml'' ''all'' ''results'' sample_session
      = Some (r, s') \<and> snd (se_os s') \<subseteq> {1, 2}"
proof -
  have ok: "os_ok (be_harness sample_command) sample_running_on" using sample_machine_ok by (simp add: sample_command_def)
  obtain r s' where run: "bench_command sample_command_env sample_command (\<lambda>i. sample_script) ''quick.toml'' ''all'' ''results''
      sample_session = Some (r, s')" using sample_command_ends by blast
  then have "sample_running_on q (se_os s') \<Longrightarrow> sample_running_on q (se_os sample_session)" for q
    using no_process_outlives_the_benchmark [OF ok] by blast
  then have "snd (se_os s') \<subseteq> {1, 2}" by (auto simp: sample_running_on_def sample_session_def)
  with run show ?thesis by blast
qed

subsection \<open>Records\<close>

lemma command_cases:
  assumes "load_config (cm_read cm) (cm_parse cm) path = Inr config"
    and "bench_command cm be scripts path scenario out s = Some (r, s')"
  obtains e where "r = Inl e" "s' = s"
  | db env where "run_plan (bench_of_config be config env) scripts 0 (run_command config scenario) (s\<lparr>se_db := db\<rparr>) = Some (r, s')"
proof (cases "cm_create_dir cm out")
  case (Inl e)
  with assms that(1) show thesis by (auto simp: bench_command_def then_do_def or_failed_def)
next
  case dir: (Inr u)
  show thesis
  proof (cases "create_pool (cm_platform cm) (bench_database config)")
    case (Inl e)
    with assms dir that(1) show thesis by (auto simp: bench_command_def then_do_def or_failed_def)
  next
    case pool: (Inr db0)
    show thesis
      by (cases "run_migrations (cm_platform cm) db0")
        (use assms dir pool that in \<open>auto simp: bench_command_def then_do_def or_failed_def alter_def\<close>)
  qed
qed

text \<open>C39. A command records its plan. However it ends, the records a command has added are those of the first runs of its plan, in order,
  each naming the scenario, the parameters and the number of its run; when it ends well they are those of the whole plan, and
  when it fails the run it failed in has none.\<close>

theorem command_records_its_plan:
  assumes "load_config (cm_read cm) (cm_parse cm) path = Inr config"
    and "bench_command cm be scripts path scenario out s = Some (r, s')"
  shows "\<exists>runs k. se_written s' = se_written s @ runs
    \<and> map run_label runs = map (planned_label (bl_lib (be_lib be))) (take k (run_command config scenario))
    \<and> (r = Inr () \<longrightarrow> k = length (run_command config scenario))
    \<and> (r \<noteq> Inr () \<longrightarrow> k < length (run_command config scenario) \<or> k = 0)"
  using assms
proof (rule command_cases)
  fix e assume "r = Inl e" "s' = s"
  then show ?thesis by (intro exI [of _ "[]"] exI [of _ 0]) simp
next
  fix db env
  assume "run_plan (bench_of_config be config env) scripts 0 (run_command config scenario) (s\<lparr>se_db := db\<rparr>) = Some (r, s')"
  from run_plan_written [OF this] obtain runs k where "se_written s' = se_written s @ runs" "k \<le> length (run_command config scenario)"
    "map run_label runs = map (planned_label (bl_lib (be_lib be))) (take k (run_command config scenario))"
    "k = length (run_command config scenario) \<longleftrightarrow> r = Inr ()"
    by (auto simp: bench_of_config_def)
  then show ?thesis by (intro exI [of _ runs] exI [of _ k]) auto
qed

theorem command_records_its_plan_witness:
  "\<exists>r s' k. bench_command sample_command_env sample_command (\<lambda>i. sample_script) ''quick.toml'' ''all'' ''results'' sample_session
      = Some (r, s')
    \<and> map run_label (se_written s')
      = take k [(''backlog'', ''backlog_size'', 1), (''idempotency_contention'', ''concurrency'', 1)]"
proof -
  obtain r s' where run: "bench_command sample_command_env sample_command (\<lambda>i. sample_script) ''quick.toml'' ''all'' ''results''
      sample_session = Some (r, s')" using sample_command_ends by blast
  obtain runs k where "se_written s' = se_written sample_session @ runs"
    "map run_label runs = map (planned_label (bl_lib (be_lib sample_command))) (take k (run_command sample_bench_config ''all''))"
    using command_records_its_plan [OF sample_load run] by blast
  moreover have "se_written sample_session = []" by (simp add: sample_session_def)
  moreover have "map (planned_label (bl_lib (be_lib sample_command))) (run_command sample_bench_config ''all'')
      = [(''backlog'', ''backlog_size'', 1), (''idempotency_contention'', ''concurrency'', 1)]"
    by (simp add: sample_plan planned_label_def sample_command_def sample_bench_def sample_report_def)
  ultimately have "map run_label (se_written s') = take k [(''backlog'', ''backlog_size'', 1), (''idempotency_contention'', ''concurrency'', 1)]"
    by (metis append_Nil take_map)
  with run show ?thesis by blast
qed

subsection \<open>The end\<close>







end
