(* ===== verification/Spec2Isabelle.thy ===== *)
theory Spec2Isabelle
  imports CoreProps RepoProps ServiceProps SystemTrace BenchProps ProcsProps ScenarioProps CommandProps
begin

text \<open>
  ReliableQ is a job queue on PostgreSQL. A client submits jobs to the API (\<open>src/crates/reliableq-api\<close>); worker processes
  (\<open>src/crates/reliableq-worker\<close>) claim due jobs under a lease, post the charge of each to the charge service
  (\<open>src/crates/fake-charge\<close>) under an idempotency key made from the job id, and finalise the job: succeeded, rescheduled with a
  backoff, or dead. A worker that dies leaves a lease that expires, and another worker reclaims the job under a new token, which fences
  the old one off. An operator may replay a dead job. \<open>src/crates/reliableq-db\<close> holds the SQL, \<open>src/crates/reliableq-core\<close> the
  pure parts, \<open>src/crates/reliableq-bench\<close> the benchmarks with their correctness gate. This development models these programs
  function by function and proves that together they charge every succeeded job exactly once.

  \<^bold>\<open>Theories and the code they model.\<close>
  \<^item> \<open>Prelude\<close>: results as sums with \<open>bind_res\<close> (the operator \<open>?\<close>), bounded integers, \<open>Duration\<close> in nanoseconds,
    \<open>str::trim\<close> over UTF-8 bytes, decimal text. No code of the repository.
  \<^item> \<open>Codec\<close>: the locales of an encoding and its decoder; \<open>Interfaces\<close>: the locales of a store that writes once per key, of fenced
    calls and of keyset paging, and the runs of calls they speak of. Their interpretations are on the model's own definitions:
    \<open>status_text\<close> in \<open>Domain\<close>, \<open>charge_store\<close> in \<open>ChargesRepo\<close>, \<open>finalizers\<close> in \<open>JobsFencing\<close>, \<open>job_pages\<close> in
    \<open>Listing\<close>.
  \<^item> \<open>Domain\<close> (\<open>domain.rs\<close>, \<open>failure.rs\<close>, \<open>idempotency.rs\<close>, \<open>redact.rs\<close>), \<open>Retry\<close> (\<open>retry.rs\<close>), \<open>Validation\<close>
    (\<open>validation.rs\<close>) and \<open>Config\<close> (\<open>config.rs\<close>): \<open>reliableq-core\<close>.
  \<^item> \<open>Store\<close>: the rows of \<open>jobs\<close>, \<open>job_attempts\<close> and \<open>charges\<close> with the constraints of \<open>migrations/0001_init_schema.sql\<close>, and the
    statements \<open>UPDATE\<close> and \<open>INSERT\<close>. \<open>JobsRepo\<close> (\<open>jobs.rs\<close>, \<open>attempts.rs\<close>) and \<open>ChargesRepo\<close> (\<open>charges.rs\<close>): every function
    of \<open>reliableq-db\<close>, one transaction each.
  \<^item> \<open>JobsInv\<close>, \<open>JobsClaim\<close>, \<open>JobsWrite\<close>: the invariant of the job tables and that every function keeps it, with its exact
    result. \<open>JobMachine\<close>: the lifecycle of a job as an abstract machine and the refinement of each function to it. \<open>JobsFencing\<close>: the
    three finalisers as one, and fencing. \<open>Budget\<close>: how often jobs can be executed.
  \<^item> \<open>Worker\<close> (\<open>lib.rs\<close>, \<open>failpoint.rs\<close>) and \<open>Poll\<close> (\<open>poll.rs\<close>, \<open>spawn_bounded_batch\<close>): \<open>reliableq-worker\<close>; \<open>Heartbeat\<close>: what the
    renewals of a running job guarantee.
  \<^item> \<open>Api\<close> (\<open>jobs.rs\<close>, \<open>error.rs\<close>, \<open>correlation.rs\<close>, \<open>health.rs\<close>, \<open>metrics.rs\<close>, \<open>lib.rs\<close>), \<open>ApiRoutes\<close> (the
    routes as one function), \<open>Listing\<close> (paging from cursor to cursor) and \<open>ApiResults\<close> (what each handler answers on consistent
    tables): \<open>reliableq-api\<close>. \<open>FakeCharge\<close>: \<open>fake-charge\<close>.
  \<^item> \<open>System\<close>: the services, the workers and the network as one step relation, whose steps are the functions above; \<open>SystemInv\<close>: its
    invariant; \<open>SystemTrace\<close>: its refinement to the job machine and the run that brings a job to success.
  \<^item> \<open>Startup\<close>: the \<open>main\<close> functions of the three services with \<open>create_pool\<close> and \<open>run_migrations\<close>: what a process reads from its
    environment, where it gives up and the service it runs then. \<open>Layers\<close>: what \<open>build_app\<close> (\<open>lib.rs\<close> of both services) puts around the
    routes, the gauge refresher (\<open>metrics.rs\<close>), the metrics listener of the worker (\<open>metrics_server.rs\<close>) and the migration command
    (\<open>bin/migrate.rs\<close>).
  \<^item> \<open>Bench\<close>: \<open>correctness.rs\<close>, \<open>stats.rs\<close> and parts of \<open>db.rs\<close> and \<open>scenarios\<close>: \<open>reliableq-bench\<close>.
    \<open>BenchResult\<close> (\<open>result.rs\<close>), \<open>BenchReport\<close> and \<open>BenchAnalysis\<close> (\<open>report.rs\<close>): the record of a run, the document made
    of the records and what its charts draw; \<open>BenchFacts\<close>: what the document says of the runs. \<open>BenchIdempotency\<close> (\<open>scenarios/idempotency.rs\<close>)
    sends the requests of a run to the charge service of \<open>FakeCharge\<close>; \<open>BenchDrivers\<close> (\<open>claim_batch.rs\<close>, \<open>crash_recovery.rs\<close>) drives the
    repository and the worker, and \<open>BenchRuns\<close> shows that its loops end and what tables they leave.
  \<^item> \<open>BenchSession\<close>: the state a run of the benchmark works on, and how its steps compose. \<open>BenchPlan\<close> (\<open>config.rs\<close>, \<open>main.rs\<close>): the
    configuration and the runs a command makes of it. \<open>BenchProcs\<close> (\<open>procs.rs\<close>, \<open>chaos_client.rs\<close>): the settings it gives the services it
    starts, the wait until they answer, and the calls of the control surface, against \<open>Startup\<close> and \<open>FakeCharge\<close>. \<open>BenchSubmit\<close>
    (\<open>submit_job\<close>, \<open>submit_many\<close> of \<open>db.rs\<close>) submits jobs through \<open>Api\<close>; \<open>BenchLive\<close> (the other files of \<open>scenarios\<close>) holds what the runs with
    worker processes measure and record, whose tables \<open>BenchTables\<close> relates to the runs of \<open>System\<close>; \<open>BenchServices\<close> holds what they
    start, ask of the charge service and stop; \<open>BenchHost\<close> (\<open>resource.rs\<close>, \<open>env_info.rs\<close>): what is read of the machine.
  \<^item> \<open>BenchPoints\<close>: every run of every scenario, from the emptied tables to the last process stopped; \<open>BenchCommand\<close> (\<open>main.rs\<close>): the
    command that makes the runs of a plan. \<open>BenchLeaves\<close>: which processes a run leaves; \<open>BenchRecords\<close>: which records, and that nothing but
    a request without an answer keeps it from ending.
  \<^item> \<open>Samples\<close>, \<open>BenchSamples\<close>, \<open>CrashSamples\<close>, \<open>CommandSamples\<close>: concrete instances for the witnesses. \<open>CoreProps\<close>, \<open>RepoProps\<close>, \<open>ServiceProps\<close>,
    \<open>BenchProps\<close>, \<open>ProcsProps\<close>, \<open>ScenarioProps\<close>, \<open>CommandProps\<close> and this theory: the properties, each with a witness where it has
    hypotheses.

  \<^bold>\<open>State.\<close> A database is a record of three lists of rows, in insertion order, and whether it can be reached. A function that
  fails returns an error and leaves the database as it was, as a transaction that is not committed does. A statement that binds a
  \<open>text\<close> or \<open>jsonb\<close> value with the character U+0000 fails, as in PostgreSQL (\<open>text_ok\<close>, \<open>ae_jsonb\<close>): no validation of the
  program looks for it. Times are microseconds and
  come with the call, one \<open>now()\<close> per transaction; new ids and lease tokens come with the call as well. The rows that
  \<open>SKIP LOCKED\<close> skips are a parameter of a claim. In \<open>System\<close> every transaction of every process is one step and steps interleave
  in any order; requests stay in the network and may be handled late, twice or never; a crash drops an execution at any point. A request to a service
  is handled whole or, when it times out, dropped before or after its transaction is committed. A run of the benchmark is a step on a
  \<open>session\<close> (clock, processes, failure injection, tables, records), in the order of the code, with the network, the host and the worker
  processes as its \<open>script\<close>; a step may end with an error or never. Never is what a request comes to that is not answered and does not
  fail: the HTTP clients of the benchmark have no timeout (\<open>awaiting\<close>, \<open>sp_silent\<close>, \<open>pc_silent\<close>, \<open>ha_get\<close>). A statement of the
  database returns, with a result or an error.

  \<^bold>\<open>What is assumed.\<close> \<open>wire_ok\<close>: the charge service reads back the key of a job from the header and the payload of a job from the
  body that the worker encoded, the API and the worker decode JSON alike, and UUIDs print as distinct strings of hexadecimal digits and hyphens. The rule \<open>other_client\<close> of
  \<open>System\<close>: other clients of the charge service make requests of any kind and with any body, but not under the idempotency key of a
  job. \<open>jsonb_texts_ok\<close>: the strings of a decoded payload are strings of the stored one, so that \<open>jsonb\<close> has refused U+0000 in
  them. \<open>fresh_tokens\<close>: \<open>gen_random_uuid()\<close> gives a token that was not given before.
  \<open>gen_range_within\<close>: \<open>gen_range(0..=n)\<close> is at most \<open>n\<close>. \<open>sane_control\<close>: nobody asks the charge service to inject a failure whose
  status is a success. \<open>cursor_text_ok\<close>: timestamps, UUIDs and base64 read back as they print. \<open>client_ok\<close>: the charge
  service decodes the payloads and the keys, of printing characters, that the benchmark's client encoded. \<open>healthy\<close>, \<open>orderly\<close>: the charge service accepts every charge, or at least
  leaves the job tables alone. \<open>clock_ok\<close>: time does not run backwards, and a sleep takes at least as long as it is asked to.
  \<open>api_ok\<close>: the API decodes the payload the benchmark encoded and the benchmark the id it is answered. \<open>calls_ok\<close>: the ids given to
  submitted jobs are new and distinct. \<open>driven\<close>: between submission and measurement the tables change as the services and workers
  of \<open>System\<close> change them. \<open>os_ok\<close>: only a spawn starts a process, and no other than the child it returns; a child that was waited for
  or killed is not running, and dropping the handle of one kills it (\<open>kill_on_drop\<close>). \<open>watched\<close>: a queue is polled until the longest
  deadline has passed or it is drained. \<open>timed\<close>, \<open>rounds_take_time\<close>: a round of a loop takes time. Each has a witness. \<open>heard\<close> and
  \<open>probes_return\<close> say that every request of the benchmark is answered or fails: the theorem on the end of a command does not assume
  them, it says that nothing else can keep the command from ending.

  \<^bold>\<open>What the lemmas show.\<close> The functional lemmas of \<open>JobsWrite\<close>, \<open>JobsClaim\<close> and \<open>JobsInv\<close> give the result of every repository
  function on every branch; the invariant \<open>db_inv\<close> says that the attempts of a job are its rows 1 to its counter and that the last of
  them agrees with the status and the lease; \<open>sys_inv\<close> adds that every charge under a job's key was made for that job, that a
  worker which saw a success did so because the charge exists, and that succeeded jobs are charged. \<open>ApiResults\<close> gives the answer of each handler on
  consistent tables. For the benchmark, \<open>fold_btree_push\<close> gives the grouping by \<open>BTreeMap\<close> as its reference,
  \<open>submit_all_result\<close> what a batch of submissions stores and answers, \<open>driven_tables\<close> what holds of the tables a live scenario
  measures, \<open>worker_reads_spec\<close> that settings passed as text are read back, \<open>probe_until_ends\<close> that the wait for a service ends when
  its requests return,
  \<open>measure_point_passes\<close> the outcome of the idempotency scenario, \<open>claim_rounds_drain\<close> that the claim loop ends with every job
  succeeded, \<open>failpoint_rounds_ends\<close> and \<open>failpoint_rounds_tables\<close> that the loop over a failpoint ends at its deadline and that crashing
  workers keep the invariants. Over whole runs, \<open>run_plan_only\<close> says which processes are left,
  however they end, \<open>run_plan_written\<close> which records, and \<open>run_planned_ends\<close> that they end
  when every request is answered. In \<open>Layers\<close>, \<open>api_service_cases\<close> gives what
  a request is answered and leaves through all layers, \<open>gauges_after_refreshes\<close> and \<open>gauges_survive_outage\<close> what the gauges show.

  \<^bold>\<open>Bounds and fuel.\<close> Loops of the code recurse over the list they go through. \<open>follow_cursors\<close> has fuel, and more fuel than there are
  jobs is enough (shown with it). \<open>wait_for_drain\<close> and \<open>heartbeat\<close> run over the list of wake-ups they see. \<open>claim_rounds\<close>
  has fuel, and one round more than the queue divided by the batch size is enough (\<open>claim_rounds_drain\<close>). \<open>failpoint_rounds\<close> and
  \<open>probe_until\<close> are \<open>partial_function\<close>s without fuel, which look at the deadline where the code does (60 and 15 seconds); that they
  have a value is shown. \<open>i32\<close>, \<open>u32\<close>, \<open>u64\<close> and
  \<open>i64\<close> bounds are written out where the code can reach them (\<open>attempts + 5\<close>, the saturating backoff, milliseconds).

  \<^bold>\<open>Not modelled.\<close> Logging and the set-up of its filter; the signal itself that ends a process (the poll loop has its arrival as a step,
  a server serves the requests that come before it); the migrations, as what they make of a database is a parameter. What the worker
  processes of a live scenario make of the tables is a parameter of its run (\<open>sp_world\<close>), since they run beside it; \<open>BenchTables\<close> relates
  it to \<open>System\<close>. A failpoint or claim loop that ends in an error leaves the tables of its run as they were before it: the error ends the command,
  which reads them no more. Packages (axum, sqlx, serde, chrono, uuid, base64, sha2, rand, reqwest, toml, clap, plotters, the metrics
  exporter) are parameters. \<open>f64\<close> values are exact rationals. The surrogate key of \<open>job_attempts\<close> is left out: nothing reads it.
\<close>

section \<open>Properties of the whole system\<close>

subsection \<open>Charging\<close>

text \<open>C1. Exactly once: in every state the services, workers and crashes can reach, a job that succeeded has exactly one row in the
  charge table under its idempotency key, and that row charges what the job's payload says.\<close>

theorem succeeded_job_charged_exactly_once:
  assumes "wire_ok lib" "reachable lib s" "r \<in> set (jobs (sys_db s))" "status r = as_db_str Succeeded"
  shows "\<exists>c pl. filter (\<lambda>c. ch_idempotency_key c = charge_key lib (jid r)) (charges (sys_db s)) = [c]
    \<and> job_payload lib (payload r) = Inr pl
    \<and> ch_customer_id c = customer_id pl \<and> ch_amount_cents c = amount_cents pl \<and> ch_currency c = currency pl"
proof -
  have data: "data_inv lib (sys_db s)" using reachable_inv [OF assms(1,2)] by (simp add: sys_inv_def)
  have core: "(jid r, payload r) \<in> cores (sys_db s)" using assms(3) by (force simp: cores_def job_core_def)
  then obtain pl where pl: "job_payload lib (payload r) = Inr pl" using data by (auto simp: data_inv_def)
  have "jid r \<in> succeeded_ids (sys_db s)" using assms(3,4) by (auto simp: succeeded_ids_def)
  then obtain c where c: "charge_of (charge_key lib (jid r)) (sys_db s) = Some c"
    using data by (auto simp: data_inv_def charged_def)
  with data have "filter (\<lambda>c. ch_idempotency_key c = charge_key lib (jid r)) (charges (sys_db s)) = [c]"
    by (intro charge_row_unique) (simp_all add: data_inv_def)
  with stored_for_job [OF assms(1) data core pl c] pl show ?thesis
    by (auto simp: charge_for_def same_semantic_request_def)
qed

theorem succeeded_job_charged_exactly_once_witness:
  "\<exists>c. filter (\<lambda>c. ch_idempotency_key c = charge_key sample_lib 7) (charges (sys_db run_done)) = [c] \<and> ch_amount_cents c = 250"
  using succeeded_job_charged_exactly_once [OF sample_wire_ok run_reachable sample_done_row] sample_payload_ok
  by (auto simp: sample_payload_def)

text \<open>C2. No charge out of nothing: in every reachable state a charge under the key of a job belongs to a job that was submitted, there
  is no second one under that key, and it charges what that job's payload says, whatever retries, lost leases, duplicated
  requests and late deliveries came before.\<close>

theorem job_charge_matches_its_job:
  assumes "wire_ok lib" "reachable lib s" "c \<in> set (charges (sys_db s))" "ch_idempotency_key c = charge_key lib i"
  shows "\<exists>r \<in> set (jobs (sys_db s)). jid r = i
    \<and> filter (\<lambda>c. ch_idempotency_key c = charge_key lib i) (charges (sys_db s)) = [c]
    \<and> (\<exists>pl. job_payload lib (payload r) = Inr pl \<and> ch_customer_id c = customer_id pl
          \<and> ch_amount_cents c = amount_cents pl \<and> ch_currency c = currency pl)"
proof -
  have data: "data_inv lib (sys_db s)" using reachable_inv [OF assms(1,2)] by (simp add: sys_inv_def)
  then obtain v pl where core: "(i, v) \<in> cores (sys_db s)" "job_payload lib v = Inr pl" "charge_for pl c"
    using assms(3,4) unfolding data_inv_def by blast
  obtain r where r: "r \<in> set (jobs (sys_db s))" "jid r = i" "payload r = v" using core(1) by (auto simp: cores_def job_core_def)
  have ci: "charges_inv (sys_db s)" using data by (simp add: data_inv_def)
  have "charge_of (charge_key lib i) (sys_db s) \<noteq> None" using assms(3,4) by (metis charge_of_None image_eqI)
  then obtain d where d: "charge_of (charge_key lib i) (sys_db s) = Some d" by blast
  note only = charge_row_unique [OF ci d]
  have "c \<in> set (filter (\<lambda>c. ch_idempotency_key c = charge_key lib i) (charges (sys_db s)))" using assms(3,4) by simp
  with only have "c = d" by simp
  with only r core show ?thesis by (auto simp: charge_for_def same_semantic_request_def)
qed

theorem job_charge_matches_its_job_witness:
  "\<exists>r \<in> set (jobs sample_charged_db). jid r = 7 \<and> (\<exists>pl. job_payload sample_lib (payload r) = Inr pl \<and> amount_cents pl = 250)"
proof -
  have "reachable sample_lib run_judged" by (rule run_judged_reachable)
  moreover have "sample_charge_row \<in> set (charges (sys_db run_judged))" by (simp add: sample_charged_db_def)
  moreover have "ch_idempotency_key sample_charge_row = charge_key sample_lib 7" by (simp add: sample_charge_row_def)
  ultimately have "\<exists>r \<in> set (jobs (sys_db run_judged)). jid r = 7
      \<and> filter (\<lambda>c. ch_idempotency_key c = charge_key sample_lib 7) (charges (sys_db run_judged)) = [sample_charge_row]
      \<and> (\<exists>pl. job_payload sample_lib (payload r) = Inr pl \<and> ch_customer_id sample_charge_row = customer_id pl
            \<and> ch_amount_cents sample_charge_row = amount_cents pl \<and> ch_currency sample_charge_row = currency pl)"
    by (rule job_charge_matches_its_job [OF sample_wire_ok])
  then show ?thesis by (auto simp: sample_charge_row_def)
qed

text \<open>C17. A worker is never told that its idempotency key was used for another payload, nor that its request is malformed: in every
  reachable state the charge service refuses a request of a worker only by an injected failure or an internal error.\<close>

theorem worker_never_sees_a_conflict:
  assumes "wire_ok lib" "reachable lib s" "m \<in> set (sys_network s)"
    and "handle_request lib now new_id m (sys_chaos s, sys_db s) = (Inl e, chaos', db')"
  shows "ce_code e = ''INTERNAL'' \<or> ce_code e = ''INJECTED_FAILURE''"
proof -
  note inv = reachable_inv [OF assms(1,2)]
  then have data: "data_inv lib (sys_db s)" and "message_inv lib (sys_db s) m" using assms(3) by (simp_all add: sys_inv_def)
  then obtain i v pl where "(i, v) \<in> cores (sys_db s)" "job_payload lib v = Inr pl"
    "m = charge_request (lib_worker lib) i pl" by (auto simp: message_inv_def)
  with worker_request_answer [OF assms(1) data] assms(4) show ?thesis by blast
qed

theorem worker_never_sees_a_conflict_witness:
  "\<exists>e st db. handle_request sample_lib 300 9 sample_message
      (sys_chaos run_posted, sample_running_db\<lparr>db_up := False\<rparr>) = (Inl e, st, db) \<and> ce_code e = ''INTERNAL''"
proof -
  let ?s = "run_posted\<lparr>sys_db := (sys_db run_posted)\<lparr>db_up := False\<rparr>\<rparr>"
  have "reachable sample_lib ?s" by (rule reachable_step [OF run_posted_reachable sys_step.outage])
  moreover have "sample_message \<in> set (sys_network ?s)" by simp
  moreover have k: "cp_idempotency_key sample_message = charge_key sample_lib 7" "cp_body sample_message = sample_payload"
    by (simp_all add: sample_message_def charge_request_def charge_key_def)
  have "handle_request sample_lib 300 9 sample_message (sys_chaos ?s, sys_db ?s)
      = (Inl (charge_internal (Text ''internal error'')), sample_chaos, sys_db ?s)"
    by (simp add: handle_request_def create_charge_def k received_key [OF sample_wire_ok]
        received_body [OF sample_wire_ok sample_payload_ok] decide_normal default_chaos_def sample_chaos_def
        insert_or_get_charge_def query_def charge_error_of_repo_def)
  ultimately show ?thesis using worker_never_sees_a_conflict [OF sample_wire_ok, of ?s sample_message 300 9]
    by (simp add: charge_internal_def)
qed

subsection \<open>The life of a job\<close>

text \<open>C3. Each step of the running system is, for every job, no change, its creation, or one legal move of the lifecycle: claiming and
  reclaiming use one attempt of the budget under a new lease, success, rescheduling and burial end a lease, replay
  revives a buried job; nothing else happens and no job disappears.\<close>

theorem every_step_is_a_legal_move:
  assumes "wire_ok lib" "reachable lib s" "sys_step lib s s'"
  shows "evolves (abs_db (sys_db s) i) (abs_db (sys_db s') i)"
  by (rule sys_step_evolves [OF reachable_inv [OF assms(1,2)] assms(3)])

theorem every_step_is_a_legal_move_witness:
  "evolves (Some (Waiting, 0, 3)) (Some (Leased 55, 1, 3))"
  using every_step_is_a_legal_move [OF sample_wire_ok run_submitted_reachable run_steps(2), of 7]
  by (simp add: abs_db_def find_job_def sample_pending_db_def sample_running_db_def abs_job_def abs_phase_def)

text \<open>C4. A job that succeeded stays as it is, whatever the system does after: no replay, retry, late finaliser or reclaim brings it back,
  and its attempts are not counted up.\<close>

theorem success_is_final:
  assumes "wire_ok lib" "reachable lib s" "(sys_step lib)\<^sup>*\<^sup>* s s'"
    and "find_job i (sys_db s) = Some r" "status r = as_db_str Succeeded"
  shows "\<exists>r'. find_job i (sys_db s') = Some r' \<and> status r' = as_db_str Succeeded
    \<and> attempts r' = attempts r \<and> max_attempts r' = max_attempts r"
proof -
  have "abs_db (sys_db s) i = Some (Finished, attempts r, max_attempts r)"
    using assms(4,5) by (simp add: abs_db_def abs_job_def abs_phase_def)
  with sys_steps_evolve [OF assms(1,3,2), of i] finished_forever
  have "abs_db (sys_db s') i = Some (Finished, attempts r, max_attempts r)" by metis
  then show ?thesis by (auto simp: abs_db_def abs_job_def abs_phase_def split: if_splits)
qed

theorem success_is_final_witness:
  "\<exists>r'. find_job 7 (sample_done_db\<lparr>db_up := False\<rparr>) = Some r' \<and> status r' = as_db_str Succeeded \<and> attempts r' = 1"
proof -
  let ?s = "run_done\<lparr>sys_db := (sys_db run_done)\<lparr>db_up := False\<rparr>\<rparr>"
  have "sys_step sample_lib run_done ?s" by (rule sys_step.outage)
  then have "(sys_step sample_lib)\<^sup>*\<^sup>* run_done ?s" by (rule r_into_rtranclp)
  moreover have "find_job 7 (sys_db run_done) = Some sample_done"
    by (simp add: find_job_def sample_done_jobs del: run_fields)
  ultimately show ?thesis using success_is_final [OF sample_wire_ok run_reachable, of ?s 7 sample_done] by auto
qed

text \<open>C5. The audit trail of every job, in every reachable state: the attempts of a job are the rows numbered from one to its counter,
  the counter is within the budget, an attempt records a success exactly if it is the last one of a job that succeeded, a job that
  succeeded has such an attempt, and a running job holds the lease of its last attempt.\<close>

theorem audit_trail_of_every_job:
  assumes "wire_ok lib" "reachable lib s" "r \<in> set (jobs (sys_db s))" "trail = attempts_of (jid r) (sys_db s)"
  shows "map at_number trail = [1..attempts r] \<and> 0 \<le> attempts r \<and> attempts r \<le> max_attempts r
    \<and> (\<forall>a \<in> set trail. at_outcome a = Some (outcome_db_str AttemptSucceeded) \<longleftrightarrow> a = last trail \<and> status r = as_db_str Succeeded)
    \<and> (status r = as_db_str Succeeded \<longrightarrow> trail \<noteq> [])
    \<and> (status r = as_db_str Running \<longrightarrow> lease_token r \<noteq> None \<and> at_lease_token (last trail) = lease_token r)"
proof -
  have "job_ok r trail"
    using reachable_inv [OF assms(1,2)] db_inv_job [OF _ assms(3)] assms(4) by (simp add: sys_inv_def data_inv_def)
  then have t: "trail_ok r trail" and c: "job_checks r"
    and last: "\<forall>a \<in> set trail. at_outcome a = Some (outcome_db_str AttemptSucceeded) \<longrightarrow> a = last trail \<and> status r = as_db_str Succeeded"
    using job_ok_success_last [of r trail] by (simp_all add: job_ok_def)
  from t have "map at_number trail = [1..attempts r]"
    "status r = as_db_str Running \<longrightarrow> at_lease_token (last trail) = lease_token r" by (simp_all add: trail_ok_def)
  moreover from t have "status r = as_db_str Succeeded \<longrightarrow> trail \<noteq> [] \<and> at_outcome (last trail) = Some (outcome_db_str AttemptSucceeded)"
    by (simp add: trail_ok_def)
  moreover from c have "0 \<le> attempts r \<and> attempts r \<le> max_attempts r"
    "status r = as_db_str Running \<longrightarrow> lease_token r \<noteq> None" by (simp_all add: job_checks_def)
  ultimately show ?thesis using last by blast
qed

theorem audit_trail_of_every_job_witness:
  "map at_number (attempts_of 7 sample_done_db) = [1..1]
    \<and> (\<exists>a \<in> set (attempts_of 7 sample_done_db). at_outcome a = Some (outcome_db_str AttemptSucceeded))"
  using audit_trail_of_every_job [OF sample_wire_ok run_reachable sample_done_row refl] last_in_set by auto

text \<open>C6. No job is stuck: from every reachable state, however many crashes, outages and injected failures led there, a job that is
  waiting or running with an attempt left can still be brought to success, as long as lease tokens and charge ids that
  were never used can be drawn. (A stored payload has no string the charge table would refuse, as \<open>jsonb\<close> takes none.)\<close>

theorem no_job_is_stuck:
  assumes "wire_ok lib" "jsonb_texts_ok lib" "reachable lib s" "r \<in> set (jobs (sys_db s))"
    and "status r \<in> {as_db_str Pending, as_db_str Running}" "attempts r < max_attempts r"
    and "fresh_tokens tok (sys_db s)" "new_id \<notin> ch_id ` set (charges (sys_db s))"
  shows "\<exists>s'. (sys_step lib)\<^sup>*\<^sup>* s s' \<and> (\<exists>r' \<in> set (jobs (sys_db s')). jid r' = jid r \<and> status r' = as_db_str Succeeded)"
proof -
  obtain s1 f pl where s1: "(sys_step lib)\<^sup>*\<^sup>* s s1" and f: "f \<in> set (sys_flights s1)" "jid (fl_job f) = jid r"
    and l: "lease_token (fl_job f) = Some (tok (jid r))" "owns (jid r) (tok (jid r)) (sys_db s1)"
    and up: "db_up (sys_db s1)" "mode (sys_chaos s1) = NormalMode" "charges (sys_db s1) = charges (sys_db s)"
    and m: "job_payload lib (payload (fl_job f)) = Inr pl" "fl_stage f = Posted (charge_request (lib_worker lib) (jid r) pl)"
      "charge_request (lib_worker lib) (jid r) pl \<in> set (sys_network s1)"
    using run_to_post [OF assms(1,3-7) refl] by blast
  have "new_id \<notin> ch_id ` set (charges (sys_db s1))" using assms(8) up(3) by simp
  from run_from_post [OF assms(1,2) reachable_steps [OF s1 assms(3)] f(1) m(2) _ m(3,1) l(1) _ up(1,2) this] f(2) l(2)
  obtain s2 where "(sys_step lib)\<^sup>*\<^sup>* s1 s2" "\<exists>r' \<in> set (jobs (sys_db s2)). jid r' = jid r \<and> status r' = as_db_str Succeeded"
    by auto
  with s1 show ?thesis by (meson rtranclp_trans)
qed

theorem no_job_is_stuck_witness:
  "\<exists>s'. (sys_step sample_lib)\<^sup>*\<^sup>* run_claimed s' \<and> (\<exists>r' \<in> set (jobs (sys_db s')). jid r' = 7 \<and> status r' = as_db_str Succeeded)"
proof -
  have "sample_running \<in> set (jobs (sys_db run_claimed))" by (simp add: sample_running_db_def)
  moreover have "fresh_tokens (\<lambda>i. 77) (sys_db run_claimed)" using sample_fresh_77 by simp
  moreover have "9 \<notin> ch_id ` set (charges (sys_db run_claimed))" by (simp add: sample_running_db_def)
  ultimately show ?thesis
    using no_job_is_stuck [OF sample_wire_ok sample_jsonb_texts_ok run_claimed_reachable, of sample_running "\<lambda>i. 77" 9] by simp
qed

subsection \<open>The benchmark's gate\<close>

text \<open>C18. The correctness gate that follows every benchmark scenario is never failed by the system itself: on the tables of any
  reachable state, for any jobs in it tracked without repetition, all of them terminal if the scenario expects that, its
  database checks all pass.\<close>

theorem gate_passes_on_reachable_tables:
  assumes "wire_ok lib" "reachable lib s" "db_up (sys_db s)"
    and "distinct (gi_tracked_ids input)" "set (gi_tracked_ids input) \<subseteq> jid ` set (jobs (sys_db s))"
    and "gi_expect_all_terminal input \<Longrightarrow>
      \<forall>r \<in> set (jobs (sys_db s)). jid r \<in> set (gi_tracked_ids input) \<longrightarrow> status r \<in> {as_db_str Succeeded, as_db_str Dead}"
    and "gi_worker_capacity input = None" "gi_latency_samples_ms input = []"
  shows "\<exists>g. run_gate show_uuid show_f0 input (sys_db s) = Inr g \<and> gr_passed g \<and> gr_failures g = []"
proof -
  have data: "db_inv (sys_db s)" "charges_inv (sys_db s)"
    using reachable_inv [OF assms(1,2)] by (simp_all add: sys_inv_def data_inv_def)
  let ?ids = "gi_tracked_ids input" and ?found = "gate_found (gi_tracked_ids input) (sys_db s)"
  have "snd (gate_all_found ?ids ?found) = []"
    using gate_found_length [OF data(1) assms(4,5)] by (simp add: gate_all_found_def bool_check_ok)
  moreover have "snd (gate_terminal (gi_expect_all_terminal input) ?found) = []"
    by (rule gate_terminal_ok) (use assms(6) in blast)
  moreover have "snd (gate_capacity None (gi_observed_peak_inflight input)) = []" by (simp add: gate_capacity_def)
  moreover have "snd (gate_latency show_f0 [] (gi_measurement_window_secs input)) = []" by (simp add: gate_latency_def)
  ultimately show ?thesis
    using gate_found_budget [OF data(1)] gate_charges_ok [OF data(2)] gate_single_success_ok [OF data(1)] assms(3,7,8)
    by (simp add: run_gate_def query_def Let_def)
qed

theorem gate_passes_on_reachable_tables_witness:
  "\<exists>g. run_gate sample_show_uuid (\<lambda>x. []) \<lparr>gi_tracked_ids = [7], gi_expect_all_terminal = True, gi_worker_capacity = None,
      gi_observed_peak_inflight = Some 4, gi_latency_samples_ms = [], gi_measurement_window_secs = 10\<rparr> sample_done_db = Inr g
     \<and> gr_passed g"
proof -
  let ?input = "\<lparr>gi_tracked_ids = [7], gi_expect_all_terminal = True, gi_worker_capacity = None,
      gi_observed_peak_inflight = Some 4, gi_latency_samples_ms = [], gi_measurement_window_secs = 10\<rparr>"
  have "db_up (sys_db run_done)"
    by (simp add: sample_done_db_def sample_charged_db_def sample_running_db_def)
  moreover have "set (gi_tracked_ids ?input) \<subseteq> jid ` set (jobs (sys_db run_done))"
    by (simp add: sample_done_jobs del: run_fields)
  moreover have "\<forall>r \<in> set (jobs (sys_db run_done)). jid r \<in> set (gi_tracked_ids ?input)
      \<longrightarrow> status r \<in> {as_db_str Succeeded, as_db_str Dead}"
    by (simp add: sample_done_jobs del: run_fields)
  ultimately have "\<exists>g. run_gate sample_show_uuid (\<lambda>x. []) ?input (sys_db run_done) = Inr g \<and> gr_passed g \<and> gr_failures g = []"
    by (intro gate_passes_on_reachable_tables [OF sample_wire_ok run_reachable]) simp_all
  then show ?thesis by auto
qed

end
